theory Spec2Isabelle
  imports Complex_Main
begin

section \<open>Go values\<close>

text \<open>
  A Go \<open>error\<close> is modelled by the text its \<open>Error()\<close> method returns; the nil error is
  \<open>None\<close>. A \<open>float64\<close> is only ever stored, compared with its zero value and copied,
  never computed with, so it is modelled by a real number. A \<open>time.Time\<close> is only
  ever passed to \<open>ToESDate\<close>.
\<close>

type_synonym go_error = string
type_synonym float64 = real
type_synonym Time = int

text \<open>\<open>ESDataObject\<close>: the struct of es\_conn.go, lines 19--23.\<close>

record ESDataObject =
  Name :: string
  IValue :: float64
  SValue :: string

text \<open>
  A value of type \<open>interface{}\<close>: the dynamic types that reach this file. A field value
  of a point may be a string, a number or anything else; a document also holds a
  slice of \<open>ESDataObject\<close> under its \<open>data\<close> attribute.
\<close>

datatype iface =
    GoString string
  | GoFloat64 float64
  | GoInt int
  | GoBool bool
  | GoNil
  | GoData "ESDataObject list"

text \<open>A document is a \<open>map[string]interface{}\<close>.\<close>

type_synonym doc = "string \<rightharpoonup> iface"

text \<open>The fields of \<open>Ctx\<close> that this file reads (the struct is declared elsewhere).\<close>

record Ctx =
  Debug :: int
  Project :: string

text \<open>
  A point of \<open>TSPoints\<close> (declared elsewhere); the fields are the ones
  \<open>WriteESPoints\<close> reads: \<open>name\<close>, \<open>tags\<close>, \<open>fields\<close>, \<open>t\<close>, \<open>added\<close>, \<open>period\<close>.
  A Go map is nil (\<open>None\<close>) or a set of bindings with distinct keys; the list gives the
  order in which \<open>range\<close> visits them.
\<close>

record TSPoint =
  pt_name :: string
  pt_tags :: "(string \<times> string) list option"
  pt_fields :: "(string \<times> iface) list option"
  pt_t :: Time
  pt_added :: Time
  pt_period :: string

text \<open>
  The helpers of the package that es\_conn.go calls and that are defined in other files:
  \<open>HashObject\<close>, \<open>ToESDate\<close> and \<open>GetFloatFromInterface\<close>. They are parameters of the
  model.
\<close>

record Lib =
  HashObject :: "doc \<Rightarrow> string list \<Rightarrow> string"
  ToESDate :: "Time \<Rightarrow> string"
  GetFloatFromInterface :: "iface \<Rightarrow> float64 \<times> bool"

section \<open>Strings\<close>

text \<open>\<open>strings.Contains(s, substr)\<close>: \<open>substr\<close> occurs in \<open>s\<close> as a contiguous block.\<close>

fun strings_Contains :: "string \<Rightarrow> string \<Rightarrow> bool" where
  "strings_Contains [] substr = (substr = [])"
| "strings_Contains (c # cs) substr =
     (take (length substr) (c # cs) = substr \<or> strings_Contains cs substr)"

text \<open>\<open>ESIndexName\<close> and \<open>ESEscapeFieldName\<close>, lines 65--72.\<close>

definition ESIndexName :: "Ctx \<Rightarrow> string" where
  "ESIndexName ctx = ''d_'' @ Project ctx"

definition ESEscapeFieldName :: "string \<Rightarrow> string" where
  "ESEscapeFieldName fieldName = filter (\<lambda>c. c \<noteq> CHR ''.'') fieldName"

section \<open>The document store and the trace of a run\<close>

datatype Query =
    BoolQuery "(string \<times> iface) list"
  | WildcardQuery string string

datatype BulkableRequest =
    BulkDeleteRequest string string string
  | BulkIndexRequest string string string doc

fun req_Index :: "BulkableRequest \<Rightarrow> string" where
  "req_Index (BulkDeleteRequest i ty d) = i"
| "req_Index (BulkIndexRequest i ty d body) = i"

fun req_Id :: "BulkableRequest \<Rightarrow> string" where
  "req_Id (BulkDeleteRequest i ty d) = d"
| "req_Id (BulkIndexRequest i ty d body) = d"

text \<open>A \<open>BulkService\<close> is the list of requests added to it so far.\<close>

type_synonym BulkService = "BulkableRequest list"

record BulkResponseItem =
  Result :: string
  Error :: string

text \<open>A \<open>BulkResponse\<close> is read through its method \<open>Failed()\<close> only.\<close>

record BulkResponse =
  Failed :: "BulkResponseItem list"

record IndicesCreateResult =
  Acknowledged :: bool

text \<open>
  What a run does to the outside: the requests it sends to the store, and the
  diagnostics it prints (a diagnostic is recorded by its format string).
\<close>

datatype event =
    Printf_ev string
  | IndexExists_ev string
  | CreateIndex_ev string string
  | DeleteByQuery_ev string string Query
  | Bulk_ev "BulkableRequest list"

text \<open>
  The client \<open>*elastic.Client\<close>: the answer of the store to each request, which may
  depend on everything that happened before. A Go call returning a pointer and an error
  is a pair of options. The answer to a bulk submission also says which requests are
  left in the \<open>BulkService\<close> afterwards.
\<close>

record ESclient =
  IndexExists_Do :: "event list \<Rightarrow> string \<Rightarrow> bool \<times> go_error option"
  CreateIndex_Do ::
    "event list \<Rightarrow> string \<Rightarrow> string \<Rightarrow> IndicesCreateResult option \<times> go_error option"
  DeleteByQuery_Do ::
    "event list \<Rightarrow> string \<Rightarrow> string \<Rightarrow> Query \<Rightarrow> unit option \<times> go_error option"
  Bulk_Do ::
    "event list \<Rightarrow> BulkableRequest list \<Rightarrow>
       BulkResponse option \<times> go_error option \<times> BulkableRequest list"

text \<open>\<open>ES\<close>, lines 12--16 (the context is not modelled).\<close>

record ES =
  es_client :: ESclient
  mapping :: string

section \<open>Runs that may abort\<close>

text \<open>
  Every function below runs on the trace so far and returns its result, or the reason
  the process was aborted, together with the extended trace.
\<close>

datatype fatal =
    FatalError go_error
  | FatalMsg string
  | RuntimePanic string

type_synonym 'a prog = "event list \<Rightarrow> (fatal + 'a) \<times> event list"

definition ret :: "'a \<Rightarrow> 'a prog" where
  "ret x = (\<lambda>tr. (Inr x, tr))"

definition and_then :: "'a prog \<Rightarrow> ('a \<Rightarrow> 'b prog) \<Rightarrow> 'b prog" where
  "and_then m f = (\<lambda>tr. case m tr of (Inl e, tr') \<Rightarrow> (Inl e, tr') | (Inr x, tr') \<Rightarrow> f x tr')"

definition abort :: "fatal \<Rightarrow> 'a prog" where
  "abort e = (\<lambda>tr. (Inl e, tr))"

definition emit :: "event \<Rightarrow> unit prog" where
  "emit ev = (\<lambda>tr. (Inr (), tr @ [ev]))"

definition lift :: "fatal + 'a \<Rightarrow> 'a prog" where
  "lift r = (\<lambda>tr. (r, tr))"

text \<open>
  Modelled from the spec: \<open>Printf\<close>, \<open>Fatalf\<close> and \<open>FatalOnError\<close> are defined in other
  files of the package. The spec treats logging as a diagnostic and process-fatal error
  reporting as an abstract signal that fails the operation: \<open>Fatalf\<close> always aborts,
  \<open>FatalOnError\<close> aborts on a non-nil error and does nothing on nil.
\<close>

definition Printf :: "string \<Rightarrow> unit prog" where
  "Printf fmt = emit (Printf_ev fmt)"

definition Fatalf :: "string \<Rightarrow> 'a prog" where
  "Fatalf fmt = abort (FatalMsg fmt)"

definition FatalOnError :: "go_error option \<Rightarrow> unit prog" where
  "FatalOnError err = (case err of None \<Rightarrow> ret () | Some e \<Rightarrow> abort (FatalError e))"

text \<open>Reading through a pointer: a nil pointer panics.\<close>

definition deref :: "'a option \<Rightarrow> 'a prog" where
  "deref p = (case p of None \<Rightarrow> abort (RuntimePanic ''nil pointer dereference'')
                       | Some x \<Rightarrow> ret x)"

definition when_debug :: "Ctx \<Rightarrow> unit prog \<Rightarrow> unit prog" where
  "when_debug ctx m = (if Debug ctx > 0 then m else ret ())"

section \<open>Index lifecycle, lines 75--94\<close>

definition IndexExists :: "ES \<Rightarrow> Ctx \<Rightarrow> bool prog" where
  "IndexExists es ctx =
     (\<lambda>tr. and_then (emit (IndexExists_ev (ESIndexName ctx)))
       (\<lambda>_. case IndexExists_Do (es_client es) tr (ESIndexName ctx) of
          (exists, err) \<Rightarrow> and_then (FatalOnError err) (\<lambda>_. ret exists)) tr)"

definition CreateIndex :: "ES \<Rightarrow> Ctx \<Rightarrow> unit prog" where
  "CreateIndex es ctx =
     (\<lambda>tr. and_then (emit (CreateIndex_ev (ESIndexName ctx) (mapping es)))
       (\<lambda>_. case CreateIndex_Do (es_client es) tr (ESIndexName ctx) (mapping es) of
          (createIndex, err) \<Rightarrow>
            (case err of
               Some e \<Rightarrow>
                 if strings_Contains e ''already exists''
                 then when_debug ctx (Printf ''CreateIndex: %s index already exists: %+v\<newline>'')
                 else FatalOnError err
             | None \<Rightarrow>
                 and_then (FatalOnError err) (\<lambda>_.
                 and_then (deref createIndex) (\<lambda>r.
                   if \<not> Acknowledged r
                   then Fatalf (''index '' @ ESIndexName ctx @ '' not created'')
                   else ret ())))) tr)"

section \<open>Delete by query, lines 97--130\<close>

text \<open>
  The loop of \<open>DeleteByQuery\<close> reads \<open>propValues[i]\<close> for every index of \<open>propNames\<close>: it
  panics when \<open>propValues\<close> is the shorter slice.
\<close>

fun must_terms :: "string list \<Rightarrow> iface list \<Rightarrow> (string \<times> iface) list \<Rightarrow>
    fatal + (string \<times> iface) list" where
  "must_terms [] vs acc = Inr acc"
| "must_terms (n # ns) [] acc = Inl (RuntimePanic ''index out of range'')"
| "must_terms (n # ns) (v # vs) acc = must_terms ns vs (acc @ [(n, v)])"

definition delete_by_query :: "ES \<Rightarrow> Ctx \<Rightarrow> string \<Rightarrow> Query \<Rightarrow> string \<Rightarrow> unit prog" where
  "delete_by_query es ctx who q done_fmt =
     (\<lambda>tr. and_then (emit (DeleteByQuery_ev (ESIndexName ctx) ''_doc'' q))
       (\<lambda>_. case DeleteByQuery_Do (es_client es) tr (ESIndexName ctx) ''_doc'' q of
          (result, err) \<Rightarrow>
            (case err of
               Some e \<Rightarrow>
                 if strings_Contains e ''search_phase_execution_exception''
                 then when_debug ctx (Printf (who @
                   '': %s index not yet ready for delete (so it doesn't have data for delete anyway): %+v\<newline>''))
                 else FatalOnError err
             | None \<Rightarrow>
                 and_then (FatalOnError err) (\<lambda>_. when_debug ctx (Printf done_fmt)))) tr)"

definition DeleteByQuery :: "ES \<Rightarrow> Ctx \<Rightarrow> string list \<Rightarrow> iface list \<Rightarrow> unit prog" where
  "DeleteByQuery es ctx propNames propValues =
     and_then (lift (must_terms propNames propValues []))
       (\<lambda>musts. delete_by_query es ctx ''DeleteByQuery'' (BoolQuery musts)
          ''DeleteByQuery(%+v, %+v): %+v\<newline>'')"

definition DeleteByWildcardQuery :: "ES \<Rightarrow> Ctx \<Rightarrow> string \<Rightarrow> string \<Rightarrow> unit prog" where
  "DeleteByWildcardQuery es ctx propName propQuery =
     delete_by_query es ctx ''DeleteByWildcardQuery'' (WildcardQuery propName propQuery)
       ''DeleteByWildcardQuery(%s, %s): %+v\<newline>''"

section \<open>Bulk batches, lines 133--179\<close>

definition Bulks :: "ES \<Rightarrow> BulkService \<times> BulkService" where
  "Bulks es = ([], [])"

definition AddBulksItems ::
  "Lib \<Rightarrow> Ctx \<Rightarrow> BulkService \<times> BulkService \<Rightarrow> doc \<Rightarrow> string list \<Rightarrow>
     BulkService \<times> BulkService" where
  "AddBulksItems lib ctx bulks doc keys =
     (let docHash = HashObject lib doc keys in
        (fst bulks @ [BulkDeleteRequest (ESIndexName ctx) ''_doc'' docHash],
         snd bulks @ [BulkIndexRequest (ESIndexName ctx) ''_doc'' docHash doc]))"

text \<open>\<open>BulkService.Do\<close>: the submission is traced, the store answers.\<close>

definition BulkService_Do ::
  "ES \<Rightarrow> BulkService \<Rightarrow> (BulkResponse option \<times> go_error option \<times> BulkService) prog" where
  "BulkService_Do es bulk =
     (\<lambda>tr. (Inr (Bulk_Do (es_client es) tr bulk), tr @ [Bulk_ev bulk]))"

definition NumberOfActions :: "BulkService \<Rightarrow> int" where
  "NumberOfActions bulk = int (length bulk)"

text \<open>The loop over the failed deletes, lines 155--161.\<close>

fun failed_deletes :: "BulkResponseItem list \<Rightarrow> int \<Rightarrow> int prog" where
  "failed_deletes [] nFailed = ret nFailed"
| "failed_deletes (failed # rest) nFailed =
     (if strings_Contains (Result failed) ''not_found''
      then failed_deletes rest (nFailed - 1)
      else and_then (Printf ''Failed delete: %+v: %+v\<newline>'')
             (\<lambda>_. failed_deletes rest nFailed))"

text \<open>The loop over the failed inserts, lines 174--176.\<close>

fun failed_adds :: "BulkResponseItem list \<Rightarrow> unit prog" where
  "failed_adds [] = ret ()"
| "failed_adds (failed # rest) =
     and_then (Printf ''Failed add: %+v: %+v\<newline>'') (\<lambda>_. failed_adds rest)"

definition delete_phase :: "ES \<Rightarrow> BulkService \<Rightarrow> unit prog" where
  "delete_phase es bulkDel =
     and_then (BulkService_Do es bulkDel) (\<lambda>(res, err, bulkDel').
     and_then (FatalOnError err) (\<lambda>_.
     and_then (if NumberOfActions bulkDel' \<noteq> 0
               then Fatalf ''bulk delete: not all actions executed: %+v\<newline>''
               else ret ()) (\<lambda>_.
     and_then (deref res) (\<lambda>r.
       let failedResults = Failed r; nFailed = int (length failedResults) in
       if length failedResults > 0
       then and_then (failed_deletes failedResults nFailed) (\<lambda>nFailed.
              if nFailed > 0 then Fatalf ''bulk delete failed: %+v\<newline>'' else ret ())
       else ret ()))))"

definition insert_phase :: "ES \<Rightarrow> BulkService \<Rightarrow> unit prog" where
  "insert_phase es bulkAdd =
     and_then (BulkService_Do es bulkAdd) (\<lambda>(res, err, bulkAdd').
     and_then (FatalOnError err) (\<lambda>_.
     and_then (if NumberOfActions bulkAdd' \<noteq> 0
               then Fatalf ''bulk add not all actions executed: %+v\<newline>''
               else ret ()) (\<lambda>_.
     and_then (deref res) (\<lambda>r.
       let failedResults = Failed r in
       if length failedResults > 0
       then and_then (failed_adds failedResults)
              (\<lambda>_. Fatalf ''bulk failed add: %+v\<newline>'')
       else ret ()))))"

definition ExecuteBulks :: "ES \<Rightarrow> BulkService \<Rightarrow> BulkService \<Rightarrow> unit prog" where
  "ExecuteBulks es bulkDel bulkAdd =
     and_then (delete_phase es bulkDel) (\<lambda>_. insert_phase es bulkAdd)"

text \<open>The bulk submissions of a trace, in order.\<close>

fun submitted :: "event list \<Rightarrow> BulkableRequest list list" where
  "submitted [] = []"
| "submitted (Bulk_ev rs # evs) = rs # submitted evs"
| "submitted (ev # evs) = submitted evs"

text \<open>The requests of a trace that reach the document store (everything but diagnostics).\<close>

fun store_calls :: "event list \<Rightarrow> event list" where
  "store_calls [] = []"
| "store_calls (Printf_ev fmt # evs) = store_calls evs"
| "store_calls (ev # evs) = ev # store_calls evs"

section \<open>Writing points, lines 185--356\<close>

text \<open>The array \<open>outputs [3]bool\<close>: wide, array, flat.\<close>

type_synonym Outputs = "bool \<times> bool \<times> bool"

definition out0 :: "Outputs \<Rightarrow> bool" where
  "out0 outputs = fst outputs"

definition out1 :: "Outputs \<Rightarrow> bool" where
  "out1 outputs = fst (snd outputs)"

definition out2 :: "Outputs \<Rightarrow> bool" where
  "out2 outputs = snd (snd outputs)"

text \<open>
  The state of the loop over the points: the two batches \<open>bulkDel\<close>, \<open>bulkAdd\<close> and the
  counter \<open>items\<close>. Each call of \<open>AddBulksItems\<close> in the loop is followed by \<open>items++\<close>.
\<close>

type_synonym acc = "(BulkService \<times> BulkService) \<times> int"

definition add_item :: "Lib \<Rightarrow> Ctx \<Rightarrow> acc \<Rightarrow> doc \<Rightarrow> string list \<Rightarrow> acc" where
  "add_item lib ctx st obj keys = (AddBulksItems lib ctx (fst st) obj keys, snd st + 1)"

text \<open>The type assertion \<open>fieldValue.(string)\<close>.\<close>

fun as_string :: "iface \<Rightarrow> string \<times> bool" where
  "as_string (GoString s) = (s, True)"
| "as_string v = ([], False)"

text \<open>The loop over the tags of the wide and array document, lines 214--221.\<close>

fun tags_loop :: "Outputs \<Rightarrow> (string \<times> string) list \<Rightarrow> doc \<times> ESDataObject list \<Rightarrow>
    doc \<times> ESDataObject list" where
  "tags_loop outputs [] od = od"
| "tags_loop outputs ((tagName, tagValue) # rest) od =
     tags_loop outputs rest
       (if out0 outputs then (fst od)(ESEscapeFieldName tagName \<mapsto> GoString tagValue)
        else fst od,
        if out1 outputs
        then snd od @ [\<lparr>Name = tagName, IValue = 0, SValue = tagValue\<rparr>]
        else snd od)"

text \<open>The loop over the tags of the flat documents, lines 229--238.\<close>

fun tags_flat_loop :: "Lib \<Rightarrow> Ctx \<Rightarrow> TSPoint \<Rightarrow> (string \<times> string) list \<Rightarrow> acc \<Rightarrow> acc" where
  "tags_flat_loop lib ctx p [] st = st"
| "tags_flat_loop lib ctx p ((tagName, tagValue) # rest) st =
     tags_flat_loop lib ctx p rest
       (add_item lib ctx st
          [''type'' \<mapsto> GoString (''it'' @ pt_name p),
           ''time'' \<mapsto> GoString (ToESDate lib (pt_added p)),
           ''tag_time'' \<mapsto> GoString (ToESDate lib (pt_t p)),
           ''name'' \<mapsto> GoString tagName,
           ''svalue'' \<mapsto> GoString tagValue]
          [''type'', ''tag_time'', ''name''])"

text \<open>The tag branch of a point, lines 207--240.\<close>

definition tags_branch :: "Lib \<Rightarrow> Ctx \<Rightarrow> Outputs \<Rightarrow> TSPoint \<Rightarrow> (string \<times> string) list \<Rightarrow>
    acc \<Rightarrow> acc" where
  "tags_branch lib ctx outputs p tags st =
     (let st1 =
        (if out0 outputs \<or> out1 outputs
         then
           (let obj = [''type'' \<mapsto> GoString (''t'' @ pt_name p),
                       ''time'' \<mapsto> GoString (ToESDate lib (pt_added p)),
                       ''tag_time'' \<mapsto> GoString (ToESDate lib (pt_t p))];
                od = tags_loop outputs tags (obj, []);
                obj' = (if out1 outputs then (fst od)(''data'' \<mapsto> GoData (snd od))
                        else fst od)
            in add_item lib ctx st obj' [''type'', ''tag_time''])
         else st)
      in if out2 outputs then tags_flat_loop lib ctx p tags st1 else st1)"

text \<open>
  The loop over the fields of the wide and array document, lines 249--265 and, with
  the same text, lines 304--320.
\<close>

fun fields_loop :: "Lib \<Rightarrow> Outputs \<Rightarrow> (string \<times> iface) list \<Rightarrow> doc \<times> ESDataObject list \<Rightarrow>
    fatal + doc \<times> ESDataObject list" where
  "fields_loop lib outputs [] od = Inr od"
| "fields_loop lib outputs ((fieldName, fieldValue) # rest) od =
     (let obj = (if out0 outputs then (fst od)(ESEscapeFieldName fieldName \<mapsto> fieldValue)
                 else fst od)
      in if out1 outputs
         then
           (case as_string fieldValue of
              (svalue, ok) \<Rightarrow>
                if ok
                then fields_loop lib outputs rest
                       (obj, snd od @ [\<lparr>Name = fieldName, IValue = 0, SValue = svalue\<rparr>])
                else
                  (case GetFloatFromInterface lib fieldValue of
                     (value, ok) \<Rightarrow>
                       if \<not> ok then Inl (FatalMsg ''cannot convert %+v to a number'')
                       else fields_loop lib outputs rest
                              (obj, snd od @ [\<lparr>Name = fieldName, IValue = value, SValue = []\<rparr>])))
         else fields_loop lib outputs rest (obj, snd od))"

text \<open>
  The value of a flat field document, lines 280--289 and, with the same text, lines
  336--345.
\<close>

definition flat_value :: "Lib \<Rightarrow> iface \<Rightarrow> doc \<Rightarrow> fatal + doc" where
  "flat_value lib fieldValue obj =
     (case as_string fieldValue of
        (svalue, ok) \<Rightarrow>
          if ok then Inr (obj(''svalue'' \<mapsto> GoString svalue))
          else
            (case GetFloatFromInterface lib fieldValue of
               (value, ok) \<Rightarrow>
                 if \<not> ok then Inl (FatalMsg ''cannot convert %+v to a number'')
                 else Inr (obj(''ivalue'' \<mapsto> GoFloat64 value))))"

text \<open>The wide and array document of the fields of a point, merge mode off, lines 242--271.\<close>

definition fields_doc :: "Lib \<Rightarrow> Ctx \<Rightarrow> Outputs \<Rightarrow> TSPoint \<Rightarrow> (string \<times> iface) list \<Rightarrow>
    acc \<Rightarrow> fatal + acc" where
  "fields_doc lib ctx outputs p flds st =
     (let obj = [''type'' \<mapsto> GoString (''s'' @ pt_name p),
                 ''time'' \<mapsto> GoString (ToESDate lib (pt_t p)),
                 ''period'' \<mapsto> GoString (pt_period p),
                 ''time_added'' \<mapsto> GoString (ToESDate lib (pt_added p))]
      in case fields_loop lib outputs flds (obj, []) of
           Inl e \<Rightarrow> Inl e
         | Inr od \<Rightarrow>
             Inr (add_item lib ctx st
                    (if out1 outputs then (fst od)(''data'' \<mapsto> GoData (snd od)) else fst od)
                    [''type'', ''time'', ''period'']))"

text \<open>The loop over the fields of the flat documents, merge mode off, lines 273--292.\<close>

fun fields_flat_loop :: "Lib \<Rightarrow> Ctx \<Rightarrow> TSPoint \<Rightarrow> (string \<times> iface) list \<Rightarrow> acc \<Rightarrow>
    fatal + acc" where
  "fields_flat_loop lib ctx p [] st = Inr st"
| "fields_flat_loop lib ctx p ((fieldName, fieldValue) # rest) st =
     (case flat_value lib fieldValue
             [''type'' \<mapsto> GoString (''is'' @ pt_name p),
              ''time'' \<mapsto> GoString (ToESDate lib (pt_t p)),
              ''period'' \<mapsto> GoString (pt_period p),
              ''time_added'' \<mapsto> GoString (ToESDate lib (pt_added p)),
              ''name'' \<mapsto> GoString fieldName] of
        Inl e \<Rightarrow> Inl e
      | Inr obj \<Rightarrow>
          fields_flat_loop lib ctx p rest
            (add_item lib ctx st obj [''type'', ''time'', ''period'', ''name'']))"

text \<open>The field branch of a point, merge mode off, lines 241--294.\<close>

definition fields_branch :: "Lib \<Rightarrow> Ctx \<Rightarrow> Outputs \<Rightarrow> TSPoint \<Rightarrow> (string \<times> iface) list \<Rightarrow>
    acc \<Rightarrow> fatal + acc" where
  "fields_branch lib ctx outputs p flds st =
     (case (if out0 outputs \<or> out1 outputs then fields_doc lib ctx outputs p flds st
            else Inr st) of
        Inl e \<Rightarrow> Inl e
      | Inr st1 \<Rightarrow>
          if out2 outputs then fields_flat_loop lib ctx p flds st1 else Inr st1)"

text \<open>The wide and array document of the fields of a point, merge mode on, lines 296--326.\<close>

definition merged_doc :: "Lib \<Rightarrow> Ctx \<Rightarrow> string \<Rightarrow> Outputs \<Rightarrow> TSPoint \<Rightarrow>
    (string \<times> iface) list \<Rightarrow> acc \<Rightarrow> fatal + acc" where
  "merged_doc lib ctx mergeS outputs p flds st =
     (let obj = [''type'' \<mapsto> GoString mergeS,
                 ''time'' \<mapsto> GoString (ToESDate lib (pt_t p)),
                 ''period'' \<mapsto> GoString (pt_period p),
                 ''series'' \<mapsto> GoString (pt_name p),
                 ''time_added'' \<mapsto> GoString (ToESDate lib (pt_added p))]
      in case fields_loop lib outputs flds (obj, []) of
           Inl e \<Rightarrow> Inl e
         | Inr od \<Rightarrow>
             Inr (add_item lib ctx st
                    (if out1 outputs then (fst od)(''data'' \<mapsto> GoData (snd od)) else fst od)
                    [''type'', ''time'', ''period'', ''series'']))"

text \<open>The loop over the fields of the flat documents, merge mode on, lines 328--348.\<close>

fun merged_flat_loop :: "Lib \<Rightarrow> Ctx \<Rightarrow> string \<Rightarrow> TSPoint \<Rightarrow> (string \<times> iface) list \<Rightarrow>
    acc \<Rightarrow> fatal + acc" where
  "merged_flat_loop lib ctx mergeS p [] st = Inr st"
| "merged_flat_loop lib ctx mergeS p ((fieldName, fieldValue) # rest) st =
     (case flat_value lib fieldValue
             [''type'' \<mapsto> GoString (''i'' @ mergeS),
              ''time'' \<mapsto> GoString (ToESDate lib (pt_t p)),
              ''period'' \<mapsto> GoString (pt_period p),
              ''series'' \<mapsto> GoString (pt_name p),
              ''time_added'' \<mapsto> GoString (ToESDate lib (pt_added p)),
              ''name'' \<mapsto> GoString fieldName] of
        Inl e \<Rightarrow> Inl e
      | Inr obj \<Rightarrow>
          merged_flat_loop lib ctx mergeS p rest
            (add_item lib ctx st obj [''type'', ''time'', ''period'', ''series'', ''name'']))"

text \<open>The field branch of a point, merge mode on, lines 295--350.\<close>

definition merged_branch :: "Lib \<Rightarrow> Ctx \<Rightarrow> string \<Rightarrow> Outputs \<Rightarrow> TSPoint \<Rightarrow>
    (string \<times> iface) list \<Rightarrow> acc \<Rightarrow> fatal + acc" where
  "merged_branch lib ctx mergeS outputs p flds st =
     (case (if out0 outputs \<or> out1 outputs then merged_doc lib ctx mergeS outputs p flds st
            else Inr st) of
        Inl e \<Rightarrow> Inl e
      | Inr st1 \<Rightarrow>
          if out2 outputs then merged_flat_loop lib ctx mergeS p flds st1 else Inr st1)"

text \<open>The body of the loop over the points, lines 207--350.\<close>

definition point_body :: "Lib \<Rightarrow> Ctx \<Rightarrow> string \<Rightarrow> bool \<Rightarrow> Outputs \<Rightarrow> TSPoint \<Rightarrow> acc \<Rightarrow>
    fatal + acc" where
  "point_body lib ctx mergeS merge outputs p st =
     (let st1 = (case pt_tags p of
                   None \<Rightarrow> st
                 | Some tags \<Rightarrow> tags_branch lib ctx outputs p tags st)
      in case (case pt_fields p of
                 None \<Rightarrow> Inr st1
               | Some flds \<Rightarrow>
                   if \<not> merge then fields_branch lib ctx outputs p flds st1 else Inr st1) of
           Inl e \<Rightarrow> Inl e
         | Inr st2 \<Rightarrow>
             (case pt_fields p of
                None \<Rightarrow> Inr st2
              | Some flds \<Rightarrow>
                  if merge then merged_branch lib ctx mergeS outputs p flds st2
                  else Inr st2))"

text \<open>The loop over the points, lines 206--351.\<close>

fun points_loop :: "Lib \<Rightarrow> Ctx \<Rightarrow> string \<Rightarrow> bool \<Rightarrow> Outputs \<Rightarrow> TSPoint list \<Rightarrow> acc \<Rightarrow>
    fatal + acc" where
  "points_loop lib ctx mergeS merge outputs [] st = Inr st"
| "points_loop lib ctx mergeS merge outputs (p # pts) st =
     (case point_body lib ctx mergeS merge outputs p st of
        Inl e \<Rightarrow> Inl e
      | Inr st' \<Rightarrow> points_loop lib ctx mergeS merge outputs pts st')"

text \<open>Lines 194--198: the merge label and the merge flag.\<close>

definition merge_mode :: "string \<Rightarrow> string \<times> bool" where
  "merge_mode mergeS = (if mergeS \<noteq> [] then (''s'' @ mergeS, True) else (mergeS, False))"

definition WriteESPoints :: "ES \<Rightarrow> Lib \<Rightarrow> Ctx \<Rightarrow> TSPoint list \<Rightarrow> string \<Rightarrow> Outputs \<Rightarrow> unit prog" where
  "WriteESPoints es lib ctx pts mergeS outputs =
     (let npts = length pts in
      and_then (when_debug ctx
                  (and_then (Printf ''WriteESPoints: writing %d points\<newline>'')
                     (\<lambda>_. Printf ''Points:\<newline>%+v\<newline>''))) (\<lambda>_.
      if npts = 0 then ret ()
      else
        (case merge_mode mergeS of
           (mergeS', merge) \<Rightarrow>
             and_then (IndexExists es ctx) (\<lambda>exists.
             and_then (if \<not> exists then CreateIndex es ctx else ret ()) (\<lambda>_.
             and_then (lift (points_loop lib ctx mergeS' merge outputs pts (Bulks es, 0)))
               (\<lambda>st.
             and_then (ExecuteBulks es (fst (fst st)) (snd (fst st))) (\<lambda>_.
             when_debug ctx (Printf ''Items: %d\<newline>''))))))))"

section \<open>Concrete instances\<close>

text \<open>
  A context, helper functions and stores on which the theorems below are instantiated.
  \<open>lib0\<close> renders the key fields of a document one after the other as its identity and
  coerces floats and integers to numbers.
\<close>

definition ctx0 :: Ctx where
  "ctx0 = \<lparr>Debug = 0, Project = ''k8s''\<rparr>"

definition lib0 :: Lib where
  "lib0 = \<lparr>HashObject = (\<lambda>d ks. concat (map (\<lambda>k. case d k of
                                Some (GoString s) \<Rightarrow> s @ ''|'' | _ \<Rightarrow> ''?|'') ks)),
            ToESDate = (\<lambda>t. if t = 0 then ''1970-01-01 00:00:00'' else ''2018-01-01 00:00:00''),
            GetFloatFromInterface = (\<lambda>v. case v of
                GoFloat64 f \<Rightarrow> (f, True) | GoInt i \<Rightarrow> (of_int i, True) | _ \<Rightarrow> (0, False))\<rparr>"

text \<open>A store that has the index and accepts everything.\<close>

definition store_ok :: ESclient where
  "store_ok = \<lparr>IndexExists_Do = (\<lambda>tr i. (True, None)),
                CreateIndex_Do = (\<lambda>tr i b. (Some \<lparr>Acknowledged = True\<rparr>, None)),
                DeleteByQuery_Do = (\<lambda>tr i ty q. (Some (), None)),
                Bulk_Do = (\<lambda>tr rs. (Some \<lparr>Failed = []\<rparr>, None, []))\<rparr>"

text \<open>A store on which every creation fails with the given error.\<close>

definition store_create_fails :: "go_error \<Rightarrow> ESclient" where
  "store_create_fails e = store_ok\<lparr>CreateIndex_Do := (\<lambda>tr i b. (None, Some e))\<rparr>"

text \<open>A store on which every delete and every bulk submission fails with the given error.\<close>

definition store_delete_fails :: "go_error \<Rightarrow> ESclient" where
  "store_delete_fails e =
     store_ok\<lparr>DeleteByQuery_Do := (\<lambda>tr i ty q. (None, Some e)),
              Bulk_Do := (\<lambda>tr rs. (None, Some e, rs))\<rparr>"

text \<open>
  A store that reports the given per-item failures for the first bulk submission of a
  run and none afterwards.
\<close>

definition store_first_bulk_fails :: "BulkResponseItem list \<Rightarrow> ESclient" where
  "store_first_bulk_fails items =
     store_ok\<lparr>Bulk_Do := (\<lambda>tr rs. (Some \<lparr>Failed = (if submitted tr = [] then items else [])\<rparr>,
                                      None, []))\<rparr>"

definition del0 :: BulkableRequest where
  "del0 = BulkDeleteRequest ''d_k8s'' ''_doc'' ''h''"

definition add0 :: BulkableRequest where
  "add0 = BulkIndexRequest ''d_k8s'' ''_doc'' ''h'' [''type'' \<mapsto> GoString ''sx'']"

text \<open>Points at time 0, added at time 1, with period \<open>d\<close>.\<close>

definition mk_point ::
  "string \<Rightarrow> (string \<times> string) list option \<Rightarrow> (string \<times> iface) list option \<Rightarrow> TSPoint" where
  "mk_point n tg fs =
     \<lparr>pt_name = n, pt_tags = tg, pt_fields = fs, pt_t = 0, pt_added = 1, pt_period = ''d''\<rparr>"

definition es_ok :: ES where
  "es_ok = \<lparr>es_client = store_ok, mapping = ''{}''\<rparr>"

text \<open>Output modes: wide alone, flat alone, wide with array, wide with flat.\<close>

definition wide_only :: Outputs where
  "wide_only = (True, False, False)"

definition flat_only :: Outputs where
  "flat_only = (False, False, True)"

definition wide_array :: Outputs where
  "wide_array = (True, True, False)"

definition wide_flat :: Outputs where
  "wide_flat = (True, False, True)"

section \<open>Notions used in the statements\<close>

text \<open>
  A field value passes the coercion of lines 254--263 when it is a string or
  \<open>GetFloatFromInterface\<close> accepts it.
\<close>

definition coercible :: "Lib \<Rightarrow> iface \<Rightarrow> bool" where
  "coercible lib v = (snd (as_string v) \<or> snd (GetFloatFromInterface lib v))"

text \<open>
  The loop state after \<open>AddBulksItems\<close> and \<open>items++\<close> have run for each of the given
  documents, each with its list of key fields, in order.
\<close>

definition add_docs :: "Lib \<Rightarrow> Ctx \<Rightarrow> (string list \<times> doc) list \<Rightarrow> acc \<Rightarrow> acc" where
  "add_docs lib ctx kds st =
     ((fst (fst st) @
         map (\<lambda>kd. BulkDeleteRequest (ESIndexName ctx) ''_doc'' (HashObject lib (snd kd) (fst kd)))
           kds,
       snd (fst st) @
         map (\<lambda>kd. BulkIndexRequest (ESIndexName ctx) ''_doc'' (HashObject lib (snd kd) (fst kd))
                  (snd kd)) kds),
      snd st + int (length kds))"

text \<open>The body of a request: the document of an insert, nothing for a delete.\<close>

fun req_Doc :: "BulkableRequest \<Rightarrow> doc" where
  "req_Doc (BulkDeleteRequest i ty d) = Map.empty"
| "req_Doc (BulkIndexRequest i ty d body) = body"

text \<open>The lists of key fields of the six kinds of document.\<close>

definition keys_tags :: "string list" where
  "keys_tags = [''type'', ''tag_time'']"

definition keys_tags_flat :: "string list" where
  "keys_tags_flat = [''type'', ''tag_time'', ''name'']"

definition keys_fields :: "string list" where
  "keys_fields = [''type'', ''time'', ''period'']"

definition keys_fields_flat :: "string list" where
  "keys_fields_flat = [''type'', ''time'', ''period'', ''name'']"

definition keys_merged :: "string list" where
  "keys_merged = [''type'', ''time'', ''period'', ''series'']"

definition keys_merged_flat :: "string list" where
  "keys_merged_flat = [''type'', ''time'', ''period'', ''series'', ''name'']"

text \<open>The attribute names that the wide loop writes for a list of tags or fields.\<close>

definition escaped_names :: "(string \<times> 'a) list \<Rightarrow> string list" where
  "escaped_names nvs = map (\<lambda>nv. ESEscapeFieldName (fst nv)) nvs"

text \<open>
  The entry of the embedded sequence that the array loop appends for a field, lines
  254--263: the string value for a string, the coerced number otherwise.
\<close>

definition named_value :: "Lib \<Rightarrow> string \<times> iface \<Rightarrow> ESDataObject" where
  "named_value lib nv =
     (if snd (as_string (snd nv))
      then \<lparr>Name = fst nv, IValue = 0, SValue = fst (as_string (snd nv))\<rparr>
      else \<lparr>Name = fst nv, IValue = fst (GetFloatFromInterface lib (snd nv)), SValue = []\<rparr>)"

text \<open>
  Modelled from the spec: \<open>HashObject\<close> is defined in another file of the package.
  Section 4.1 of the spec asks of the identity that it be a function of the values of
  exactly the named fields, in the order given, and that differing values give
  differing identities. \<open>collision_free_on lib ks D\<close> says the latter of the key fields
  \<open>ks\<close> for the documents of \<open>D\<close>: two of them have the same identity only when their
  key fields have the same values.
\<close>

definition collision_free_on :: "Lib \<Rightarrow> string list \<Rightarrow> doc set \<Rightarrow> bool" where
  "collision_free_on lib ks D =
     (\<forall>d\<in>D. \<forall>d'\<in>D. HashObject lib d ks = HashObject lib d' ks \<longrightarrow> map d ks = map d' ks)"

section \<open>Index creation and the batch executor\<close>

lemma submitted_append: "submitted (xs @ ys) = submitted xs @ submitted ys"
  by (induction xs rule: submitted.induct) simp_all

lemma submitted_Printf: "submitted (map (\<lambda>x. Printf_ev (g x)) xs) = []"
  by (induction xs) simp_all

lemma store_calls_append: "store_calls (xs @ ys) = store_calls xs @ store_calls ys"
  by (induction xs rule: store_calls.induct) simp_all

lemma store_calls_Printf: "store_calls (map (\<lambda>x. Printf_ev (g x)) xs) = []"
  by (induction xs) simp_all

lemma failed_deletes_run:
  "failed_deletes fs n tr =
     (Inr (n - int (length (filter (\<lambda>f. strings_Contains (Result f) ''not_found'') fs))),
      tr @ map (\<lambda>f. Printf_ev ''Failed delete: %+v: %+v\<newline>'')
             (filter (\<lambda>f. \<not> strings_Contains (Result f) ''not_found'') fs))"
  by (induction fs arbitrary: n tr)
     (simp_all add: ret_def and_then_def Printf_def emit_def)

lemma failed_adds_run:
  "failed_adds fs tr = (Inr (), tr @ map (\<lambda>f. Printf_ev ''Failed add: %+v: %+v\<newline>'') fs)"
  by (induction fs arbitrary: tr)
     (simp_all add: ret_def and_then_def Printf_def emit_def)

lemma filter_count_all:
  "int (length fs) - int (length (filter P fs)) > 0 \<longleftrightarrow> (\<exists>f\<in>set fs. \<not> P f)"
proof (induction fs)
  case Nil
  show ?case by simp
next
  case (Cons a fs)
  have "length (filter P fs) \<le> length fs" by simp
  with Cons show ?case by auto
qed

lemma delete_phase_ok:
  assumes "Bulk_Do (es_client es) tr bulkDel = (Some res, None, [])"
  shows "delete_phase es bulkDel tr =
     (if \<exists>f\<in>set (Failed res). \<not> strings_Contains (Result f) ''not_found''
      then Inl (FatalMsg ''bulk delete failed: %+v\<newline>'') else Inr (),
      tr @ Bulk_ev bulkDel #
        map (\<lambda>f. Printf_ev ''Failed delete: %+v: %+v\<newline>'')
          (filter (\<lambda>f. \<not> strings_Contains (Result f) ''not_found'') (Failed res)))"
  using assms filter_count_all[of "Failed res" "\<lambda>f. strings_Contains (Result f) ''not_found''"]
  by (simp add: delete_phase_def and_then_def BulkService_Do_def FatalOnError_def ret_def
      NumberOfActions_def deref_def Let_def failed_deletes_run Fatalf_def abort_def)

lemma insert_phase_submitted:
  "submitted (snd (insert_phase es bulkAdd tr)) = submitted tr @ [bulkAdd]"
  by (cases "Bulk_Do (es_client es) tr bulkAdd")
     (auto simp: insert_phase_def and_then_def BulkService_Do_def FatalOnError_def ret_def
        NumberOfActions_def deref_def Let_def failed_adds_run Fatalf_def abort_def
        submitted_append submitted_Printf
        split: option.splits)

lemma delete_phase_error:
  assumes "Bulk_Do (es_client es) tr bulkDel = (res, Some e, left)"
  shows "delete_phase es bulkDel tr = (Inl (FatalError e), tr @ [Bulk_ev bulkDel])"
  using assms
  by (simp add: delete_phase_def and_then_def BulkService_Do_def FatalOnError_def abort_def)

text \<open>
  C9. Index creation tolerates the lost race: when the store answers the creation with
  an error whose text contains \<open>already exists\<close>, \<open>CreateIndex\<close> returns without error;
  on any other error it aborts with that error, and when the store answers without error
  but does not acknowledge the creation, it aborts too. An acknowledged creation returns
  normally. In each case the creation request is the only request sent to the store.
\<close>

theorem CreateIndex_race_tolerant:
  assumes "CreateIndex_Do (es_client es) tr (ESIndexName ctx) (mapping es) = (createIndex, err)"
  shows "(\<forall>e. err = Some e \<and> strings_Contains e ''already exists'' \<longrightarrow>
            fst (CreateIndex es ctx tr) = Inr ())
       \<and> (\<forall>e. err = Some e \<and> \<not> strings_Contains e ''already exists'' \<longrightarrow>
            fst (CreateIndex es ctx tr) = Inl (FatalError e))
       \<and> (\<forall>r. err = None \<and> createIndex = Some r \<and> \<not> Acknowledged r \<longrightarrow>
            fst (CreateIndex es ctx tr) =
              Inl (FatalMsg (''index '' @ ESIndexName ctx @ '' not created'')))
       \<and> (\<forall>r. err = None \<and> createIndex = Some r \<and> Acknowledged r \<longrightarrow>
            fst (CreateIndex es ctx tr) = Inr ())
       \<and> store_calls (snd (CreateIndex es ctx tr)) =
            store_calls tr @ [CreateIndex_ev (ESIndexName ctx) (mapping es)]"
  using assms
  by (auto simp: CreateIndex_def and_then_def emit_def FatalOnError_def abort_def ret_def
      when_debug_def Printf_def deref_def Fatalf_def store_calls_append
      split: option.splits)

theorem CreateIndex_race_tolerant_witness:
  "fst (CreateIndex \<lparr>es_client = store_create_fails ''index already exists'', mapping = ''{}''\<rparr>
          ctx0 []) = Inr ()
   \<and> fst (CreateIndex \<lparr>es_client = store_create_fails ''no master'', mapping = ''{}''\<rparr>
          ctx0 []) = Inl (FatalError ''no master'')
   \<and> store_calls (snd (CreateIndex
        \<lparr>es_client = store_create_fails ''index already exists'', mapping = ''{}''\<rparr> ctx0 []))
      = [CreateIndex_ev ''d_k8s'' ''{}'']"
  using
    CreateIndex_race_tolerant [of "\<lparr>es_client = store_create_fails ''index already exists'',
        mapping = ''{}''\<rparr>" "[]" ctx0 None "Some ''index already exists''"]
    CreateIndex_race_tolerant [of "\<lparr>es_client = store_create_fails ''no master'',
        mapping = ''{}''\<rparr>" "[]" ctx0 None "Some ''no master''"]
  by (simp add: store_create_fails_def store_ok_def ctx0_def ESIndexName_def)

text \<open>
  C1, as the claim states it, fails: a delete batch whose submission fails with a
  search-phase error aborts \<open>ExecuteBulks\<close>, and the insert batch is never submitted.
\<close>

theorem ExecuteBulks_search_phase_counterexample:
  "strings_Contains ''search_phase_execution_exception'' ''search_phase_execution_exception''
   \<and> Bulk_Do (store_delete_fails ''search_phase_execution_exception'') [] [del0]
       = (None, Some ''search_phase_execution_exception'', [del0])
   \<and> fst (ExecuteBulks
        \<lparr>es_client = store_delete_fails ''search_phase_execution_exception'', mapping = ''{}''\<rparr>
        [del0] [add0] []) = Inl (FatalError ''search_phase_execution_exception'')
   \<and> submitted (snd (ExecuteBulks
        \<lparr>es_client = store_delete_fails ''search_phase_execution_exception'', mapping = ''{}''\<rparr>
        [del0] [add0] [])) = [[del0]]"
  by (simp add: ExecuteBulks_def delete_phase_def and_then_def BulkService_Do_def
      FatalOnError_def abort_def store_delete_fails_def store_ok_def)

text \<open>
  C1, amended. In \<open>ExecuteBulks\<close> every error of the delete submission is fatal, a
  search-phase error too: the call aborts with that error and the insert batch is not
  submitted. The tolerance of a search-phase error is what \<open>DeleteByQuery\<close> does: when
  its submission fails with an error whose text contains
  \<open>search_phase_execution_exception\<close>, it returns without error.
\<close>

theorem ExecuteBulks_delete_error_fatal:
  "(\<forall>res e left. Bulk_Do (es_client es) tr bulkDel = (res, Some e, left) \<longrightarrow>
      ExecuteBulks es bulkDel bulkAdd tr = (Inl (FatalError e), tr @ [Bulk_ev bulkDel]))
   \<and> (\<forall>musts r e. must_terms propNames propValues [] = Inr musts
        \<and> DeleteByQuery_Do (es_client es) tr (ESIndexName ctx) ''_doc'' (BoolQuery musts)
            = (r, Some e)
        \<and> strings_Contains e ''search_phase_execution_exception'' \<longrightarrow>
      fst (DeleteByQuery es ctx propNames propValues tr) = Inr ())"
  by (auto simp: ExecuteBulks_def and_then_def delete_phase_error DeleteByQuery_def lift_def
      delete_by_query_def emit_def when_debug_def Printf_def ret_def)

theorem ExecuteBulks_delete_error_fatal_witness:
  "ExecuteBulks
     \<lparr>es_client = store_delete_fails ''search_phase_execution_exception'', mapping = ''{}''\<rparr>
     [del0] [add0] [] = (Inl (FatalError ''search_phase_execution_exception''), [Bulk_ev [del0]])
   \<and> fst (DeleteByQuery
        \<lparr>es_client = store_delete_fails ''search_phase_execution_exception'', mapping = ''{}''\<rparr>
        ctx0 [''type''] [GoString ''sx''] []) = Inr ()"
  using ExecuteBulks_delete_error_fatal
    [of "\<lparr>es_client = store_delete_fails ''search_phase_execution_exception'', mapping = ''{}''\<rparr>"
        "[]" "[del0]" "[add0]" "[''type'']" "[GoString ''sx'']" ctx0]
  by (simp add: store_delete_fails_def store_ok_def)

text \<open>
  C3. When the delete batch is submitted without error and leaves no action behind,
  the per-item failures decide. If each of them has a result containing \<open>not_found\<close>,
  the delete phase ends without error and prints nothing, and \<open>ExecuteBulks\<close> goes on
  with the insert phase: its outcome is the outcome of the insert phase, and both batches
  are submitted, the delete batch first. If some per-item failure is not a not-found,
  \<open>ExecuteBulks\<close> aborts and the insert batch is not submitted.
\<close>

theorem ExecuteBulks_not_found_tolerated:
  assumes "Bulk_Do (es_client es) tr bulkDel = (Some res, None, [])"
  shows "((\<forall>f\<in>set (Failed res). strings_Contains (Result f) ''not_found'') \<longrightarrow>
            delete_phase es bulkDel tr = (Inr (), tr @ [Bulk_ev bulkDel])
          \<and> ExecuteBulks es bulkDel bulkAdd tr = insert_phase es bulkAdd (tr @ [Bulk_ev bulkDel])
          \<and> submitted (snd (ExecuteBulks es bulkDel bulkAdd tr))
              = submitted tr @ [bulkDel, bulkAdd])
       \<and> ((\<exists>f\<in>set (Failed res). \<not> strings_Contains (Result f) ''not_found'') \<longrightarrow>
            fst (ExecuteBulks es bulkDel bulkAdd tr)
              = Inl (FatalMsg ''bulk delete failed: %+v\<newline>'')
          \<and> submitted (snd (ExecuteBulks es bulkDel bulkAdd tr)) = submitted tr @ [bulkDel])"
proof (intro conjI impI)
  assume nf: "\<forall>f\<in>set (Failed res). strings_Contains (Result f) ''not_found''"
  then have flt: "filter (\<lambda>f. \<not> strings_Contains (Result f) ''not_found'') (Failed res) = []"
    by (simp add: filter_empty_conv)
  from nf show del: "delete_phase es bulkDel tr = (Inr (), tr @ [Bulk_ev bulkDel])"
    by (simp add: delete_phase_ok [OF assms] flt)
  show run: "ExecuteBulks es bulkDel bulkAdd tr
      = insert_phase es bulkAdd (tr @ [Bulk_ev bulkDel])"
    by (simp add: ExecuteBulks_def and_then_def del)
  show "submitted (snd (ExecuteBulks es bulkDel bulkAdd tr)) = submitted tr @ [bulkDel, bulkAdd]"
    by (simp add: run insert_phase_submitted submitted_append)
next
  assume bad: "\<exists>f\<in>set (Failed res). \<not> strings_Contains (Result f) ''not_found''"
  then have del: "delete_phase es bulkDel tr =
      (Inl (FatalMsg ''bulk delete failed: %+v\<newline>''),
       tr @ Bulk_ev bulkDel #
         map (\<lambda>f. Printf_ev ''Failed delete: %+v: %+v\<newline>'')
           (filter (\<lambda>f. \<not> strings_Contains (Result f) ''not_found'') (Failed res)))"
    by (simp add: delete_phase_ok [OF assms])
  show "fst (ExecuteBulks es bulkDel bulkAdd tr) = Inl (FatalMsg ''bulk delete failed: %+v\<newline>'')"
    by (simp add: ExecuteBulks_def and_then_def del)
  show "submitted (snd (ExecuteBulks es bulkDel bulkAdd tr)) = submitted tr @ [bulkDel]"
    by (simp add: ExecuteBulks_def and_then_def del submitted_append submitted_Printf)
qed

theorem ExecuteBulks_not_found_tolerated_witness:
  "ExecuteBulks
     \<lparr>es_client = store_first_bulk_fails [\<lparr>Result = ''not_found'', Error = []\<rparr>],
      mapping = ''{}''\<rparr> [del0] [add0] []
     = (Inr (), [Bulk_ev [del0], Bulk_ev [add0]])
   \<and> fst (ExecuteBulks
        \<lparr>es_client = store_first_bulk_fails
           [\<lparr>Result = ''not_found'', Error = []\<rparr>, \<lparr>Result = ''conflict'', Error = []\<rparr>],
         mapping = ''{}''\<rparr> [del0] [add0] [])
     = Inl (FatalMsg ''bulk delete failed: %+v\<newline>'')
   \<and> submitted (snd (ExecuteBulks
        \<lparr>es_client = store_first_bulk_fails
           [\<lparr>Result = ''not_found'', Error = []\<rparr>, \<lparr>Result = ''conflict'', Error = []\<rparr>],
         mapping = ''{}''\<rparr> [del0] [add0] []))
     = [[del0]]"
  using
    ExecuteBulks_not_found_tolerated
      [of "\<lparr>es_client = store_first_bulk_fails [\<lparr>Result = ''not_found'', Error = []\<rparr>],
            mapping = ''{}''\<rparr>" "[]" "[del0]"
          "\<lparr>Failed = [\<lparr>Result = ''not_found'', Error = []\<rparr>]\<rparr>" "[add0]"]
    ExecuteBulks_not_found_tolerated
      [of "\<lparr>es_client = store_first_bulk_fails
             [\<lparr>Result = ''not_found'', Error = []\<rparr>, \<lparr>Result = ''conflict'', Error = []\<rparr>],
            mapping = ''{}''\<rparr>" "[]" "[del0]"
          "\<lparr>Failed = [\<lparr>Result = ''not_found'', Error = []\<rparr>,
                      \<lparr>Result = ''conflict'', Error = []\<rparr>]\<rparr>" "[add0]"]
  by (simp add: store_first_bulk_fails_def store_ok_def insert_phase_def and_then_def
      BulkService_Do_def FatalOnError_def ret_def NumberOfActions_def deref_def)

section \<open>The loops of the document builder\<close>

lemma add_docs_Nil: "add_docs lib ctx [] st = st"
  by (simp add: add_docs_def)

lemma add_docs_add_docs:
  "add_docs lib ctx kds2 (add_docs lib ctx kds1 st) = add_docs lib ctx (kds1 @ kds2) st"
  by (simp add: add_docs_def)

lemma add_item_add_docs: "add_item lib ctx st d ks = add_docs lib ctx [(ks, d)] st"
  by (simp add: add_item_def add_docs_def AddBulksItems_def Let_def)

lemma tags_loop_data:
  "snd (tags_loop outputs tg od) =
     (if out1 outputs
      then snd od @ map (\<lambda>nv. \<lparr>Name = fst nv, IValue = 0, SValue = snd nv\<rparr>) tg
      else snd od)"
  by (induction tg arbitrary: od) (auto split: prod.splits)

lemma tags_loop_other:
  "k \<notin> set (map (\<lambda>nv. ESEscapeFieldName (fst nv)) tg) \<Longrightarrow>
   fst (tags_loop outputs tg od) k = fst od k"
  by (induction tg arbitrary: od) (auto split: prod.splits)

lemma tags_loop_attr:
  "out0 outputs \<Longrightarrow> distinct (map (\<lambda>nv. ESEscapeFieldName (fst nv)) tg) \<Longrightarrow>
   (n, v) \<in> set tg \<Longrightarrow>
   fst (tags_loop outputs tg od) (ESEscapeFieldName n) = Some (GoString v)"
proof (induction tg arbitrary: od)
  case Nil
  then show ?case by simp
next
  case (Cons a tg)
  obtain n' v' where a: "a = (n', v')" by (cases a)
  show ?case
  proof (cases "(n, v) = a")
    case True
    with Cons.prems a have "ESEscapeFieldName n \<notin> set (map (\<lambda>nv. ESEscapeFieldName (fst nv)) tg)"
      by auto
    with True a Cons.prems(1) show ?thesis
      by (simp add: tags_loop_other)
  next
    case False
    with Cons.prems have "(n, v) \<in> set tg" by auto
    with Cons.IH Cons.prems a show ?thesis by simp
  qed
qed

lemma tags_flat_loop_docs:
  "\<exists>docs. tags_flat_loop lib ctx p tg st
        = add_docs lib ctx (map (\<lambda>d. ([''type'', ''tag_time'', ''name''], d)) docs) st
     \<and> length docs = length tg
     \<and> (\<forall>d\<in>set docs. d ''type'' = Some (GoString (''it'' @ pt_name p)))
     \<and> map (\<lambda>d. d ''name'') docs = map (\<lambda>nv. Some (GoString (fst nv))) tg
     \<and> map (\<lambda>d. d ''svalue'') docs = map (\<lambda>nv. Some (GoString (snd nv))) tg"
proof (induction tg arbitrary: st)
  case Nil
  show ?case by (rule exI [of _ "[]"]) (simp add: add_docs_Nil)
next
  case (Cons a tg)
  obtain n v where a: "a = (n, v)" by (cases a)
  define d where "d = [''type'' \<mapsto> GoString (''it'' @ pt_name p),
           ''time'' \<mapsto> GoString (ToESDate lib (pt_added p)),
           ''tag_time'' \<mapsto> GoString (ToESDate lib (pt_t p)),
           ''name'' \<mapsto> GoString n,
           ''svalue'' \<mapsto> GoString v]"
  define st1 where "st1 = add_docs lib ctx [([''type'', ''tag_time'', ''name''], d)] st"
  have step: "tags_flat_loop lib ctx p (a # tg) st = tags_flat_loop lib ctx p tg st1"
    by (simp add: a d_def st1_def add_item_add_docs)
  from Cons.IH [of st1]
  obtain docs where docs:
    "tags_flat_loop lib ctx p tg st1
       = add_docs lib ctx (map (\<lambda>d. ([''type'', ''tag_time'', ''name''], d)) docs) st1"
    "length docs = length tg"
    "\<forall>d\<in>set docs. d ''type'' = Some (GoString (''it'' @ pt_name p))"
    "map (\<lambda>d. d ''name'') docs = map (\<lambda>nv. Some (GoString (fst nv))) tg"
    "map (\<lambda>d. d ''svalue'') docs = map (\<lambda>nv. Some (GoString (snd nv))) tg"
    by blast
  have run: "tags_flat_loop lib ctx p (a # tg) st
      = add_docs lib ctx (map (\<lambda>d. ([''type'', ''tag_time'', ''name''], d)) (d # docs)) st"
    by (simp add: step docs(1)) (simp add: st1_def add_docs_add_docs)
  have hd: "d ''type'' = Some (GoString (''it'' @ pt_name p))"
    "d ''name'' = Some (GoString n)" "d ''svalue'' = Some (GoString v)"
    by (simp_all add: d_def)
  show ?case
  proof (rule exI [of _ "d # docs"], intro conjI)
    show "tags_flat_loop lib ctx p (a # tg) st
        = add_docs lib ctx (map (\<lambda>d. ([''type'', ''tag_time'', ''name''], d)) (d # docs)) st"
      by (rule run)
  qed (simp_all add: docs hd a)
qed

lemma flat_value_bad:
  "\<not> coercible lib v \<Longrightarrow>
   flat_value lib v obj = Inl (FatalMsg ''cannot convert %+v to a number'')"
  by (simp add: flat_value_def coercible_def split_beta)

lemma flat_value_ok:
  assumes "coercible lib v"
  shows "\<exists>obj'. flat_value lib v obj = Inr obj'
     \<and> (\<forall>k. k \<noteq> ''svalue'' \<and> k \<noteq> ''ivalue'' \<longrightarrow> obj' k = obj k)"
  using assms
  by (auto simp: flat_value_def coercible_def split_beta)

lemma fields_flat_loop_bad:
  "\<exists>nv\<in>set fs. \<not> coercible lib (snd nv) \<Longrightarrow>
   fields_flat_loop lib ctx p fs st = Inl (FatalMsg ''cannot convert %+v to a number'')"
proof (induction fs arbitrary: st)
  case Nil
  then show ?case by simp
next
  case (Cons a fs)
  obtain n v where a: "a = (n, v)" by (cases a)
  show ?case
  proof (cases "coercible lib v")
    case True
    with Cons.prems a have "\<exists>nv\<in>set fs. \<not> coercible lib (snd nv)" by auto
    then have IH: "\<And>st. fields_flat_loop lib ctx p fs st
        = Inl (FatalMsg ''cannot convert %+v to a number'')"
      by (rule Cons.IH)
    from flat_value_ok [OF True] obtain d where
      "flat_value lib v [''type'' \<mapsto> GoString (''is'' @ pt_name p),
              ''time'' \<mapsto> GoString (ToESDate lib (pt_t p)),
              ''period'' \<mapsto> GoString (pt_period p),
              ''time_added'' \<mapsto> GoString (ToESDate lib (pt_added p)),
              ''name'' \<mapsto> GoString n] = Inr d"
      by blast
    then show ?thesis
      by (simp add: a IH)
  next
    case False
    then show ?thesis by (simp add: a flat_value_bad)
  qed
qed

lemma fields_flat_loop_ok:
  "\<forall>nv\<in>set fs. coercible lib (snd nv) \<Longrightarrow>
   \<exists>docs. fields_flat_loop lib ctx p fs st
        = Inr (add_docs lib ctx (map (\<lambda>d. ([''type'', ''time'', ''period'', ''name''], d)) docs) st)
     \<and> length docs = length fs
     \<and> (\<forall>d\<in>set docs. d ''type'' = Some (GoString (''is'' @ pt_name p)) \<and> d ''series'' = None)
     \<and> map (\<lambda>d. d ''name'') docs = map (\<lambda>nv. Some (GoString (fst nv))) fs"
proof (induction fs arbitrary: st)
  case Nil
  show ?case by (rule exI [of _ "[]"]) (simp add: add_docs_Nil)
next
  case (Cons a fs)
  obtain n v where a: "a = (n, v)" by (cases a)
  from Cons.prems a have cv: "coercible lib v" and rest: "\<forall>nv\<in>set fs. coercible lib (snd nv)"
    by auto
  define obj where "obj = [''type'' \<mapsto> GoString (''is'' @ pt_name p),
              ''time'' \<mapsto> GoString (ToESDate lib (pt_t p)),
              ''period'' \<mapsto> GoString (pt_period p),
              ''time_added'' \<mapsto> GoString (ToESDate lib (pt_added p)),
              ''name'' \<mapsto> GoString n]"
  from flat_value_ok [OF cv, of obj] obtain d where d:
    "flat_value lib v obj = Inr d"
    "\<forall>k. k \<noteq> ''svalue'' \<and> k \<noteq> ''ivalue'' \<longrightarrow> d k = obj k"
    by blast
  define st1 where "st1 = add_docs lib ctx [([''type'', ''time'', ''period'', ''name''], d)] st"
  have step: "fields_flat_loop lib ctx p (a # fs) st = fields_flat_loop lib ctx p fs st1"
    using d(1) by (simp add: a obj_def st1_def add_item_add_docs)
  from Cons.IH [OF rest, of st1]
  obtain docs where docs:
    "fields_flat_loop lib ctx p fs st1
       = Inr (add_docs lib ctx (map (\<lambda>d. ([''type'', ''time'', ''period'', ''name''], d)) docs) st1)"
    "length docs = length fs"
    "\<forall>d\<in>set docs. d ''type'' = Some (GoString (''is'' @ pt_name p)) \<and> d ''series'' = None"
    "map (\<lambda>d. d ''name'') docs = map (\<lambda>nv. Some (GoString (fst nv))) fs"
    by blast
  have run: "fields_flat_loop lib ctx p (a # fs) st
      = Inr (add_docs lib ctx
               (map (\<lambda>d. ([''type'', ''time'', ''period'', ''name''], d)) (d # docs)) st)"
    by (simp add: step docs(1)) (simp add: st1_def add_docs_add_docs)
  have hd: "d ''type'' = Some (GoString (''is'' @ pt_name p))" "d ''series'' = None"
    "d ''name'' = Some (GoString n)"
    using d(2) by (simp_all add: obj_def)
  show ?case
  proof (rule exI [of _ "d # docs"], intro conjI)
    show "fields_flat_loop lib ctx p (a # fs) st
        = Inr (add_docs lib ctx
                 (map (\<lambda>d. ([''type'', ''time'', ''period'', ''name''], d)) (d # docs)) st)"
      by (rule run)
  qed (simp_all add: docs hd a)
qed

lemma merged_flat_loop_bad:
  "\<exists>nv\<in>set fs. \<not> coercible lib (snd nv) \<Longrightarrow>
   merged_flat_loop lib ctx mergeS p fs st = Inl (FatalMsg ''cannot convert %+v to a number'')"
proof (induction fs arbitrary: st)
  case Nil
  then show ?case by simp
next
  case (Cons a fs)
  obtain n v where a: "a = (n, v)" by (cases a)
  show ?case
  proof (cases "coercible lib v")
    case True
    with Cons.prems a have "\<exists>nv\<in>set fs. \<not> coercible lib (snd nv)" by auto
    then have IH: "\<And>st. merged_flat_loop lib ctx mergeS p fs st
        = Inl (FatalMsg ''cannot convert %+v to a number'')"
      by (rule Cons.IH)
    from flat_value_ok [OF True] obtain d where
      "flat_value lib v [''type'' \<mapsto> GoString (''i'' @ mergeS),
              ''time'' \<mapsto> GoString (ToESDate lib (pt_t p)),
              ''period'' \<mapsto> GoString (pt_period p),
              ''series'' \<mapsto> GoString (pt_name p),
              ''time_added'' \<mapsto> GoString (ToESDate lib (pt_added p)),
              ''name'' \<mapsto> GoString n] = Inr d"
      by blast
    then show ?thesis
      by (simp add: a IH)
  next
    case False
    then show ?thesis by (simp add: a flat_value_bad)
  qed
qed

lemma merged_flat_loop_ok:
  "\<forall>nv\<in>set fs. coercible lib (snd nv) \<Longrightarrow>
   \<exists>docs. merged_flat_loop lib ctx mergeS p fs st
        = Inr (add_docs lib ctx
                 (map (\<lambda>d. ([''type'', ''time'', ''period'', ''series'', ''name''], d)) docs) st)
     \<and> length docs = length fs
     \<and> (\<forall>d\<in>set docs. d ''type'' = Some (GoString (''i'' @ mergeS))
           \<and> d ''series'' = Some (GoString (pt_name p)))
     \<and> map (\<lambda>d. d ''name'') docs = map (\<lambda>nv. Some (GoString (fst nv))) fs"
proof (induction fs arbitrary: st)
  case Nil
  show ?case by (rule exI [of _ "[]"]) (simp add: add_docs_Nil)
next
  case (Cons a fs)
  obtain n v where a: "a = (n, v)" by (cases a)
  from Cons.prems a have cv: "coercible lib v" and rest: "\<forall>nv\<in>set fs. coercible lib (snd nv)"
    by auto
  define obj where "obj = [''type'' \<mapsto> GoString (''i'' @ mergeS),
              ''time'' \<mapsto> GoString (ToESDate lib (pt_t p)),
              ''period'' \<mapsto> GoString (pt_period p),
              ''series'' \<mapsto> GoString (pt_name p),
              ''time_added'' \<mapsto> GoString (ToESDate lib (pt_added p)),
              ''name'' \<mapsto> GoString n]"
  from flat_value_ok [OF cv, of obj] obtain d where d:
    "flat_value lib v obj = Inr d"
    "\<forall>k. k \<noteq> ''svalue'' \<and> k \<noteq> ''ivalue'' \<longrightarrow> d k = obj k"
    by blast
  define st1 where
    "st1 = add_docs lib ctx [([''type'', ''time'', ''period'', ''series'', ''name''], d)] st"
  have step: "merged_flat_loop lib ctx mergeS p (a # fs) st
      = merged_flat_loop lib ctx mergeS p fs st1"
    using d(1) by (simp add: a obj_def st1_def add_item_add_docs)
  from Cons.IH [OF rest, of st1]
  obtain docs where docs:
    "merged_flat_loop lib ctx mergeS p fs st1
       = Inr (add_docs lib ctx
                (map (\<lambda>d. ([''type'', ''time'', ''period'', ''series'', ''name''], d)) docs) st1)"
    "length docs = length fs"
    "\<forall>d\<in>set docs. d ''type'' = Some (GoString (''i'' @ mergeS))
        \<and> d ''series'' = Some (GoString (pt_name p))"
    "map (\<lambda>d. d ''name'') docs = map (\<lambda>nv. Some (GoString (fst nv))) fs"
    by blast
  have run: "merged_flat_loop lib ctx mergeS p (a # fs) st
      = Inr (add_docs lib ctx
               (map (\<lambda>d. ([''type'', ''time'', ''period'', ''series'', ''name''], d)) (d # docs))
               st)"
    by (simp add: step docs(1)) (simp add: st1_def add_docs_add_docs)
  have hd: "d ''type'' = Some (GoString (''i'' @ mergeS))"
    "d ''series'' = Some (GoString (pt_name p))"
    "d ''name'' = Some (GoString n)"
    using d(2) by (simp_all add: obj_def)
  show ?case
  proof (rule exI [of _ "d # docs"], intro conjI)
    show "merged_flat_loop lib ctx mergeS p (a # fs) st
        = Inr (add_docs lib ctx
                 (map (\<lambda>d. ([''type'', ''time'', ''period'', ''series'', ''name''], d)) (d # docs))
                 st)"
      by (rule run)
  qed (simp_all add: docs hd a)
qed

lemma fields_loop_bad:
  "out1 outputs \<Longrightarrow> \<exists>nv\<in>set fs. \<not> coercible lib (snd nv) \<Longrightarrow>
   fields_loop lib outputs fs od = Inl (FatalMsg ''cannot convert %+v to a number'')"
proof (induction fs arbitrary: od)
  case Nil
  then show ?case by simp
next
  case (Cons a fs)
  obtain n v where a: "a = (n, v)" by (cases a)
  show ?case
  proof (cases "coercible lib v")
    case True
    with Cons.prems a have "\<exists>nv\<in>set fs. \<not> coercible lib (snd nv)" by auto
    then have IH: "\<And>od. fields_loop lib outputs fs od
        = Inl (FatalMsg ''cannot convert %+v to a number'')"
      by (rule Cons.IH [OF Cons.prems(1)])
    show ?thesis
      by (simp add: a Cons.prems(1) Let_def split_beta IH)
  next
    case False
    then show ?thesis
      by (simp add: a Cons.prems(1) Let_def coercible_def split_beta)
  qed
qed

lemma fields_loop_ok:
  "out1 outputs \<longrightarrow> (\<forall>nv\<in>set fs. coercible lib (snd nv)) \<Longrightarrow>
   \<exists>obj data. fields_loop lib outputs fs od = Inr (obj, data)"
proof (induction fs arbitrary: od)
  case Nil
  then show ?case by simp
next
  case (Cons a fs)
  obtain n v where a: "a = (n, v)" by (cases a)
  from Cons.prems have rest: "out1 outputs \<longrightarrow> (\<forall>nv\<in>set fs. coercible lib (snd nv))"
    by simp
  from Cons.prems a have cv: "out1 outputs \<longrightarrow> coercible lib v" by simp
  from Cons.IH [OF rest]
  have IH: "\<And>od. \<exists>obj data. fields_loop lib outputs fs od = Inr (obj, data)" .
  show ?case
    using cv by (auto simp: a Let_def coercible_def split_beta IH)
qed

lemma fields_loop_other:
  "fields_loop lib outputs fs od = Inr od' \<Longrightarrow>
   \<not> out0 outputs \<or> k \<notin> set (map (\<lambda>nv. ESEscapeFieldName (fst nv)) fs) \<Longrightarrow>
   fst od' k = fst od k"
proof (induction fs arbitrary: od)
  case Nil
  then show ?case by simp
next
  case (Cons a fs)
  obtain n v where a: "a = (n, v)" by (cases a)
  from Cons.prems(2) a
  have rest: "\<not> out0 outputs \<or> k \<notin> set (map (\<lambda>nv. ESEscapeFieldName (fst nv)) fs)"
    and k: "\<not> out0 outputs \<or> k \<noteq> ESEscapeFieldName n"
    by auto
  from Cons.prems(1) obtain od1 where od1: "fields_loop lib outputs fs od1 = Inr od'"
    and fst1: "fst od1 = (if out0 outputs then (fst od)(ESEscapeFieldName n \<mapsto> v) else fst od)"
    by (simp add: a Let_def split_beta split: if_splits)
  from Cons.IH [OF od1 rest] fst1 k show ?case by auto
qed

lemma fields_loop_attr:
  "fields_loop lib outputs fs od = Inr od' \<Longrightarrow> out0 outputs \<Longrightarrow>
   distinct (map (\<lambda>nv. ESEscapeFieldName (fst nv)) fs) \<Longrightarrow> (n, v) \<in> set fs \<Longrightarrow>
   fst od' (ESEscapeFieldName n) = Some v"
proof (induction fs arbitrary: od)
  case Nil
  then show ?case by simp
next
  case (Cons a fs)
  obtain n' v' where a: "a = (n', v')" by (cases a)
  from Cons.prems(1) Cons.prems(2) obtain od1 where od1: "fields_loop lib outputs fs od1 = Inr od'"
    and fst1: "fst od1 = (fst od)(ESEscapeFieldName n' \<mapsto> v')"
    by (simp add: a Let_def split_beta split: if_splits)
  show ?case
  proof (cases "(n, v) = a")
    case True
    with Cons.prems(3) a
    have "ESEscapeFieldName n \<notin> set (map (\<lambda>nv. ESEscapeFieldName (fst nv)) fs)"
      by auto
    from fields_loop_other [OF od1, of "ESEscapeFieldName n"] this fst1 True a
    show ?thesis by simp
  next
    case False
    with Cons.prems have "(n, v) \<in> set fs" by auto
    with Cons.IH [OF od1] Cons.prems show ?thesis by simp
  qed
qed

lemma fields_loop_data:
  "fields_loop lib outputs fs od = Inr od' \<Longrightarrow>
   map Name (snd od') = map Name (snd od) @ (if out1 outputs then map fst fs else [])"
proof (induction fs arbitrary: od)
  case Nil
  then show ?case by simp
next
  case (Cons a fs)
  obtain n v where a: "a = (n, v)" by (cases a)
  from Cons.prems(1) obtain od1 where od1: "fields_loop lib outputs fs od1 = Inr od'"
    and snd1: "map Name (snd od1) = map Name (snd od) @ (if out1 outputs then [n] else [])"
    by (simp add: a Let_def split_beta split: if_splits)
  from Cons.IH [OF od1] snd1 a show ?case by simp
qed

section \<open>The branches of the loop body\<close>

lemma tags_branch_docs:
  "\<exists>wide flat. tags_branch lib ctx outputs p tg st
       = add_docs lib ctx (map (Pair [''type'', ''tag_time'']) wide
                            @ map (Pair [''type'', ''tag_time'', ''name'']) flat) st
     \<and> wide = (if out0 outputs \<or> out1 outputs
               then [let od = tags_loop outputs tg
                       ([''type'' \<mapsto> GoString (''t'' @ pt_name p),
                         ''time'' \<mapsto> GoString (ToESDate lib (pt_added p)),
                         ''tag_time'' \<mapsto> GoString (ToESDate lib (pt_t p))], [])
                     in if out1 outputs then (fst od)(''data'' \<mapsto> GoData (snd od)) else fst od]
               else [])
     \<and> length flat = (if out2 outputs then length tg else 0)
     \<and> (\<forall>d\<in>set flat. d ''type'' = Some (GoString (''it'' @ pt_name p)))
     \<and> map (\<lambda>d. d ''name'') flat
         = (if out2 outputs then map (\<lambda>nv. Some (GoString (fst nv))) tg else [])"
proof -
  define wide where "wide = (if out0 outputs \<or> out1 outputs
               then [let od = tags_loop outputs tg
                       ([''type'' \<mapsto> GoString (''t'' @ pt_name p),
                         ''time'' \<mapsto> GoString (ToESDate lib (pt_added p)),
                         ''tag_time'' \<mapsto> GoString (ToESDate lib (pt_t p))], [])
                     in if out1 outputs then (fst od)(''data'' \<mapsto> GoData (snd od)) else fst od]
               else [])"
  define st1 where "st1 = add_docs lib ctx (map (Pair [''type'', ''tag_time'']) wide) st"
  have run: "tags_branch lib ctx outputs p tg st
      = (if out2 outputs then tags_flat_loop lib ctx p tg st1 else st1)"
    by (simp add: tags_branch_def st1_def wide_def Let_def add_item_add_docs add_docs_Nil)
  show ?thesis
  proof (cases "out2 outputs")
    case True
    from tags_flat_loop_docs [of lib ctx p tg st1] obtain flat where flat:
      "tags_flat_loop lib ctx p tg st1
         = add_docs lib ctx (map (\<lambda>d. ([''type'', ''tag_time'', ''name''], d)) flat) st1"
      "length flat = length tg"
      "\<forall>d\<in>set flat. d ''type'' = Some (GoString (''it'' @ pt_name p))"
      "map (\<lambda>d. d ''name'') flat = map (\<lambda>nv. Some (GoString (fst nv))) tg"
      by blast
    have "tags_branch lib ctx outputs p tg st
        = add_docs lib ctx (map (Pair [''type'', ''tag_time'']) wide
                             @ map (Pair [''type'', ''tag_time'', ''name'']) flat) st"
      by (simp add: run True flat(1)) (simp add: st1_def add_docs_add_docs)
    with flat True show ?thesis
      unfolding wide_def [symmetric] by (intro exI [of _ wide] exI [of _ flat]) simp
  next
    case False
    have "tags_branch lib ctx outputs p tg st
        = add_docs lib ctx (map (Pair [''type'', ''tag_time'']) wide
                             @ map (Pair [''type'', ''tag_time'', ''name'']) []) st"
      by (simp add: run False st1_def)
    with False show ?thesis
      unfolding wide_def [symmetric] by (intro exI [of _ wide] exI [of _ "[]"]) simp
  qed
qed

lemma fields_doc_run:
  "fields_doc lib ctx outputs p fs st =
     (case fields_loop lib outputs fs
             ([''type'' \<mapsto> GoString (''s'' @ pt_name p),
               ''time'' \<mapsto> GoString (ToESDate lib (pt_t p)),
               ''period'' \<mapsto> GoString (pt_period p),
               ''time_added'' \<mapsto> GoString (ToESDate lib (pt_added p))], []) of
        Inl e \<Rightarrow> Inl e
      | Inr od \<Rightarrow>
          Inr (add_docs lib ctx
                 [([''type'', ''time'', ''period''],
                   if out1 outputs then (fst od)(''data'' \<mapsto> GoData (snd od)) else fst od)] st))"
  by (simp add: fields_doc_def Let_def add_item_add_docs split: sum.splits)

lemma merged_doc_run:
  "merged_doc lib ctx mergeS outputs p fs st =
     (case fields_loop lib outputs fs
             ([''type'' \<mapsto> GoString mergeS,
               ''time'' \<mapsto> GoString (ToESDate lib (pt_t p)),
               ''period'' \<mapsto> GoString (pt_period p),
               ''series'' \<mapsto> GoString (pt_name p),
               ''time_added'' \<mapsto> GoString (ToESDate lib (pt_added p))], []) of
        Inl e \<Rightarrow> Inl e
      | Inr od \<Rightarrow>
          Inr (add_docs lib ctx
                 [([''type'', ''time'', ''period'', ''series''],
                   if out1 outputs then (fst od)(''data'' \<mapsto> GoData (snd od)) else fst od)] st))"
  by (simp add: merged_doc_def Let_def add_item_add_docs split: sum.splits)

lemma fields_branch_bad:
  assumes "out1 outputs \<or> out2 outputs" and "\<exists>nv\<in>set fs. \<not> coercible lib (snd nv)"
  shows "fields_branch lib ctx outputs p fs st
      = Inl (FatalMsg ''cannot convert %+v to a number'')"
proof (cases "out1 outputs")
  case True
  with assms(2) show ?thesis
    by (simp add: fields_branch_def fields_doc_run fields_loop_bad)
next
  case False
  with assms(1) have o2: "out2 outputs" by simp
  show ?thesis
  proof (cases "out0 outputs")
    case True
    from fields_loop_ok [of outputs fs lib] False obtain obj data where
      "fields_loop lib outputs fs
             ([''type'' \<mapsto> GoString (''s'' @ pt_name p),
               ''time'' \<mapsto> GoString (ToESDate lib (pt_t p)),
               ''period'' \<mapsto> GoString (pt_period p),
               ''time_added'' \<mapsto> GoString (ToESDate lib (pt_added p))], []) = Inr (obj, data)"
      by blast
    with True o2 assms(2) show ?thesis
      by (simp add: fields_branch_def fields_doc_run fields_flat_loop_bad)
  next
    case no0: False
    with False o2 assms(2) show ?thesis
      by (simp add: fields_branch_def fields_flat_loop_bad)
  qed
qed

lemma merged_branch_bad:
  assumes "out1 outputs \<or> out2 outputs" and "\<exists>nv\<in>set fs. \<not> coercible lib (snd nv)"
  shows "merged_branch lib ctx mergeS outputs p fs st
      = Inl (FatalMsg ''cannot convert %+v to a number'')"
proof (cases "out1 outputs")
  case True
  with assms(2) show ?thesis
    by (simp add: merged_branch_def merged_doc_run fields_loop_bad)
next
  case False
  with assms(1) have o2: "out2 outputs" by simp
  show ?thesis
  proof (cases "out0 outputs")
    case True
    from fields_loop_ok [of outputs fs lib] False obtain obj data where
      "fields_loop lib outputs fs
             ([''type'' \<mapsto> GoString mergeS,
               ''time'' \<mapsto> GoString (ToESDate lib (pt_t p)),
               ''period'' \<mapsto> GoString (pt_period p),
               ''series'' \<mapsto> GoString (pt_name p),
               ''time_added'' \<mapsto> GoString (ToESDate lib (pt_added p))], []) = Inr (obj, data)"
      by blast
    with True o2 assms(2) show ?thesis
      by (simp add: merged_branch_def merged_doc_run merged_flat_loop_bad)
  next
    case no0: False
    with False o2 assms(2) show ?thesis
      by (simp add: merged_branch_def merged_flat_loop_bad)
  qed
qed

lemma fields_branch_ok:
  assumes "out1 outputs \<or> out2 outputs \<longrightarrow> (\<forall>nv\<in>set fs. coercible lib (snd nv))"
  shows "\<exists>wide flat. fields_branch lib ctx outputs p fs st
       = Inr (add_docs lib ctx (map (Pair [''type'', ''time'', ''period'']) wide
                                 @ map (Pair [''type'', ''time'', ''period'', ''name'']) flat) st)
     \<and> length wide = (if out0 outputs \<or> out1 outputs then 1 else 0)
     \<and> (\<forall>d\<in>set wide. \<exists>od. fields_loop lib outputs fs
             ([''type'' \<mapsto> GoString (''s'' @ pt_name p),
               ''time'' \<mapsto> GoString (ToESDate lib (pt_t p)),
               ''period'' \<mapsto> GoString (pt_period p),
               ''time_added'' \<mapsto> GoString (ToESDate lib (pt_added p))], []) = Inr od
           \<and> d = (if out1 outputs then (fst od)(''data'' \<mapsto> GoData (snd od)) else fst od))
     \<and> length flat = (if out2 outputs then length fs else 0)
     \<and> (\<forall>d\<in>set flat. d ''type'' = Some (GoString (''is'' @ pt_name p)) \<and> d ''series'' = None)
     \<and> map (\<lambda>d. d ''name'') flat
         = (if out2 outputs then map (\<lambda>nv. Some (GoString (fst nv))) fs else [])"
proof -
  define hdr where "hdr = [''type'' \<mapsto> GoString (''s'' @ pt_name p),
               ''time'' \<mapsto> GoString (ToESDate lib (pt_t p)),
               ''period'' \<mapsto> GoString (pt_period p),
               ''time_added'' \<mapsto> GoString (ToESDate lib (pt_added p))]"
  from assms have "out1 outputs \<longrightarrow> (\<forall>nv\<in>set fs. coercible lib (snd nv))" by simp
  from fields_loop_ok [OF this, of "(hdr, [])"] obtain od where
    od: "fields_loop lib outputs fs (hdr, []) = Inr od" by blast
  define wide where "wide = (if out0 outputs \<or> out1 outputs
      then [if out1 outputs then (fst od)(''data'' \<mapsto> GoData (snd od)) else fst od] else [])"
  define st1 where "st1 = add_docs lib ctx (map (Pair [''type'', ''time'', ''period'']) wide) st"
  have first: "(if out0 outputs \<or> out1 outputs then fields_doc lib ctx outputs p fs st
            else Inr st) = Inr st1"
    using od by (simp add: fields_doc_run hdr_def st1_def wide_def add_docs_Nil)
  have run: "fields_branch lib ctx outputs p fs st
      = (if out2 outputs then fields_flat_loop lib ctx p fs st1 else Inr st1)"
    unfolding fields_branch_def first by simp
  have wide_props: "length wide = (if out0 outputs \<or> out1 outputs then 1 else 0)"
    "\<forall>d\<in>set wide. \<exists>od. fields_loop lib outputs fs (hdr, []) = Inr od
        \<and> d = (if out1 outputs then (fst od)(''data'' \<mapsto> GoData (snd od)) else fst od)"
    using od by (auto simp: wide_def)
  show ?thesis
  proof (cases "out2 outputs")
    case True
    with assms have "\<forall>nv\<in>set fs. coercible lib (snd nv)" by simp
    from fields_flat_loop_ok [OF this, of ctx p st1] obtain flat where flat:
      "fields_flat_loop lib ctx p fs st1
        = Inr (add_docs lib ctx (map (\<lambda>d. ([''type'', ''time'', ''period'', ''name''], d)) flat) st1)"
      "length flat = length fs"
      "\<forall>d\<in>set flat. d ''type'' = Some (GoString (''is'' @ pt_name p)) \<and> d ''series'' = None"
      "map (\<lambda>d. d ''name'') flat = map (\<lambda>nv. Some (GoString (fst nv))) fs"
      by blast
    have "fields_branch lib ctx outputs p fs st
       = Inr (add_docs lib ctx (map (Pair [''type'', ''time'', ''period'']) wide
                                 @ map (Pair [''type'', ''time'', ''period'', ''name'']) flat) st)"
      by (simp add: run True flat(1)) (simp add: st1_def add_docs_add_docs)
    with flat True wide_props show ?thesis
      unfolding hdr_def [symmetric] by (intro exI [of _ wide] exI [of _ flat]) simp
  next
    case False
    have "fields_branch lib ctx outputs p fs st
       = Inr (add_docs lib ctx (map (Pair [''type'', ''time'', ''period'']) wide
                                 @ map (Pair [''type'', ''time'', ''period'', ''name'']) []) st)"
      by (simp add: run False st1_def)
    with False wide_props show ?thesis
      unfolding hdr_def [symmetric] by (intro exI [of _ wide] exI [of _ "[]"]) simp
  qed
qed

lemma merged_branch_ok:
  assumes "out1 outputs \<or> out2 outputs \<longrightarrow> (\<forall>nv\<in>set fs. coercible lib (snd nv))"
  shows "\<exists>wide flat. merged_branch lib ctx mergeS outputs p fs st
       = Inr (add_docs lib ctx
                (map (Pair [''type'', ''time'', ''period'', ''series'']) wide
                 @ map (Pair [''type'', ''time'', ''period'', ''series'', ''name'']) flat) st)
     \<and> length wide = (if out0 outputs \<or> out1 outputs then 1 else 0)
     \<and> (\<forall>d\<in>set wide. \<exists>od. fields_loop lib outputs fs
             ([''type'' \<mapsto> GoString mergeS,
               ''time'' \<mapsto> GoString (ToESDate lib (pt_t p)),
               ''period'' \<mapsto> GoString (pt_period p),
               ''series'' \<mapsto> GoString (pt_name p),
               ''time_added'' \<mapsto> GoString (ToESDate lib (pt_added p))], []) = Inr od
           \<and> d = (if out1 outputs then (fst od)(''data'' \<mapsto> GoData (snd od)) else fst od))
     \<and> length flat = (if out2 outputs then length fs else 0)
     \<and> (\<forall>d\<in>set flat. d ''type'' = Some (GoString (''i'' @ mergeS))
           \<and> d ''series'' = Some (GoString (pt_name p)))
     \<and> map (\<lambda>d. d ''name'') flat
         = (if out2 outputs then map (\<lambda>nv. Some (GoString (fst nv))) fs else [])"
proof -
  define hdr where "hdr = [''type'' \<mapsto> GoString mergeS,
               ''time'' \<mapsto> GoString (ToESDate lib (pt_t p)),
               ''period'' \<mapsto> GoString (pt_period p),
               ''series'' \<mapsto> GoString (pt_name p),
               ''time_added'' \<mapsto> GoString (ToESDate lib (pt_added p))]"
  from assms have "out1 outputs \<longrightarrow> (\<forall>nv\<in>set fs. coercible lib (snd nv))" by simp
  from fields_loop_ok [OF this, of "(hdr, [])"] obtain od where
    od: "fields_loop lib outputs fs (hdr, []) = Inr od" by blast
  define wide where "wide = (if out0 outputs \<or> out1 outputs
      then [if out1 outputs then (fst od)(''data'' \<mapsto> GoData (snd od)) else fst od] else [])"
  define st1 where
    "st1 = add_docs lib ctx (map (Pair [''type'', ''time'', ''period'', ''series'']) wide) st"
  have first: "(if out0 outputs \<or> out1 outputs then merged_doc lib ctx mergeS outputs p fs st
            else Inr st) = Inr st1"
    using od by (simp add: merged_doc_run hdr_def st1_def wide_def add_docs_Nil)
  have run: "merged_branch lib ctx mergeS outputs p fs st
      = (if out2 outputs then merged_flat_loop lib ctx mergeS p fs st1 else Inr st1)"
    unfolding merged_branch_def first by simp
  have wide_props: "length wide = (if out0 outputs \<or> out1 outputs then 1 else 0)"
    "\<forall>d\<in>set wide. \<exists>od. fields_loop lib outputs fs (hdr, []) = Inr od
        \<and> d = (if out1 outputs then (fst od)(''data'' \<mapsto> GoData (snd od)) else fst od)"
    using od by (auto simp: wide_def)
  show ?thesis
  proof (cases "out2 outputs")
    case True
    with assms have "\<forall>nv\<in>set fs. coercible lib (snd nv)" by simp
    from merged_flat_loop_ok [OF this, of ctx mergeS p st1] obtain flat where flat:
      "merged_flat_loop lib ctx mergeS p fs st1
        = Inr (add_docs lib ctx
                 (map (\<lambda>d. ([''type'', ''time'', ''period'', ''series'', ''name''], d)) flat) st1)"
      "length flat = length fs"
      "\<forall>d\<in>set flat. d ''type'' = Some (GoString (''i'' @ mergeS))
          \<and> d ''series'' = Some (GoString (pt_name p))"
      "map (\<lambda>d. d ''name'') flat = map (\<lambda>nv. Some (GoString (fst nv))) fs"
      by blast
    have "merged_branch lib ctx mergeS outputs p fs st
       = Inr (add_docs lib ctx
                (map (Pair [''type'', ''time'', ''period'', ''series'']) wide
                 @ map (Pair [''type'', ''time'', ''period'', ''series'', ''name'']) flat) st)"
      by (simp add: run True flat(1)) (simp add: st1_def add_docs_add_docs)
    with flat True wide_props show ?thesis
      unfolding hdr_def [symmetric] by (intro exI [of _ wide] exI [of _ flat]) simp
  next
    case False
    have "merged_branch lib ctx mergeS outputs p fs st
       = Inr (add_docs lib ctx
                (map (Pair [''type'', ''time'', ''period'', ''series'']) wide
                 @ map (Pair [''type'', ''time'', ''period'', ''series'', ''name'']) []) st)"
      by (simp add: run False st1_def)
    with False wide_props show ?thesis
      unfolding hdr_def [symmetric] by (intro exI [of _ wide] exI [of _ "[]"]) simp
  qed
qed

section \<open>The loop over the points\<close>

lemma point_body_eq:
  "point_body lib ctx mergeS merge outputs p st =
     (case pt_fields p of
        None \<Rightarrow> Inr (case pt_tags p of None \<Rightarrow> st
                      | Some tg \<Rightarrow> tags_branch lib ctx outputs p tg st)
      | Some fs \<Rightarrow>
          if merge
          then merged_branch lib ctx mergeS outputs p fs
                 (case pt_tags p of None \<Rightarrow> st | Some tg \<Rightarrow> tags_branch lib ctx outputs p tg st)
          else fields_branch lib ctx outputs p fs
                 (case pt_tags p of None \<Rightarrow> st | Some tg \<Rightarrow> tags_branch lib ctx outputs p tg st))"
proof (cases "pt_fields p")
  case None
  then show ?thesis by (simp add: point_body_def Let_def)
next
  case (Some fs)
  show ?thesis
  proof (cases merge)
    case True
    with Some show ?thesis by (simp add: point_body_def Let_def)
  next
    case False
    with Some show ?thesis
      by (cases "fields_branch lib ctx outputs p fs
            (case pt_tags p of None \<Rightarrow> st | Some tg \<Rightarrow> tags_branch lib ctx outputs p tg st)")
         (simp_all add: point_body_def Let_def)
  qed
qed

lemma tags_part_docs:
  "\<exists>kds. (case pt_tags p of None \<Rightarrow> st | Some tg \<Rightarrow> tags_branch lib ctx outputs p tg st)
       = add_docs lib ctx kds st
     \<and> (\<forall>kd\<in>set kds. fst kd = [''type'', ''tag_time'']
            \<or> fst kd = [''type'', ''tag_time'', ''name''])
     \<and> (pt_tags p = None \<longrightarrow> kds = [])"
proof (cases "pt_tags p")
  case None
  then show ?thesis by (intro exI [of _ "[]"]) (simp add: add_docs_Nil)
next
  case (Some tg)
  from tags_branch_docs [of lib ctx outputs p tg st] obtain wide flat where
    "tags_branch lib ctx outputs p tg st
       = add_docs lib ctx (map (Pair [''type'', ''tag_time'']) wide
                            @ map (Pair [''type'', ''tag_time'', ''name'']) flat) st"
    by blast
  with Some show ?thesis
    by (intro exI [of _ "map (Pair [''type'', ''tag_time'']) wide
                            @ map (Pair [''type'', ''tag_time'', ''name'']) flat"]) auto
qed

lemma fields_branch_cases:
  "(\<exists>kds. fields_branch lib ctx outputs p fs st = Inr (add_docs lib ctx kds st))
   \<or> fields_branch lib ctx outputs p fs st = Inl (FatalMsg ''cannot convert %+v to a number'')"
proof (cases "out1 outputs \<or> out2 outputs \<longrightarrow> (\<forall>nv\<in>set fs. coercible lib (snd nv))")
  case True
  from fields_branch_ok [OF True, of ctx p st] show ?thesis by blast
next
  case False
  then have a: "out1 outputs \<or> out2 outputs"
    and b: "\<exists>nv\<in>set fs. \<not> coercible lib (snd nv)"
    by auto
  from fields_branch_bad [OF a b] show ?thesis by simp
qed

lemma merged_branch_cases:
  "(\<exists>kds. merged_branch lib ctx mergeS outputs p fs st = Inr (add_docs lib ctx kds st))
   \<or> merged_branch lib ctx mergeS outputs p fs st
       = Inl (FatalMsg ''cannot convert %+v to a number'')"
proof (cases "out1 outputs \<or> out2 outputs \<longrightarrow> (\<forall>nv\<in>set fs. coercible lib (snd nv))")
  case True
  from merged_branch_ok [OF True, of ctx mergeS p st] show ?thesis by blast
next
  case False
  then have a: "out1 outputs \<or> out2 outputs"
    and b: "\<exists>nv\<in>set fs. \<not> coercible lib (snd nv)"
    by auto
  from merged_branch_bad [OF a b] show ?thesis by simp
qed

lemma point_body_cases:
  "(\<exists>kds. point_body lib ctx mergeS merge outputs p st = Inr (add_docs lib ctx kds st))
   \<or> point_body lib ctx mergeS merge outputs p st
       = Inl (FatalMsg ''cannot convert %+v to a number'')"
proof -
  from tags_part_docs [where p = p and st = st and lib = lib and ctx = ctx and outputs = outputs]
  obtain kds where kds:
    "(case pt_tags p of None \<Rightarrow> st | Some tg \<Rightarrow> tags_branch lib ctx outputs p tg st)
       = add_docs lib ctx kds st"
    by blast
  show ?thesis
  proof (cases "pt_fields p")
    case None
    then show ?thesis by (simp add: point_body_eq kds) blast
  next
    case (Some fs)
    show ?thesis
    proof (cases merge)
      case True
      from merged_branch_cases [of lib ctx mergeS outputs p fs "add_docs lib ctx kds st"]
      show ?thesis
        by (simp add: point_body_eq kds Some True add_docs_add_docs) blast
    next
      case False
      from fields_branch_cases [of lib ctx outputs p fs "add_docs lib ctx kds st"]
      show ?thesis
        by (simp add: point_body_eq kds Some False add_docs_add_docs) blast
    qed
  qed
qed

lemma points_loop_cases:
  "(\<exists>kds. points_loop lib ctx mergeS merge outputs pts st = Inr (add_docs lib ctx kds st))
   \<or> points_loop lib ctx mergeS merge outputs pts st
       = Inl (FatalMsg ''cannot convert %+v to a number'')"
proof (induction pts arbitrary: st)
  case Nil
  show ?case by (intro disjI1 exI [of _ "[]"]) (simp add: add_docs_Nil)
next
  case (Cons p pts)
  from point_body_cases [of lib ctx mergeS merge outputs p st] show ?case
  proof
    assume "\<exists>kds. point_body lib ctx mergeS merge outputs p st = Inr (add_docs lib ctx kds st)"
    then obtain kds where kds:
      "point_body lib ctx mergeS merge outputs p st = Inr (add_docs lib ctx kds st)" by blast
    from Cons.IH [of "add_docs lib ctx kds st"] show ?thesis
      by (simp add: kds add_docs_add_docs) blast
  next
    assume "point_body lib ctx mergeS merge outputs p st
       = Inl (FatalMsg ''cannot convert %+v to a number'')"
    then show ?thesis by simp
  qed
qed




section \<open>The whole of \<open>WriteESPoints\<close>\<close>

lemma and_then_Inr: "m tr = (Inr x, tr') \<Longrightarrow> and_then m f tr = f x tr'"
  by (simp add: and_then_def)

lemma and_then_Inl: "m tr = (Inl e, tr') \<Longrightarrow> and_then m f tr = (Inl e, tr')"
  by (simp add: and_then_def)

lemma IndexExists_run:
  "IndexExists es ctx tr =
     (case snd (IndexExists_Do (es_client es) tr (ESIndexName ctx)) of
        None \<Rightarrow> Inr (fst (IndexExists_Do (es_client es) tr (ESIndexName ctx)))
      | Some e \<Rightarrow> Inl (FatalError e),
      tr @ [IndexExists_ev (ESIndexName ctx)])"
  by (simp add: IndexExists_def and_then_def emit_def FatalOnError_def ret_def abort_def
      split_beta split: option.splits)

lemma CreateIndex_trace:
  "\<exists>diag. snd (CreateIndex es ctx tr)
      = tr @ CreateIndex_ev (ESIndexName ctx) (mapping es) # map Printf_ev diag"
proof -
  have "snd (CreateIndex es ctx tr) = tr @ [CreateIndex_ev (ESIndexName ctx) (mapping es)]
      \<or> snd (CreateIndex es ctx tr) = tr @ [CreateIndex_ev (ESIndexName ctx) (mapping es),
            Printf_ev ''CreateIndex: %s index already exists: %+v\<newline>'']"
    by (auto simp: CreateIndex_def and_then_def emit_def FatalOnError_def ret_def abort_def
        when_debug_def Printf_def deref_def Fatalf_def split_beta split: option.splits)
  then show ?thesis
  proof
    assume "snd (CreateIndex es ctx tr) = tr @ [CreateIndex_ev (ESIndexName ctx) (mapping es)]"
    then show ?thesis by (intro exI [of _ "[]"]) simp
  next
    assume "snd (CreateIndex es ctx tr) = tr @ [CreateIndex_ev (ESIndexName ctx) (mapping es),
            Printf_ev ''CreateIndex: %s index already exists: %+v\<newline>'']"
    then show ?thesis
      by (intro exI [of _ "[''CreateIndex: %s index already exists: %+v\<newline>'']"]) simp
  qed
qed

text \<open>
  What \<open>WriteESPoints\<close> does before the loop over the points: the diagnostics, the
  existence check and, when the index is missing, its creation.
\<close>

lemma WriteESPoints_prelude:
  assumes "pts \<noteq> []"
  shows "\<exists>(r :: fatal + unit) evs. (\<forall>e\<in>set evs. \<forall>rs. e \<noteq> Bulk_ev rs)
     \<and> store_calls evs \<noteq> [] \<and> hd (store_calls evs) = IndexExists_ev (ESIndexName ctx)
     \<and> WriteESPoints es lib ctx pts mergeS outputs tr =
        (case r of
           Inl e \<Rightarrow> (Inl e, tr @ evs)
         | Inr u \<Rightarrow>
             and_then (lift (points_loop lib ctx (fst (merge_mode mergeS))
                               (snd (merge_mode mergeS)) outputs pts (Bulks es, 0)))
               (\<lambda>st. and_then (ExecuteBulks es (fst (fst st)) (snd (fst st)))
                        (\<lambda>_. when_debug ctx (Printf ''Items: %d\<newline>''))) (tr @ evs))"
proof -
  define diag where "diag = (if Debug ctx > 0
      then [Printf_ev ''WriteESPoints: writing %d points\<newline>'', Printf_ev ''Points:\<newline>%+v\<newline>'']
      else [])"
  define tr1 where "tr1 = tr @ diag"
  define tr2 where "tr2 = tr1 @ [IndexExists_ev (ESIndexName ctx)]"
  define rest where "rest = (\<lambda>u::unit.
      and_then (lift (points_loop lib ctx (fst (merge_mode mergeS))
                               (snd (merge_mode mergeS)) outputs pts (Bulks es, 0)))
               (\<lambda>st. and_then (ExecuteBulks es (fst (fst st)) (snd (fst st)))
                        (\<lambda>_. when_debug ctx (Printf ''Items: %d\<newline>''))))"
  have d: "when_debug ctx
      (and_then (Printf ''WriteESPoints: writing %d points\<newline>'')
         (\<lambda>_. Printf ''Points:\<newline>%+v\<newline>'')) tr = (Inr (), tr1)"
    by (simp add: when_debug_def and_then_def Printf_def emit_def ret_def tr1_def diag_def)
  have start: "WriteESPoints es lib ctx pts mergeS outputs tr =
      and_then (IndexExists es ctx) (\<lambda>exists.
        and_then (if \<not> exists then CreateIndex es ctx else ret ()) rest) tr1"
    using assms
    by (simp add: WriteESPoints_def Let_def and_then_Inr [where m = "when_debug ctx
          (and_then (Printf ''WriteESPoints: writing %d points\<newline>'')
             (\<lambda>_. Printf ''Points:\<newline>%+v\<newline>''))" and tr = tr, OF d] rest_def split_beta)
  have diag_ok: "\<forall>e\<in>set diag. \<forall>rs. e \<noteq> Bulk_ev rs" "store_calls diag = []"
    by (auto simp: diag_def)
  show ?thesis
  proof (cases "snd (IndexExists_Do (es_client es) tr1 (ESIndexName ctx))")
    case (Some e)
    have "WriteESPoints es lib ctx pts mergeS outputs tr
        = (Inl (FatalError e), tr @ (diag @ [IndexExists_ev (ESIndexName ctx)]))"
    proof -
      have "IndexExists es ctx tr1
          = (Inl (FatalError e), tr1 @ [IndexExists_ev (ESIndexName ctx)])"
        by (simp add: IndexExists_run Some)
      note ie = and_then_Inl [where m = "IndexExists es ctx" and tr = tr1, OF this]
      have "WriteESPoints es lib ctx pts mergeS outputs tr
          = (Inl (FatalError e), tr1 @ [IndexExists_ev (ESIndexName ctx)])"
        by (simp add: start ie)
      then show ?thesis by (simp add: tr1_def)
    qed
    with diag_ok show ?thesis
      by (intro exI [of _ "Inl (FatalError e)"]
            exI [of _ "diag @ [IndexExists_ev (ESIndexName ctx)]"])
         (auto simp: store_calls_append)
  next
    case None
    show ?thesis
    proof (cases "fst (IndexExists_Do (es_client es) tr1 (ESIndexName ctx))")
      case True
      have "WriteESPoints es lib ctx pts mergeS outputs tr
          = rest () (tr @ (diag @ [IndexExists_ev (ESIndexName ctx)]))"
      proof -
        have "IndexExists es ctx tr1 = (Inr True, tr1 @ [IndexExists_ev (ESIndexName ctx)])"
          by (simp add: IndexExists_run None True)
        note ie = and_then_Inr [where m = "IndexExists es ctx" and tr = tr1, OF this]
        have "WriteESPoints es lib ctx pts mergeS outputs tr
            = and_then (ret ()) rest (tr1 @ [IndexExists_ev (ESIndexName ctx)])"
          by (simp add: start ie)
        then show ?thesis
          by (simp add: and_then_Inr [where x = "()"] ret_def tr1_def)
      qed
      with diag_ok show ?thesis
        unfolding rest_def
        by (intro exI [of _ "Inr ()"] exI [of _ "diag @ [IndexExists_ev (ESIndexName ctx)]"])
           (auto simp: store_calls_append)
    next
      case False
      from CreateIndex_trace [of es ctx tr2] obtain cd where cd:
        "snd (CreateIndex es ctx tr2)
           = tr2 @ CreateIndex_ev (ESIndexName ctx) (mapping es) # map Printf_ev cd"
        by blast
      define evs where "evs = diag @ IndexExists_ev (ESIndexName ctx)
          # CreateIndex_ev (ESIndexName ctx) (mapping es) # map Printf_ev cd"
      have tr': "snd (CreateIndex es ctx tr2) = tr @ evs"
        unfolding cd by (simp add: tr2_def tr1_def evs_def)
      have evs_ok: "\<forall>e\<in>set evs. \<forall>rs. e \<noteq> Bulk_ev rs" "store_calls evs \<noteq> []"
        "hd (store_calls evs) = IndexExists_ev (ESIndexName ctx)"
        using diag_ok by (auto simp: evs_def store_calls_append)
      have run: "WriteESPoints es lib ctx pts mergeS outputs tr
          = and_then (CreateIndex es ctx) rest tr2"
      proof -
        have "IndexExists es ctx tr1 = (Inr False, tr2)"
          by (simp add: IndexExists_run None False tr2_def)
        note ie = and_then_Inr [where m = "IndexExists es ctx" and tr = tr1, OF this]
        show ?thesis
          by (simp add: start ie)
      qed
      show ?thesis
      proof (cases "fst (CreateIndex es ctx tr2)")
        case (Inl e)
        with tr' have "CreateIndex es ctx tr2 = (Inl e, tr @ evs)"
          by (simp add: prod_eq_iff)
        then have "WriteESPoints es lib ctx pts mergeS outputs tr = (Inl e, tr @ evs)"
          by (simp add: run and_then_Inl)
        with evs_ok show ?thesis
          by (intro exI [of _ "Inl e"] exI [of _ evs]) simp
      next
        case (Inr u)
        with tr' have "CreateIndex es ctx tr2 = (Inr u, tr @ evs)"
          by (simp add: prod_eq_iff)
        then have "WriteESPoints es lib ctx pts mergeS outputs tr = rest () (tr @ evs)"
          by (simp add: run and_then_Inr)
        with evs_ok show ?thesis
          unfolding rest_def by (intro exI [of _ "Inr ()"] exI [of _ evs]) simp
      qed
    qed
  qed
qed

section \<open>The claims about \<open>WriteESPoints\<close>\<close>


lemma delete_phase_extends: "\<exists>more. snd (delete_phase es b tr) = tr @ more"
  by (cases "Bulk_Do (es_client es) tr b")
     (auto simp: delete_phase_def and_then_def BulkService_Do_def FatalOnError_def ret_def
        NumberOfActions_def deref_def Let_def failed_deletes_run Fatalf_def abort_def
        split: option.splits)

lemma insert_phase_extends: "\<exists>more. snd (insert_phase es b tr) = tr @ more"
  by (cases "Bulk_Do (es_client es) tr b")
     (auto simp: insert_phase_def and_then_def BulkService_Do_def FatalOnError_def ret_def
        NumberOfActions_def deref_def Let_def failed_adds_run Fatalf_def abort_def
        split: option.splits)

lemma ExecuteBulks_extends: "\<exists>more. snd (ExecuteBulks es d a tr) = tr @ more"
proof -
  obtain r tr1 where d: "delete_phase es d tr = (r, tr1)" by (cases "delete_phase es d tr")
  from delete_phase_extends [of es d tr] d obtain m1 where m1: "tr1 = tr @ m1" by auto
  show ?thesis
  proof (cases r)
    case (Inl e)
    with d m1 show ?thesis by (simp add: ExecuteBulks_def and_then_def)
  next
    case (Inr u)
    from insert_phase_extends [of es a tr1] obtain m2 where
      "snd (insert_phase es a tr1) = tr1 @ m2" by blast
    with Inr d m1 show ?thesis by (simp add: ExecuteBulks_def and_then_def)
  qed
qed

lemma after_loop_extends:
  "\<exists>more. snd (and_then (lift r)
      (\<lambda>st. and_then (ExecuteBulks es (fst (fst st)) (snd (fst st)))
               (\<lambda>_. when_debug ctx (Printf fmt))) tr) = tr @ more"
proof (cases r)
  case (Inl e)
  then show ?thesis by (simp add: and_then_def lift_def)
next
  case (Inr st)
  obtain x tr1 where e: "ExecuteBulks es (fst (fst st)) (snd (fst st)) tr = (x, tr1)"
    by (cases "ExecuteBulks es (fst (fst st)) (snd (fst st)) tr")
  from ExecuteBulks_extends [of es "fst (fst st)" "snd (fst st)" tr] e
  obtain m where "tr1 = tr @ m" by auto
  with Inr e show ?thesis
    by (cases x) (simp_all add: and_then_def lift_def when_debug_def Printf_def emit_def ret_def)
qed

text \<open>
  C10. For an empty collection of points \<open>WriteESPoints\<close> returns at once: it prints its
  two diagnostics when debugging is on and sends nothing to the store, neither an
  existence check nor a creation nor a batch. With at least one point, the first request
  it sends to the store is the existence check of the index.
\<close>

theorem WriteESPoints_empty:
  "WriteESPoints es lib ctx [] mergeS outputs tr =
     (Inr (), tr @ (if Debug ctx > 0
                    then [Printf_ev ''WriteESPoints: writing %d points\<newline>'',
                          Printf_ev ''Points:\<newline>%+v\<newline>'']
                    else []))
   \<and> store_calls (snd (WriteESPoints es lib ctx [] mergeS outputs tr)) = store_calls tr
   \<and> (\<exists>evs. store_calls (snd (WriteESPoints es lib ctx (p # pts) mergeS outputs tr))
          = store_calls tr @ IndexExists_ev (ESIndexName ctx) # evs)"
proof (intro conjI)
  show run: "WriteESPoints es lib ctx [] mergeS outputs tr =
     (Inr (), tr @ (if Debug ctx > 0
                    then [Printf_ev ''WriteESPoints: writing %d points\<newline>'',
                          Printf_ev ''Points:\<newline>%+v\<newline>'']
                    else []))"
    by (simp add: WriteESPoints_def and_then_def when_debug_def Printf_def emit_def ret_def)
  show "store_calls (snd (WriteESPoints es lib ctx [] mergeS outputs tr)) = store_calls tr"
    by (simp add: run store_calls_append)
  from WriteESPoints_prelude [of "p # pts" ctx es lib mergeS outputs tr]
  obtain r :: "fatal + unit" and evs where evs: "store_calls evs \<noteq> []"
      "hd (store_calls evs) = IndexExists_ev (ESIndexName ctx)"
    and run: "WriteESPoints es lib ctx (p # pts) mergeS outputs tr =
        (case r of
           Inl e \<Rightarrow> (Inl e, tr @ evs)
         | Inr u \<Rightarrow>
             and_then (lift (points_loop lib ctx (fst (merge_mode mergeS))
                               (snd (merge_mode mergeS)) outputs (p # pts) (Bulks es, 0)))
               (\<lambda>st. and_then (ExecuteBulks es (fst (fst st)) (snd (fst st)))
                        (\<lambda>_. when_debug ctx (Printf ''Items: %d\<newline>''))) (tr @ evs))"
    by auto
  from evs obtain evs' where sc: "store_calls evs = IndexExists_ev (ESIndexName ctx) # evs'"
    by (cases "store_calls evs") auto
  from after_loop_extends obtain more where more:
    "snd (and_then (lift (points_loop lib ctx (fst (merge_mode mergeS))
                               (snd (merge_mode mergeS)) outputs (p # pts) (Bulks es, 0)))
               (\<lambda>st. and_then (ExecuteBulks es (fst (fst st)) (snd (fst st)))
                        (\<lambda>_. when_debug ctx (Printf ''Items: %d\<newline>''))) (tr @ evs))
      = (tr @ evs) @ more"
    by blast
  show "\<exists>evs. store_calls (snd (WriteESPoints es lib ctx (p # pts) mergeS outputs tr))
          = store_calls tr @ IndexExists_ev (ESIndexName ctx) # evs"
  proof (cases r)
    case (Inl e)
    then show ?thesis by (simp add: run store_calls_append sc)
  next
    case (Inr u)
    have "snd (WriteESPoints es lib ctx (p # pts) mergeS outputs tr) = (tr @ evs) @ more"
      unfolding run Inr by (simp only: sum.case more)
    then show ?thesis by (simp add: store_calls_append sc)
  qed
qed

text \<open>
  C8. One call of \<open>AddBulksItems\<close> appends exactly one delete request to the delete
  batch and exactly one insert request, carrying the document, to the insert batch; both
  have the identity \<open>HashObject doc keys\<close> and the index \<open>ESIndexName ctx\<close>. Hence the
  batches that the loop of \<open>WriteESPoints\<close> builds from the empty batches have the same
  length, which is the value of \<open>items\<close>, the same identities position by position, and
  only requests for the destination index.
\<close>

theorem AddBulksItems_paired:
  "AddBulksItems lib ctx (bulkDel, bulkAdd) doc keys =
     (bulkDel @ [BulkDeleteRequest (ESIndexName ctx) ''_doc'' (HashObject lib doc keys)],
      bulkAdd @ [BulkIndexRequest (ESIndexName ctx) ''_doc'' (HashObject lib doc keys) doc])
   \<and> (\<forall>st. points_loop lib ctx mergeS merge outputs pts (Bulks es, 0) = Inr st \<longrightarrow>
         length (fst (fst st)) = length (snd (fst st))
       \<and> int (length (fst (fst st))) = snd st
       \<and> map req_Id (fst (fst st)) = map req_Id (snd (fst st))
       \<and> (\<forall>r\<in>set (fst (fst st) @ snd (fst st)). req_Index r = ESIndexName ctx))"
proof (intro conjI allI impI)
  show "AddBulksItems lib ctx (bulkDel, bulkAdd) doc keys =
     (bulkDel @ [BulkDeleteRequest (ESIndexName ctx) ''_doc'' (HashObject lib doc keys)],
      bulkAdd @ [BulkIndexRequest (ESIndexName ctx) ''_doc'' (HashObject lib doc keys) doc])"
    by (simp add: AddBulksItems_def Let_def)
next
  fix st
  assume "points_loop lib ctx mergeS merge outputs pts (Bulks es, 0) = Inr st"
  with points_loop_cases [of lib ctx mergeS merge outputs pts "(Bulks es, 0)"]
  obtain kds where st: "st = add_docs lib ctx kds (Bulks es, 0)" by auto
  show "length (fst (fst st)) = length (snd (fst st))"
    by (simp add: st add_docs_def Bulks_def)
  show "int (length (fst (fst st))) = snd st"
    by (simp add: st add_docs_def Bulks_def)
  show "map req_Id (fst (fst st)) = map req_Id (snd (fst st))"
    by (simp add: st add_docs_def Bulks_def)
  show "\<forall>r\<in>set (fst (fst st) @ snd (fst st)). req_Index r = ESIndexName ctx"
    by (auto simp: st add_docs_def Bulks_def)
qed

theorem AddBulksItems_paired_witness:
  "AddBulksItems lib0 ctx0 ([], []) [''type'' \<mapsto> GoString ''sx''] [''type''] =
     ([BulkDeleteRequest ''d_k8s'' ''_doc'' ''sx|''],
      [BulkIndexRequest ''d_k8s'' ''_doc'' ''sx|'' [''type'' \<mapsto> GoString ''sx'']])
   \<and> (\<exists>st. points_loop lib0 ctx0 [] False flat_only
              [mk_point ''m'' None (Some [(''a'', GoInt 1), (''b'', GoString ''z'')])]
              (Bulks es_ok, 0) = Inr st
          \<and> map req_Id (fst (fst st)) = [''ism|1970-01-01 00:00:00|d|a|'',
                                          ''ism|1970-01-01 00:00:00|d|b|'']
          \<and> map req_Id (snd (fst st)) = [''ism|1970-01-01 00:00:00|d|a|'',
                                          ''ism|1970-01-01 00:00:00|d|b|'']
          \<and> snd st = 2)"
  using AddBulksItems_paired [of lib0 ctx0 "[]" "[]" "[''type'' \<mapsto> GoString ''sx'']"
      "[''type'']" "[]" False flat_only
      "[mk_point ''m'' None (Some [(''a'', GoInt 1), (''b'', GoString ''z'')])]" es_ok]
  by (simp add: lib0_def ctx0_def ESIndexName_def mk_point_def flat_only_def point_body_def
      fields_branch_def out0_def out1_def out2_def flat_value_def add_item_def
      AddBulksItems_def Bulks_def Let_def)




text \<open>
  C5, as the claim states it, fails when a field value is neither a string nor coercible
  to a number: with flat output and merge mode off, a point with the one field \<open>x\<close> of
  value \<open>true\<close> makes the loop body abort at the coercion, and no document is added.
\<close>

theorem flat_fan_out_counterexample:
  "length [(''x'', GoBool True)] = 1
   \<and> point_body lib0 ctx0 [] False flat_only
        (mk_point ''m'' None (Some [(''x'', GoBool True)])) (([], []), 0)
      = Inl (FatalMsg ''cannot convert %+v to a number'')"
  by (simp add: lib0_def mk_point_def flat_only_def point_body_def fields_branch_def
      out0_def out1_def out2_def flat_value_def Let_def)

text \<open>
  C5, amended. With flat output and merge mode off, a point with \<open>N\<close> fields, each a
  string or coercible to a number, adds exactly \<open>N\<close> documents with the key fields
  \<open>type, time, period, name\<close>; each has the type \<open>is\<close> followed by the series name, and
  the \<open>name\<close> attributes are the field names in order, hence distinct. The other
  documents of the point (its tag documents and the wide or array document) have other
  key fields, and there are none when the point has no tags and flat is the only mode.
  An empty merge label is what turns merge mode off.
\<close>

theorem flat_fan_out:
  assumes "out2 outputs" and "pt_fields p = Some fs"
    and "\<forall>nv\<in>set fs. coercible lib (snd nv)" and "distinct (map fst fs)"
  shows "merge_mode [] = ([], False)
     \<and> (\<exists>pre docs.
          point_body lib ctx [] False outputs p st
            = Inr (add_docs lib ctx
                     (pre @ map (Pair [''type'', ''time'', ''period'', ''name'']) docs) st)
        \<and> length docs = length fs
        \<and> (\<forall>d\<in>set docs. d ''type'' = Some (GoString (''is'' @ pt_name p)))
        \<and> map (\<lambda>d. d ''name'') docs = map (\<lambda>nv. Some (GoString (fst nv))) fs
        \<and> distinct (map (\<lambda>d. d ''name'') docs)
        \<and> (\<forall>kd\<in>set pre. fst kd \<noteq> [''type'', ''time'', ''period'', ''name''])
        \<and> (pt_tags p = None \<and> \<not> out0 outputs \<and> \<not> out1 outputs \<longrightarrow> pre = []))"
proof
  show "merge_mode [] = ([], False)" by (simp add: merge_mode_def)
  from tags_part_docs [where p = p and st = st and lib = lib and ctx = ctx and outputs = outputs]
  obtain tkds where t0:
    "(case pt_tags p of None \<Rightarrow> st | Some tg \<Rightarrow> tags_branch lib ctx outputs p tg st)
       = add_docs lib ctx tkds st
     \<and> (\<forall>kd\<in>set tkds. fst kd = [''type'', ''tag_time'']
            \<or> fst kd = [''type'', ''tag_time'', ''name''])
     \<and> (pt_tags p = None \<longrightarrow> tkds = [])" ..
  then have tkds:
    "(case pt_tags p of None \<Rightarrow> st | Some tg \<Rightarrow> tags_branch lib ctx outputs p tg st)
       = add_docs lib ctx tkds st"
    "\<forall>kd\<in>set tkds. fst kd = [''type'', ''tag_time'']
        \<or> fst kd = [''type'', ''tag_time'', ''name'']"
    "pt_tags p = None \<longrightarrow> tkds = []"
    by simp_all
  from assms(3) have ok: "out1 outputs \<or> out2 outputs \<longrightarrow> (\<forall>nv\<in>set fs. coercible lib (snd nv))"
    by simp
  from fields_branch_ok [OF ok, of ctx p "add_docs lib ctx tkds st"]
  obtain wide flat where br:
    "fields_branch lib ctx outputs p fs (add_docs lib ctx tkds st)
       = Inr (add_docs lib ctx (map (Pair [''type'', ''time'', ''period'']) wide
                @ map (Pair [''type'', ''time'', ''period'', ''name'']) flat)
                (add_docs lib ctx tkds st))"
    "length wide = (if out0 outputs \<or> out1 outputs then 1 else 0)"
    "length flat = (if out2 outputs then length fs else 0)"
    "\<forall>d\<in>set flat. d ''type'' = Some (GoString (''is'' @ pt_name p)) \<and> d ''series'' = None"
    "map (\<lambda>d. d ''name'') flat
       = (if out2 outputs then map (\<lambda>nv. Some (GoString (fst nv))) fs else [])"
    by blast
  define pre where "pre = tkds @ map (Pair [''type'', ''time'', ''period'']) wide"
  have run: "point_body lib ctx [] False outputs p st
      = Inr (add_docs lib ctx
               (pre @ map (Pair [''type'', ''time'', ''period'', ''name'']) flat) st)"
    by (simp add: point_body_eq assms(2) tkds(1) br(1) add_docs_add_docs pre_def)
  have names: "map (\<lambda>d. d ''name'') flat = map (\<lambda>nv. Some (GoString (fst nv))) fs"
    using br(5) assms(1) by simp
  have "distinct (map (\<lambda>nv. Some (GoString (fst nv))) fs)"
    using assms(4) by (simp add: distinct_map inj_on_def)
  then have dist: "distinct (map (\<lambda>d. d ''name'') flat)"
    by (simp only: names)
  have pre_keys: "\<forall>kd\<in>set pre. fst kd \<noteq> [''type'', ''time'', ''period'', ''name'']"
    using tkds(2) by (auto simp: pre_def)
  have pre_empty: "pt_tags p = None \<and> \<not> out0 outputs \<and> \<not> out1 outputs \<longrightarrow> pre = []"
    using tkds(3) br(2) by (auto simp: pre_def)
  show "\<exists>pre docs.
          point_body lib ctx [] False outputs p st
            = Inr (add_docs lib ctx
                     (pre @ map (Pair [''type'', ''time'', ''period'', ''name'']) docs) st)
        \<and> length docs = length fs
        \<and> (\<forall>d\<in>set docs. d ''type'' = Some (GoString (''is'' @ pt_name p)))
        \<and> map (\<lambda>d. d ''name'') docs = map (\<lambda>nv. Some (GoString (fst nv))) fs
        \<and> distinct (map (\<lambda>d. d ''name'') docs)
        \<and> (\<forall>kd\<in>set pre. fst kd \<noteq> [''type'', ''time'', ''period'', ''name''])
        \<and> (pt_tags p = None \<and> \<not> out0 outputs \<and> \<not> out1 outputs \<longrightarrow> pre = [])"
    using run br(3,4) names dist pre_keys pre_empty assms(1)
    by (intro exI [of _ pre] exI [of _ flat]) simp
qed

theorem flat_fan_out_witness:
  "\<exists>docs. point_body lib0 ctx0 [] False flat_only
       (mk_point ''m'' None (Some [(''a'', GoFloat64 1), (''b'', GoInt 2), (''c'', GoString ''z'')]))
       (([], []), 0)
       = Inr (add_docs lib0 ctx0 (map (Pair [''type'', ''time'', ''period'', ''name'']) docs)
                (([], []), 0))
     \<and> length docs = 3
     \<and> map (\<lambda>d. d ''name'') docs
         = [Some (GoString ''a''), Some (GoString ''b''), Some (GoString ''c'')]
     \<and> set (map (\<lambda>d. d ''type'') docs) = {Some (GoString ''ism'')}"
proof -
  define fs where "fs = [(''a'', GoFloat64 1), (''b'', GoInt 2), (''c'', GoString ''z'')]"
  define p where "p = mk_point ''m'' None (Some fs)"
  have hyps: "out2 flat_only" "pt_fields p = Some fs"
    "\<forall>nv\<in>set fs. coercible lib0 (snd nv)" "distinct (map fst fs)"
    by (simp_all add: flat_only_def out2_def p_def fs_def mk_point_def coercible_def lib0_def)
  have "\<exists>pre docs.
          point_body lib0 ctx0 [] False flat_only p (([], []), 0)
            = Inr (add_docs lib0 ctx0
                     (pre @ map (Pair [''type'', ''time'', ''period'', ''name'']) docs)
                     (([], []), 0))
        \<and> length docs = length fs
        \<and> (\<forall>d\<in>set docs. d ''type'' = Some (GoString (''is'' @ pt_name p)))
        \<and> map (\<lambda>d. d ''name'') docs = map (\<lambda>nv. Some (GoString (fst nv))) fs
        \<and> distinct (map (\<lambda>d. d ''name'') docs)
        \<and> (\<forall>kd\<in>set pre. fst kd \<noteq> [''type'', ''time'', ''period'', ''name''])
        \<and> (pt_tags p = None \<and> \<not> out0 flat_only \<and> \<not> out1 flat_only \<longrightarrow> pre = [])"
    using flat_fan_out [OF hyps, of ctx0 "(([], []), 0)"] by (rule conjunct2)
  then obtain pre docs where
    run: "point_body lib0 ctx0 [] False flat_only p (([], []), 0)
            = Inr (add_docs lib0 ctx0
                     (pre @ map (Pair [''type'', ''time'', ''period'', ''name'']) docs)
                     (([], []), 0))"
    and len: "length docs = length fs"
    and ty: "\<forall>d\<in>set docs. d ''type'' = Some (GoString (''is'' @ pt_name p))"
    and nm: "map (\<lambda>d. d ''name'') docs = map (\<lambda>nv. Some (GoString (fst nv))) fs"
    and pre: "pt_tags p = None \<and> \<not> out0 flat_only \<and> \<not> out1 flat_only \<longrightarrow> pre = []"
    by (elim exE conjE)
  from pre have pre_nil: "pre = []"
    by (simp add: p_def mk_point_def flat_only_def out0_def out1_def)
  from len have ne: "docs \<noteq> []" by (auto simp: fs_def)
  from ty have "\<forall>d\<in>set docs. d ''type'' = Some (GoString ''ism'')"
    by (simp add: p_def mk_point_def)
  with ne have types: "set (map (\<lambda>d. d ''type'') docs) = {Some (GoString ''ism'')}"
    by (cases docs) auto
  show ?thesis
  proof (intro exI [of _ docs] conjI)
    show "point_body lib0 ctx0 [] False flat_only
       (mk_point ''m'' None (Some [(''a'', GoFloat64 1), (''b'', GoInt 2), (''c'', GoString ''z'')]))
       (([], []), 0)
       = Inr (add_docs lib0 ctx0 (map (Pair [''type'', ''time'', ''period'', ''name'']) docs)
                (([], []), 0))"
      using run by (simp only: pre_nil p_def fs_def append_Nil)
    show "length docs = 3" using len by (simp add: fs_def)
    show "map (\<lambda>d. d ''name'') docs
         = [Some (GoString ''a''), Some (GoString ''b''), Some (GoString ''c'')]"
      using nm by (simp add: fs_def)
    show "set (map (\<lambda>d. d ''type'') docs) = {Some (GoString ''ism'')}" by (rule types)
  qed
qed

lemma wide_doc_header_kept:
  assumes "fields_loop lib outputs fs (hdr, []) = Inr od" and "k \<noteq> ''data''"
    and "\<not> out0 outputs \<or> k \<notin> set (escaped_names fs)"
  shows "(if out1 outputs then (fst od)(''data'' \<mapsto> GoData (snd od)) else fst od) k = hdr k"
  using fields_loop_other [OF assms(1), of k] assms(2,3)
  by (simp add: escaped_names_def)

text \<open>
  C6, as the claim states it, fails when wide output writes a field under the attribute
  name \<open>type\<close> or \<open>series\<close>: with an empty merge label, the point \<open>x\<close> with the fields
  \<open>type\<close> and \<open>series\<close> yields, from the unmerged branch, one document whose type is
  the value of the field, neither \<open>sx\<close> nor \<open>isx\<close>, and which has a \<open>series\<close>
  attribute.
\<close>

theorem unmerged_type_overwritten_counterexample:
  "merge_mode [] = ([], False)
   \<and> (case point_body lib0 ctx0 [] False wide_only
              (mk_point ''x'' None (Some [(''type'', GoString ''zz''), (''series'', GoString ''y'')]))
              (([], []), 0) of
         Inl e \<Rightarrow> []
       | Inr st \<Rightarrow> map (\<lambda>r. (req_Doc r ''type'', req_Doc r ''series'')) (snd (fst st)))
     = [(Some (GoString ''zz''), Some (GoString ''y''))]"
  by (simp add: lib0_def ctx0_def mk_point_def wide_only_def point_body_def fields_branch_def
      fields_doc_def out0_def out1_def out2_def add_item_def AddBulksItems_def Let_def
      ESIndexName_def ESEscapeFieldName_def merge_mode_def)

text \<open>
  C6, amended. The field documents of a point come from exactly one branch. With an
  empty merge label the merge flag is off and the loop body is the tag branch followed
  by the unmerged field branch; with a non-empty label the flag is on, the label is
  prefixed with \<open>s\<close>, and the loop body is the tag branch followed by the merged field
  branch. Either branch returns when, with array or flat output, every field value is a
  string or coercible to a number. When the unmerged branch returns it has added one
  document with the key fields \<open>type, time, period\<close> if wide or array is requested, and
  one document per field with the key fields \<open>type, time, period, name\<close>, of type \<open>is\<close>
  + name and without a \<open>series\<close> attribute, if flat is requested, and nothing else.
  When the merged branch returns it has added as many documents, with the key fields
  \<open>type, time, period, series\<close> and \<open>type, time, period, series, name\<close>, the flat ones
  of type \<open>is\<close> + label with the series name as \<open>series\<close>. The wide or array document
  has the type \<open>s\<close> + name and no \<open>series\<close> attribute in the unmerged branch, the type
  \<open>s\<close> + label and the series name as \<open>series\<close> in the merged branch, provided that
  wide output writes no field under the attribute name \<open>type\<close> or \<open>series\<close>.
\<close>

theorem fields_from_one_branch:
  "(mergeS = [] \<longrightarrow>
      merge_mode mergeS = ([], False)
    \<and> point_body lib ctx [] False outputs p st =
        (case pt_fields p of
           None \<Rightarrow> Inr (case pt_tags p of None \<Rightarrow> st
                         | Some tg \<Rightarrow> tags_branch lib ctx outputs p tg st)
         | Some fs \<Rightarrow> fields_branch lib ctx outputs p fs
                        (case pt_tags p of None \<Rightarrow> st
                         | Some tg \<Rightarrow> tags_branch lib ctx outputs p tg st)))
   \<and> (mergeS \<noteq> [] \<longrightarrow>
      merge_mode mergeS = (''s'' @ mergeS, True)
    \<and> point_body lib ctx (''s'' @ mergeS) True outputs p st =
        (case pt_fields p of
           None \<Rightarrow> Inr (case pt_tags p of None \<Rightarrow> st
                         | Some tg \<Rightarrow> tags_branch lib ctx outputs p tg st)
         | Some fs \<Rightarrow> merged_branch lib ctx (''s'' @ mergeS) outputs p fs
                        (case pt_tags p of None \<Rightarrow> st
                         | Some tg \<Rightarrow> tags_branch lib ctx outputs p tg st)))
   \<and> (\<forall>fs st0.
        (out1 outputs \<or> out2 outputs \<longrightarrow> (\<forall>nv\<in>set fs. coercible lib (snd nv))) \<longrightarrow>
        (\<exists>st'. fields_branch lib ctx outputs p fs st0 = Inr st')
      \<and> (\<exists>st'. merged_branch lib ctx (''s'' @ mergeS) outputs p fs st0 = Inr st'))
   \<and> (\<forall>fs st0 st'. fields_branch lib ctx outputs p fs st0 = Inr st' \<longrightarrow>
        (\<exists>wide flat.
           st' = add_docs lib ctx
                   (map (Pair keys_fields) wide @ map (Pair keys_fields_flat) flat) st0
         \<and> length wide = (if out0 outputs \<or> out1 outputs then 1 else 0)
         \<and> length flat = (if out2 outputs then length fs else 0)
         \<and> (\<forall>d\<in>set wide.
               (\<not> out0 outputs \<or> ''type'' \<notin> set (escaped_names fs) \<longrightarrow>
                  d ''type'' = Some (GoString (''s'' @ pt_name p)))
             \<and> (\<not> out0 outputs \<or> ''series'' \<notin> set (escaped_names fs) \<longrightarrow>
                  d ''series'' = None))
         \<and> (\<forall>d\<in>set flat. d ''type'' = Some (GoString (''is'' @ pt_name p))
               \<and> d ''series'' = None)))
   \<and> (\<forall>fs st0 st'. merged_branch lib ctx (''s'' @ mergeS) outputs p fs st0 = Inr st' \<longrightarrow>
        (\<exists>wide flat.
           st' = add_docs lib ctx
                   (map (Pair keys_merged) wide @ map (Pair keys_merged_flat) flat) st0
         \<and> length wide = (if out0 outputs \<or> out1 outputs then 1 else 0)
         \<and> length flat = (if out2 outputs then length fs else 0)
         \<and> (\<forall>d\<in>set wide.
               (\<not> out0 outputs \<or> ''type'' \<notin> set (escaped_names fs) \<longrightarrow>
                  d ''type'' = Some (GoString (''s'' @ mergeS)))
             \<and> (\<not> out0 outputs \<or> ''series'' \<notin> set (escaped_names fs) \<longrightarrow>
                  d ''series'' = Some (GoString (pt_name p))))
         \<and> (\<forall>d\<in>set flat. d ''type'' = Some (GoString (''is'' @ mergeS))
               \<and> d ''series'' = Some (GoString (pt_name p)))))"
proof (intro conjI allI impI)
  assume "mergeS = []"
  then show "merge_mode mergeS = ([], False)" by (simp add: merge_mode_def)
next
  show "point_body lib ctx [] False outputs p st =
        (case pt_fields p of
           None \<Rightarrow> Inr (case pt_tags p of None \<Rightarrow> st
                         | Some tg \<Rightarrow> tags_branch lib ctx outputs p tg st)
         | Some fs \<Rightarrow> fields_branch lib ctx outputs p fs
                        (case pt_tags p of None \<Rightarrow> st
                         | Some tg \<Rightarrow> tags_branch lib ctx outputs p tg st))"
    by (cases "pt_fields p") (simp_all add: point_body_eq)
next
  assume "mergeS \<noteq> []"
  then show "merge_mode mergeS = (''s'' @ mergeS, True)" by (simp add: merge_mode_def)
next
  show "point_body lib ctx (''s'' @ mergeS) True outputs p st =
        (case pt_fields p of
           None \<Rightarrow> Inr (case pt_tags p of None \<Rightarrow> st
                         | Some tg \<Rightarrow> tags_branch lib ctx outputs p tg st)
         | Some fs \<Rightarrow> merged_branch lib ctx (''s'' @ mergeS) outputs p fs
                        (case pt_tags p of None \<Rightarrow> st
                         | Some tg \<Rightarrow> tags_branch lib ctx outputs p tg st))"
    by (cases "pt_fields p") (simp_all add: point_body_eq)
next
  fix fs :: "(string \<times> iface) list" and st0
  assume ok: "out1 outputs \<or> out2 outputs \<longrightarrow> (\<forall>nv\<in>set fs. coercible lib (snd nv))"
  from fields_branch_ok [OF ok, of ctx p st0]
  show "\<exists>st'. fields_branch lib ctx outputs p fs st0 = Inr st'" by blast
next
  fix fs :: "(string \<times> iface) list" and st0
  assume ok: "out1 outputs \<or> out2 outputs \<longrightarrow> (\<forall>nv\<in>set fs. coercible lib (snd nv))"
  from merged_branch_ok [OF ok, of ctx "''s'' @ mergeS" p st0]
  show "\<exists>st'. merged_branch lib ctx (''s'' @ mergeS) outputs p fs st0 = Inr st'" by blast
next
  fix fs :: "(string \<times> iface) list" and st0 st'
  assume run: "fields_branch lib ctx outputs p fs st0 = Inr st'"
  have ok: "out1 outputs \<or> out2 outputs \<longrightarrow> (\<forall>nv\<in>set fs. coercible lib (snd nv))"
  proof (rule ccontr)
    assume "\<not> ?thesis"
    then have a: "out1 outputs \<or> out2 outputs"
      and b: "\<exists>nv\<in>set fs. \<not> coercible lib (snd nv)" by auto
    from fields_branch_bad [OF a b, of ctx p st0] run show False by simp
  qed
  define hdr where "hdr = [''type'' \<mapsto> GoString (''s'' @ pt_name p),
               ''time'' \<mapsto> GoString (ToESDate lib (pt_t p)),
               ''period'' \<mapsto> GoString (pt_period p),
               ''time_added'' \<mapsto> GoString (ToESDate lib (pt_added p))]"
  from fields_branch_ok [OF ok, of ctx p st0] obtain wide flat where br:
    "fields_branch lib ctx outputs p fs st0
       = Inr (add_docs lib ctx (map (Pair [''type'', ''time'', ''period'']) wide
                @ map (Pair [''type'', ''time'', ''period'', ''name'']) flat) st0)"
    "length wide = (if out0 outputs \<or> out1 outputs then 1 else 0)"
    "\<forall>d\<in>set wide. \<exists>od. fields_loop lib outputs fs (hdr, []) = Inr od
        \<and> d = (if out1 outputs then (fst od)(''data'' \<mapsto> GoData (snd od)) else fst od)"
    "length flat = (if out2 outputs then length fs else 0)"
    "\<forall>d\<in>set flat. d ''type'' = Some (GoString (''is'' @ pt_name p)) \<and> d ''series'' = None"
    unfolding hdr_def by blast
  have wide: "\<forall>d\<in>set wide.
      (\<not> out0 outputs \<or> ''type'' \<notin> set (escaped_names fs) \<longrightarrow>
         d ''type'' = Some (GoString (''s'' @ pt_name p)))
    \<and> (\<not> out0 outputs \<or> ''series'' \<notin> set (escaped_names fs) \<longrightarrow> d ''series'' = None)"
  proof (intro ballI conjI impI)
    fix d assume "d \<in> set wide"
    with br(3) obtain od where od: "fields_loop lib outputs fs (hdr, []) = Inr od"
      and d: "d = (if out1 outputs then (fst od)(''data'' \<mapsto> GoData (snd od)) else fst od)"
      by blast
    {
      assume free: "\<not> out0 outputs \<or> ''type'' \<notin> set (escaped_names fs)"
      from wide_doc_header_kept [OF od _ free] have "d ''type'' = hdr ''type''"
        unfolding d by simp
      then show "d ''type'' = Some (GoString (''s'' @ pt_name p))" by (simp add: hdr_def)
    }
    {
      assume free: "\<not> out0 outputs \<or> ''series'' \<notin> set (escaped_names fs)"
      from wide_doc_header_kept [OF od _ free] have "d ''series'' = hdr ''series''"
        unfolding d by simp
      then show "d ''series'' = None" by (simp add: hdr_def)
    }
  qed
  from run br(1) have st': "st' = add_docs lib ctx
      (map (Pair keys_fields) wide @ map (Pair keys_fields_flat) flat) st0"
    by (simp add: keys_fields_def keys_fields_flat_def)
  show "\<exists>wide flat.
           st' = add_docs lib ctx
                   (map (Pair keys_fields) wide @ map (Pair keys_fields_flat) flat) st0
         \<and> length wide = (if out0 outputs \<or> out1 outputs then 1 else 0)
         \<and> length flat = (if out2 outputs then length fs else 0)
         \<and> (\<forall>d\<in>set wide.
               (\<not> out0 outputs \<or> ''type'' \<notin> set (escaped_names fs) \<longrightarrow>
                  d ''type'' = Some (GoString (''s'' @ pt_name p)))
             \<and> (\<not> out0 outputs \<or> ''series'' \<notin> set (escaped_names fs) \<longrightarrow>
                  d ''series'' = None))
         \<and> (\<forall>d\<in>set flat. d ''type'' = Some (GoString (''is'' @ pt_name p))
               \<and> d ''series'' = None)"
    using st' br(2) br(4) wide br(5)
    by (intro exI [of _ wide] exI [of _ flat] conjI)
next
  fix fs :: "(string \<times> iface) list" and st0 st'
  assume run: "merged_branch lib ctx (''s'' @ mergeS) outputs p fs st0 = Inr st'"
  have ok: "out1 outputs \<or> out2 outputs \<longrightarrow> (\<forall>nv\<in>set fs. coercible lib (snd nv))"
  proof (rule ccontr)
    assume "\<not> ?thesis"
    then have a: "out1 outputs \<or> out2 outputs"
      and b: "\<exists>nv\<in>set fs. \<not> coercible lib (snd nv)" by auto
    from merged_branch_bad [OF a b, of ctx "''s'' @ mergeS" p st0] run show False by simp
  qed
  define hdr where "hdr = [''type'' \<mapsto> GoString (''s'' @ mergeS),
               ''time'' \<mapsto> GoString (ToESDate lib (pt_t p)),
               ''period'' \<mapsto> GoString (pt_period p),
               ''series'' \<mapsto> GoString (pt_name p),
               ''time_added'' \<mapsto> GoString (ToESDate lib (pt_added p))]"
  from merged_branch_ok [OF ok, of ctx "''s'' @ mergeS" p st0] obtain wide flat where br:
    "merged_branch lib ctx (''s'' @ mergeS) outputs p fs st0
       = Inr (add_docs lib ctx (map (Pair [''type'', ''time'', ''period'', ''series'']) wide
                @ map (Pair [''type'', ''time'', ''period'', ''series'', ''name'']) flat) st0)"
    "length wide = (if out0 outputs \<or> out1 outputs then 1 else 0)"
    "\<forall>d\<in>set wide. \<exists>od. fields_loop lib outputs fs (hdr, []) = Inr od
        \<and> d = (if out1 outputs then (fst od)(''data'' \<mapsto> GoData (snd od)) else fst od)"
    "length flat = (if out2 outputs then length fs else 0)"
    "\<forall>d\<in>set flat. d ''type'' = Some (GoString (''i'' @ ''s'' @ mergeS))
        \<and> d ''series'' = Some (GoString (pt_name p))"
    unfolding hdr_def by blast
  have wide: "\<forall>d\<in>set wide.
      (\<not> out0 outputs \<or> ''type'' \<notin> set (escaped_names fs) \<longrightarrow>
         d ''type'' = Some (GoString (''s'' @ mergeS)))
    \<and> (\<not> out0 outputs \<or> ''series'' \<notin> set (escaped_names fs) \<longrightarrow>
         d ''series'' = Some (GoString (pt_name p)))"
  proof (intro ballI conjI impI)
    fix d assume "d \<in> set wide"
    with br(3) obtain od where od: "fields_loop lib outputs fs (hdr, []) = Inr od"
      and d: "d = (if out1 outputs then (fst od)(''data'' \<mapsto> GoData (snd od)) else fst od)"
      by blast
    {
      assume free: "\<not> out0 outputs \<or> ''type'' \<notin> set (escaped_names fs)"
      from wide_doc_header_kept [OF od _ free] have "d ''type'' = hdr ''type''"
        unfolding d by simp
      then show "d ''type'' = Some (GoString (''s'' @ mergeS))" by (simp add: hdr_def)
    }
    {
      assume free: "\<not> out0 outputs \<or> ''series'' \<notin> set (escaped_names fs)"
      from wide_doc_header_kept [OF od _ free] have "d ''series'' = hdr ''series''"
        unfolding d by simp
      then show "d ''series'' = Some (GoString (pt_name p))" by (simp add: hdr_def)
    }
  qed
  from run br(1) have st': "st' = add_docs lib ctx
      (map (Pair keys_merged) wide @ map (Pair keys_merged_flat) flat) st0"
    by (simp add: keys_merged_def keys_merged_flat_def)
  from br(5) have flat: "\<forall>d\<in>set flat. d ''type'' = Some (GoString (''is'' @ mergeS))
        \<and> d ''series'' = Some (GoString (pt_name p))"
    by simp
  show "\<exists>wide flat.
           st' = add_docs lib ctx
                   (map (Pair keys_merged) wide @ map (Pair keys_merged_flat) flat) st0
         \<and> length wide = (if out0 outputs \<or> out1 outputs then 1 else 0)
         \<and> length flat = (if out2 outputs then length fs else 0)
         \<and> (\<forall>d\<in>set wide.
               (\<not> out0 outputs \<or> ''type'' \<notin> set (escaped_names fs) \<longrightarrow>
                  d ''type'' = Some (GoString (''s'' @ mergeS)))
             \<and> (\<not> out0 outputs \<or> ''series'' \<notin> set (escaped_names fs) \<longrightarrow>
                  d ''series'' = Some (GoString (pt_name p))))
         \<and> (\<forall>d\<in>set flat. d ''type'' = Some (GoString (''is'' @ mergeS))
               \<and> d ''series'' = Some (GoString (pt_name p)))"
    using st' br(2) br(4) wide flat
    by (intro exI [of _ wide] exI [of _ flat] conjI)
qed

theorem fields_from_one_branch_witness:
  "merge_mode [] = ([], False) \<and> merge_mode ''m'' = (''sm'', True)
   \<and> point_body lib0 ctx0 [] False wide_flat (mk_point ''x'' None (Some [(''a'', GoInt 1)]))
        (([], []), 0)
      = fields_branch lib0 ctx0 wide_flat (mk_point ''x'' None (Some [(''a'', GoInt 1)]))
          [(''a'', GoInt 1)] (([], []), 0)
   \<and> point_body lib0 ctx0 ''sm'' True wide_flat (mk_point ''x'' None (Some [(''a'', GoInt 1)]))
        (([], []), 0)
      = merged_branch lib0 ctx0 ''sm'' wide_flat (mk_point ''x'' None (Some [(''a'', GoInt 1)]))
          [(''a'', GoInt 1)] (([], []), 0)
   \<and> (\<exists>wide flat.
         fields_branch lib0 ctx0 wide_flat (mk_point ''x'' None (Some [(''a'', GoInt 1)]))
           [(''a'', GoInt 1)] (([], []), 0)
         = Inr (add_docs lib0 ctx0
                  (map (Pair keys_fields) wide @ map (Pair keys_fields_flat) flat) (([], []), 0))
       \<and> map (\<lambda>d. (d ''type'', d ''series'')) wide = [(Some (GoString ''sx''), None)]
       \<and> map (\<lambda>d. (d ''type'', d ''series'')) flat = [(Some (GoString ''isx''), None)])
   \<and> (\<exists>wide flat.
         merged_branch lib0 ctx0 ''sm'' wide_flat (mk_point ''x'' None (Some [(''a'', GoInt 1)]))
           [(''a'', GoInt 1)] (([], []), 0)
         = Inr (add_docs lib0 ctx0
                  (map (Pair keys_merged) wide @ map (Pair keys_merged_flat) flat) (([], []), 0))
       \<and> map (\<lambda>d. (d ''type'', d ''series'')) wide
           = [(Some (GoString ''sm''), Some (GoString ''x''))]
       \<and> map (\<lambda>d. (d ''type'', d ''series'')) flat
           = [(Some (GoString ''ism''), Some (GoString ''x''))])"
proof -
  define fs where "fs = [(''a'', GoInt 1)]"
  define p where "p = mk_point ''x'' None (Some fs)"
  define st0 :: acc where "st0 = (([], []), 0)"
  note A = fields_from_one_branch [of "[]" lib0 ctx0 wide_flat p st0]
  note B = fields_from_one_branch [of "''m''" lib0 ctx0 wide_flat p st0]
  have pf: "pt_fields p = Some fs" "pt_tags p = None" "pt_name p = ''x''"
    by (simp_all add: p_def mk_point_def)
  have modes: "out0 wide_flat" "\<not> out1 wide_flat" "out2 wide_flat"
    by (simp_all add: wide_flat_def out0_def out1_def out2_def)
  have esc: "''type'' \<notin> set (escaped_names fs)" "''series'' \<notin> set (escaped_names fs)"
    by (simp_all add: escaped_names_def fs_def ESEscapeFieldName_def)
  from A [THEN conjunct1, rule_format, OF refl]
  have a: "merge_mode [] = ([], False)"
    "point_body lib0 ctx0 [] False wide_flat p st0 = fields_branch lib0 ctx0 wide_flat p fs st0"
    by (simp_all add: pf)
  have ne: "''m'' \<noteq> []" by simp
  from B [THEN conjunct2, THEN conjunct1, rule_format, OF ne]
  have b: "merge_mode ''m'' = (''sm'', True)"
    "point_body lib0 ctx0 ''sm'' True wide_flat p st0
       = merged_branch lib0 ctx0 ''sm'' wide_flat p fs st0"
    by (simp_all add: pf)
  have ok: "out1 wide_flat \<or> out2 wide_flat \<longrightarrow> (\<forall>nv\<in>set fs. coercible lib0 (snd nv))"
    by (simp add: fs_def coercible_def lib0_def)
  from A [THEN conjunct2, THEN conjunct2, THEN conjunct1, THEN spec, THEN spec, THEN mp, OF ok,
      THEN conjunct1]
  obtain st1 where st1: "fields_branch lib0 ctx0 wide_flat p fs st0 = Inr st1" ..
  from A [THEN conjunct2, THEN conjunct2, THEN conjunct2, THEN conjunct1, THEN spec, THEN spec,
      THEN spec, THEN mp, OF st1]
  obtain wide flat where u:
    "st1 = add_docs lib0 ctx0 (map (Pair keys_fields) wide @ map (Pair keys_fields_flat) flat) st0"
    "length wide = (if out0 wide_flat \<or> out1 wide_flat then 1 else 0)"
    "length flat = (if out2 wide_flat then length fs else 0)"
    "\<forall>d\<in>set wide.
       (\<not> out0 wide_flat \<or> ''type'' \<notin> set (escaped_names fs) \<longrightarrow>
          d ''type'' = Some (GoString (''s'' @ pt_name p)))
     \<and> (\<not> out0 wide_flat \<or> ''series'' \<notin> set (escaped_names fs) \<longrightarrow> d ''series'' = None)"
    "\<forall>d\<in>set flat. d ''type'' = Some (GoString (''is'' @ pt_name p)) \<and> d ''series'' = None"
    by (elim exE conjE)
  from u(2) modes obtain w where w: "wide = [w]" by (cases wide) auto
  from u(3) modes obtain f where f: "flat = [f]" by (cases flat) (auto simp: fs_def)
  from u(4) w esc pf(3) have w': "map (\<lambda>d. (d ''type'', d ''series'')) wide
      = [(Some (GoString ''sx''), None)]" by simp
  from u(5) f pf(3) have f': "map (\<lambda>d. (d ''type'', d ''series'')) flat
      = [(Some (GoString ''isx''), None)]" by simp
  have c: "\<exists>wide flat.
         fields_branch lib0 ctx0 wide_flat p fs st0
         = Inr (add_docs lib0 ctx0
                  (map (Pair keys_fields) wide @ map (Pair keys_fields_flat) flat) st0)
       \<and> map (\<lambda>d. (d ''type'', d ''series'')) wide = [(Some (GoString ''sx''), None)]
       \<and> map (\<lambda>d. (d ''type'', d ''series'')) flat = [(Some (GoString ''isx''), None)]"
    using st1 u(1) w' f' by (intro exI [of _ wide] exI [of _ flat]) simp
  from B [THEN conjunct2, THEN conjunct2, THEN conjunct1, THEN spec, THEN spec, THEN mp, OF ok,
      THEN conjunct2]
  obtain st2 where st2: "merged_branch lib0 ctx0 (''s'' @ ''m'') wide_flat p fs st0 = Inr st2" ..
  from B [THEN conjunct2, THEN conjunct2, THEN conjunct2, THEN conjunct2, THEN spec, THEN spec,
      THEN spec, THEN mp, OF st2]
  obtain wide' flat' where v:
    "st2 = add_docs lib0 ctx0
             (map (Pair keys_merged) wide' @ map (Pair keys_merged_flat) flat') st0"
    "length wide' = (if out0 wide_flat \<or> out1 wide_flat then 1 else 0)"
    "length flat' = (if out2 wide_flat then length fs else 0)"
    "\<forall>d\<in>set wide'.
       (\<not> out0 wide_flat \<or> ''type'' \<notin> set (escaped_names fs) \<longrightarrow>
          d ''type'' = Some (GoString (''s'' @ ''m'')))
     \<and> (\<not> out0 wide_flat \<or> ''series'' \<notin> set (escaped_names fs) \<longrightarrow>
          d ''series'' = Some (GoString (pt_name p)))"
    "\<forall>d\<in>set flat'. d ''type'' = Some (GoString (''is'' @ ''m''))
       \<and> d ''series'' = Some (GoString (pt_name p))"
    by (elim exE conjE)
  from v(2) modes obtain w2 where w2: "wide' = [w2]" by (cases wide') auto
  from v(3) modes obtain f2 where f2: "flat' = [f2]" by (cases flat') (auto simp: fs_def)
  from v(4) w2 esc pf(3) have w2': "map (\<lambda>d. (d ''type'', d ''series'')) wide'
      = [(Some (GoString ''sm''), Some (GoString ''x''))]" by simp
  from v(5) f2 pf(3) have f2': "map (\<lambda>d. (d ''type'', d ''series'')) flat'
      = [(Some (GoString ''ism''), Some (GoString ''x''))]" by simp
  from st2 have st2': "merged_branch lib0 ctx0 ''sm'' wide_flat p fs st0 = Inr st2" by simp
  have d: "\<exists>wide flat.
         merged_branch lib0 ctx0 ''sm'' wide_flat p fs st0
         = Inr (add_docs lib0 ctx0
                  (map (Pair keys_merged) wide @ map (Pair keys_merged_flat) flat) st0)
       \<and> map (\<lambda>d. (d ''type'', d ''series'')) wide
           = [(Some (GoString ''sm''), Some (GoString ''x''))]
       \<and> map (\<lambda>d. (d ''type'', d ''series'')) flat
           = [(Some (GoString ''ism''), Some (GoString ''x''))]"
    using st2' v(1) w2' f2' by (intro exI [of _ wide'] exI [of _ flat']) simp
  from a b c d show ?thesis
    unfolding p_def fs_def st0_def by (intro conjI)
qed

text \<open>
  C4, as the claim states it, fails when two tags have the same name once the dots are
  stripped: with wide and array output the point yields one document whose sequence
  holds both tags, but the tag \<open>a.b\<close> is no top-level attribute of it; the attribute
  \<open>ab\<close> holds the value of the other tag.
\<close>

theorem tags_wide_collision_counterexample:
  "point_body lib0 ctx0 [] False wide_array
     (mk_point ''x'' (Some [(''a.b'', ''1''), (''ab'', ''2'')]) None) (([], []), 0)
   = Inr (([BulkDeleteRequest ''d_k8s'' ''_doc'' ''tx|1970-01-01 00:00:00|''],
           [BulkIndexRequest ''d_k8s'' ''_doc'' ''tx|1970-01-01 00:00:00|''
              [''type'' \<mapsto> GoString ''tx'',
               ''time'' \<mapsto> GoString ''2018-01-01 00:00:00'',
               ''tag_time'' \<mapsto> GoString ''1970-01-01 00:00:00'',
               ''ab'' \<mapsto> GoString ''2'',
               ''data'' \<mapsto> GoData [\<lparr>Name = ''a.b'', IValue = 0, SValue = ''1''\<rparr>,
                                      \<lparr>Name = ''ab'', IValue = 0, SValue = ''2''\<rparr>]]]), 1)"
  by (simp add: lib0_def ctx0_def mk_point_def wide_array_def point_body_def tags_branch_def
      out0_def out1_def out2_def add_item_def AddBulksItems_def Let_def ESIndexName_def
      ESEscapeFieldName_def)

lemma fields_loop_values:
  "fields_loop lib outputs fs od = Inr od' \<Longrightarrow>
   snd od' = snd od @ (if out1 outputs then map (named_value lib) fs else [])"
proof (induction fs arbitrary: od)
  case Nil
  then show ?case by simp
next
  case (Cons a fs)
  obtain n v where a: "a = (n, v)" by (cases a)
  from Cons.prems(1) obtain od1 where od1: "fields_loop lib outputs fs od1 = Inr od'"
    and snd1: "snd od1 = snd od @ (if out1 outputs then [named_value lib (n, v)] else [])"
    by (simp add: a Let_def split_beta named_value_def split: if_splits)
  from Cons.IH [OF od1] snd1 a show ?case by simp
qed

lemma wide_array_doc_of_loop:
  assumes od: "fields_loop lib outputs fs (hdr, []) = Inr od"
    and modes: "out0 outputs" "out1 outputs"
  shows "((fst od)(''data'' \<mapsto> GoData (snd od))) ''data''
            = Some (GoData (map (named_value lib) fs))"
    and "distinct (escaped_names fs) \<and> ''data'' \<notin> set (escaped_names fs) \<longrightarrow>
          (\<forall>nv\<in>set fs. ((fst od)(''data'' \<mapsto> GoData (snd od))) (ESEscapeFieldName (fst nv))
              = Some (snd nv))"
proof -
  from fields_loop_values [OF od] modes(2)
  show "((fst od)(''data'' \<mapsto> GoData (snd od))) ''data''
            = Some (GoData (map (named_value lib) fs))"
    by simp
  show "distinct (escaped_names fs) \<and> ''data'' \<notin> set (escaped_names fs) \<longrightarrow>
          (\<forall>nv\<in>set fs. ((fst od)(''data'' \<mapsto> GoData (snd od))) (ESEscapeFieldName (fst nv))
              = Some (snd nv))"
  proof (intro impI ballI)
    fix nv
    assume h: "distinct (escaped_names fs) \<and> ''data'' \<notin> set (escaped_names fs)"
      and nv: "nv \<in> set fs"
    from h have dist: "distinct (map (\<lambda>nv. ESEscapeFieldName (fst nv)) fs)"
      by (simp add: escaped_names_def)
    from nv have mem: "(fst nv, snd nv) \<in> set fs" by simp
    from nv have "ESEscapeFieldName (fst nv) \<in> set (escaped_names fs)"
      by (simp add: escaped_names_def)
    with h have "ESEscapeFieldName (fst nv) \<noteq> ''data''"
      by metis
    then have "((fst od)(''data'' \<mapsto> GoData (snd od))) (ESEscapeFieldName (fst nv))
        = fst od (ESEscapeFieldName (fst nv))"
      by simp
    also have "\<dots> = Some (snd nv)"
      by (rule fields_loop_attr [OF od modes(1) dist mem])
    finally show "((fst od)(''data'' \<mapsto> GoData (snd od))) (ESEscapeFieldName (fst nv))
        = Some (snd nv)" .
  qed
qed

text \<open>
  C4, amended. With wide and array output a point with tags yields a single tag
  document, not two, with the key fields \<open>type, tag_time\<close> (the flat documents, when
  requested as well, are separate). Its \<open>data\<close> attribute is the sequence of the \<open>N\<close>
  tags, each with its name and its value as string value. Each tag is also a top-level
  attribute of it, under its name with the dots stripped, provided that the stripped
  names of the tags differ from each other and from \<open>data\<close>. A point with fields,
  each a string or coercible to a number, likewise yields a single document for wide and
  array together, in the unmerged branch (key fields \<open>type, time, period\<close>) as in the
  merged branch (key fields \<open>type, time, period, series\<close>): its \<open>data\<close> attribute is the
  sequence of the fields, each with its name and its string value or coerced number, and
  each field is a top-level attribute of it, under its name with the dots stripped and
  with the value as the point has it, under the same proviso on the stripped names.
\<close>

theorem wide_array_single_document:
  assumes "out0 outputs" and "out1 outputs"
  shows "(\<forall>tg. pt_tags p = Some tg \<longrightarrow>
           (\<exists>d flat.
              tags_branch lib ctx outputs p tg st
                = add_docs lib ctx ((keys_tags, d) # map (Pair keys_tags_flat) flat) st
            \<and> length flat = (if out2 outputs then length tg else 0)
            \<and> d ''data''
                = Some (GoData (map (\<lambda>nv. \<lparr>Name = fst nv, IValue = 0, SValue = snd nv\<rparr>) tg))
            \<and> (distinct (escaped_names tg) \<and> ''data'' \<notin> set (escaped_names tg) \<longrightarrow>
                 (\<forall>nv\<in>set tg. d (ESEscapeFieldName (fst nv)) = Some (GoString (snd nv))))
            \<and> (pt_fields p = None \<longrightarrow>
                 point_body lib ctx mergeS merge outputs p st
                   = Inr (tags_branch lib ctx outputs p tg st))))
       \<and> (\<forall>fs. (\<forall>nv\<in>set fs. coercible lib (snd nv)) \<longrightarrow>
           (\<exists>d flat.
              fields_branch lib ctx outputs p fs st
                = Inr (add_docs lib ctx ((keys_fields, d) # map (Pair keys_fields_flat) flat) st)
            \<and> length flat = (if out2 outputs then length fs else 0)
            \<and> d ''data'' = Some (GoData (map (named_value lib) fs))
            \<and> (distinct (escaped_names fs) \<and> ''data'' \<notin> set (escaped_names fs) \<longrightarrow>
                 (\<forall>nv\<in>set fs. d (ESEscapeFieldName (fst nv)) = Some (snd nv))))
         \<and> (\<exists>d flat.
              merged_branch lib ctx mergeS outputs p fs st
                = Inr (add_docs lib ctx ((keys_merged, d) # map (Pair keys_merged_flat) flat) st)
            \<and> length flat = (if out2 outputs then length fs else 0)
            \<and> d ''data'' = Some (GoData (map (named_value lib) fs))
            \<and> (distinct (escaped_names fs) \<and> ''data'' \<notin> set (escaped_names fs) \<longrightarrow>
                 (\<forall>nv\<in>set fs. d (ESEscapeFieldName (fst nv)) = Some (snd nv))))
         \<and> (pt_tags p = None \<and> pt_fields p = Some fs \<longrightarrow>
              point_body lib ctx mergeS False outputs p st
                = fields_branch lib ctx outputs p fs st
            \<and> point_body lib ctx mergeS True outputs p st
                = merged_branch lib ctx mergeS outputs p fs st))"
proof (intro conjI allI impI)
  fix tg :: "(string \<times> string) list"
  assume tg: "pt_tags p = Some tg"
  define hdr where "hdr = [''type'' \<mapsto> GoString (''t'' @ pt_name p),
                         ''time'' \<mapsto> GoString (ToESDate lib (pt_added p)),
                         ''tag_time'' \<mapsto> GoString (ToESDate lib (pt_t p))]"
  define od where "od = tags_loop outputs tg (hdr, [])"
  define d where "d = (fst od)(''data'' \<mapsto> GoData (snd od))"
  from tags_branch_docs [of lib ctx outputs p tg st] obtain wide flat where br:
    "tags_branch lib ctx outputs p tg st
       = add_docs lib ctx (map (Pair [''type'', ''tag_time'']) wide
                            @ map (Pair [''type'', ''tag_time'', ''name'']) flat) st"
    "wide = (if out0 outputs \<or> out1 outputs
               then [let od = tags_loop outputs tg (hdr, [])
                     in if out1 outputs then (fst od)(''data'' \<mapsto> GoData (snd od)) else fst od]
               else [])"
    "length flat = (if out2 outputs then length tg else 0)"
    unfolding hdr_def by blast
  from br(2) assms have wide: "wide = [d]"
    by (simp add: d_def od_def Let_def)
  have run: "tags_branch lib ctx outputs p tg st
      = add_docs lib ctx ((keys_tags, d) # map (Pair keys_tags_flat) flat) st"
    by (simp add: br(1) wide keys_tags_def keys_tags_flat_def)
  have data: "d ''data''
      = Some (GoData (map (\<lambda>nv. \<lparr>Name = fst nv, IValue = 0, SValue = snd nv\<rparr>) tg))"
    using assms(2) by (simp add: d_def od_def tags_loop_data)
  have attrs: "distinct (escaped_names tg) \<and> ''data'' \<notin> set (escaped_names tg) \<longrightarrow>
      (\<forall>nv\<in>set tg. d (ESEscapeFieldName (fst nv)) = Some (GoString (snd nv)))"
  proof (intro impI ballI)
    fix nv
    assume h: "distinct (escaped_names tg) \<and> ''data'' \<notin> set (escaped_names tg)"
      and nv: "nv \<in> set tg"
    from h have dist: "distinct (map (\<lambda>nv. ESEscapeFieldName (fst nv)) tg)"
      by (simp add: escaped_names_def)
    from nv have mem: "(fst nv, snd nv) \<in> set tg" by simp
    from nv have "ESEscapeFieldName (fst nv) \<in> set (escaped_names tg)"
      by (simp add: escaped_names_def)
    with h have "ESEscapeFieldName (fst nv) \<noteq> ''data''"
      by metis
    then have "d (ESEscapeFieldName (fst nv)) = fst od (ESEscapeFieldName (fst nv))"
      by (simp add: d_def)
    also have "\<dots> = Some (GoString (snd nv))"
      unfolding od_def by (rule tags_loop_attr [OF assms(1) dist mem])
    finally show "d (ESEscapeFieldName (fst nv)) = Some (GoString (snd nv))" .
  qed
  have body: "pt_fields p = None \<longrightarrow>
      point_body lib ctx mergeS merge outputs p st = Inr (tags_branch lib ctx outputs p tg st)"
    by (simp add: point_body_eq tg)
  show "\<exists>d flat.
              tags_branch lib ctx outputs p tg st
                = add_docs lib ctx ((keys_tags, d) # map (Pair keys_tags_flat) flat) st
            \<and> length flat = (if out2 outputs then length tg else 0)
            \<and> d ''data''
                = Some (GoData (map (\<lambda>nv. \<lparr>Name = fst nv, IValue = 0, SValue = snd nv\<rparr>) tg))
            \<and> (distinct (escaped_names tg) \<and> ''data'' \<notin> set (escaped_names tg) \<longrightarrow>
                 (\<forall>nv\<in>set tg. d (ESEscapeFieldName (fst nv)) = Some (GoString (snd nv))))
            \<and> (pt_fields p = None \<longrightarrow>
                 point_body lib ctx mergeS merge outputs p st
                   = Inr (tags_branch lib ctx outputs p tg st))"
    using run br(3) data attrs body by (intro exI [of _ d] exI [of _ flat]) simp
next
  fix fs :: "(string \<times> iface) list"
  assume co: "\<forall>nv\<in>set fs. coercible lib (snd nv)"
  then have ok: "out1 outputs \<or> out2 outputs \<longrightarrow> (\<forall>nv\<in>set fs. coercible lib (snd nv))"
    by simp
  define hdr where "hdr = [''type'' \<mapsto> GoString (''s'' @ pt_name p),
               ''time'' \<mapsto> GoString (ToESDate lib (pt_t p)),
               ''period'' \<mapsto> GoString (pt_period p),
               ''time_added'' \<mapsto> GoString (ToESDate lib (pt_added p))]"
  from fields_branch_ok [OF ok, of ctx p st] obtain wide flat where br:
    "fields_branch lib ctx outputs p fs st
       = Inr (add_docs lib ctx (map (Pair [''type'', ''time'', ''period'']) wide
                @ map (Pair [''type'', ''time'', ''period'', ''name'']) flat) st)"
    "length wide = (if out0 outputs \<or> out1 outputs then 1 else 0)"
    "\<forall>d\<in>set wide. \<exists>od. fields_loop lib outputs fs (hdr, []) = Inr od
        \<and> d = (if out1 outputs then (fst od)(''data'' \<mapsto> GoData (snd od)) else fst od)"
    "length flat = (if out2 outputs then length fs else 0)"
    unfolding hdr_def by blast
  from br(2) assms obtain d where wide: "wide = [d]"
    by (cases wide) auto
  with br(3) assms(2) obtain od where od: "fields_loop lib outputs fs (hdr, []) = Inr od"
    and d: "d = (fst od)(''data'' \<mapsto> GoData (snd od))"
    by auto
  note props = wide_array_doc_of_loop [OF od assms]
  show "\<exists>d flat.
              fields_branch lib ctx outputs p fs st
                = Inr (add_docs lib ctx ((keys_fields, d) # map (Pair keys_fields_flat) flat) st)
            \<and> length flat = (if out2 outputs then length fs else 0)
            \<and> d ''data'' = Some (GoData (map (named_value lib) fs))
            \<and> (distinct (escaped_names fs) \<and> ''data'' \<notin> set (escaped_names fs) \<longrightarrow>
                 (\<forall>nv\<in>set fs. d (ESEscapeFieldName (fst nv)) = Some (snd nv)))"
  proof (intro exI [of _ d] exI [of _ flat] conjI)
    show "fields_branch lib ctx outputs p fs st
                = Inr (add_docs lib ctx ((keys_fields, d) # map (Pair keys_fields_flat) flat) st)"
      by (simp add: br(1) wide keys_fields_def keys_fields_flat_def)
    show "length flat = (if out2 outputs then length fs else 0)" by (rule br(4))
    show "d ''data'' = Some (GoData (map (named_value lib) fs))"
      unfolding d by (rule props(1))
    show "distinct (escaped_names fs) \<and> ''data'' \<notin> set (escaped_names fs) \<longrightarrow>
                 (\<forall>nv\<in>set fs. d (ESEscapeFieldName (fst nv)) = Some (snd nv))"
      unfolding d by (rule props(2))
  qed
next
  fix fs :: "(string \<times> iface) list"
  assume co: "\<forall>nv\<in>set fs. coercible lib (snd nv)"
  then have ok: "out1 outputs \<or> out2 outputs \<longrightarrow> (\<forall>nv\<in>set fs. coercible lib (snd nv))"
    by simp
  define hdr where "hdr = [''type'' \<mapsto> GoString mergeS,
               ''time'' \<mapsto> GoString (ToESDate lib (pt_t p)),
               ''period'' \<mapsto> GoString (pt_period p),
               ''series'' \<mapsto> GoString (pt_name p),
               ''time_added'' \<mapsto> GoString (ToESDate lib (pt_added p))]"
  from merged_branch_ok [OF ok, of ctx mergeS p st] obtain wide flat where br:
    "merged_branch lib ctx mergeS outputs p fs st
       = Inr (add_docs lib ctx (map (Pair [''type'', ''time'', ''period'', ''series'']) wide
                @ map (Pair [''type'', ''time'', ''period'', ''series'', ''name'']) flat) st)"
    "length wide = (if out0 outputs \<or> out1 outputs then 1 else 0)"
    "\<forall>d\<in>set wide. \<exists>od. fields_loop lib outputs fs (hdr, []) = Inr od
        \<and> d = (if out1 outputs then (fst od)(''data'' \<mapsto> GoData (snd od)) else fst od)"
    "length flat = (if out2 outputs then length fs else 0)"
    unfolding hdr_def by blast
  from br(2) assms obtain d where wide: "wide = [d]"
    by (cases wide) auto
  with br(3) assms(2) obtain od where od: "fields_loop lib outputs fs (hdr, []) = Inr od"
    and d: "d = (fst od)(''data'' \<mapsto> GoData (snd od))"
    by auto
  note props = wide_array_doc_of_loop [OF od assms]
  show "\<exists>d flat.
              merged_branch lib ctx mergeS outputs p fs st
                = Inr (add_docs lib ctx ((keys_merged, d) # map (Pair keys_merged_flat) flat) st)
            \<and> length flat = (if out2 outputs then length fs else 0)
            \<and> d ''data'' = Some (GoData (map (named_value lib) fs))
            \<and> (distinct (escaped_names fs) \<and> ''data'' \<notin> set (escaped_names fs) \<longrightarrow>
                 (\<forall>nv\<in>set fs. d (ESEscapeFieldName (fst nv)) = Some (snd nv)))"
  proof (intro exI [of _ d] exI [of _ flat] conjI)
    show "merged_branch lib ctx mergeS outputs p fs st
                = Inr (add_docs lib ctx ((keys_merged, d) # map (Pair keys_merged_flat) flat) st)"
      by (simp add: br(1) wide keys_merged_def keys_merged_flat_def)
    show "length flat = (if out2 outputs then length fs else 0)" by (rule br(4))
    show "d ''data'' = Some (GoData (map (named_value lib) fs))"
      unfolding d by (rule props(1))
    show "distinct (escaped_names fs) \<and> ''data'' \<notin> set (escaped_names fs) \<longrightarrow>
                 (\<forall>nv\<in>set fs. d (ESEscapeFieldName (fst nv)) = Some (snd nv))"
      unfolding d by (rule props(2))
  qed
next
  fix fs :: "(string \<times> iface) list"
  assume "pt_tags p = None \<and> pt_fields p = Some fs"
  then show "point_body lib ctx mergeS False outputs p st
                = fields_branch lib ctx outputs p fs st"
    by (simp add: point_body_eq)
next
  fix fs :: "(string \<times> iface) list"
  assume "pt_tags p = None \<and> pt_fields p = Some fs"
  then show "point_body lib ctx mergeS True outputs p st
                = merged_branch lib ctx mergeS outputs p fs st"
    by (simp add: point_body_eq)
qed

theorem wide_array_single_document_witness:
  "(\<exists>d. point_body lib0 ctx0 [] False wide_array
          (mk_point ''x'' (Some [(''repo'', ''k8s''), (''sig.x'', ''node'')]) None) (([], []), 0)
        = Inr (add_docs lib0 ctx0 [(keys_tags, d)] (([], []), 0))
     \<and> d ''repo'' = Some (GoString ''k8s'') \<and> d ''sigx'' = Some (GoString ''node'')
     \<and> d ''data'' = Some (GoData [\<lparr>Name = ''repo'', IValue = 0, SValue = ''k8s''\<rparr>,
                                    \<lparr>Name = ''sig.x'', IValue = 0, SValue = ''node''\<rparr>]))
   \<and> (\<exists>d. point_body lib0 ctx0 [] False wide_array
          (mk_point ''m'' None (Some [(''a.x'', GoInt 1), (''b'', GoString ''z'')])) (([], []), 0)
        = Inr (add_docs lib0 ctx0 [(keys_fields, d)] (([], []), 0))
     \<and> d ''ax'' = Some (GoInt 1) \<and> d ''b'' = Some (GoString ''z'')
     \<and> d ''data'' = Some (GoData [\<lparr>Name = ''a.x'', IValue = 1, SValue = []\<rparr>,
                                    \<lparr>Name = ''b'', IValue = 0, SValue = ''z''\<rparr>]))
   \<and> (\<exists>d. point_body lib0 ctx0 ''sm'' True wide_array
          (mk_point ''m'' None (Some [(''a.x'', GoInt 1), (''b'', GoString ''z'')])) (([], []), 0)
        = Inr (add_docs lib0 ctx0 [(keys_merged, d)] (([], []), 0))
     \<and> d ''ax'' = Some (GoInt 1) \<and> d ''b'' = Some (GoString ''z'')
     \<and> d ''data'' = Some (GoData [\<lparr>Name = ''a.x'', IValue = 1, SValue = []\<rparr>,
                                    \<lparr>Name = ''b'', IValue = 0, SValue = ''z''\<rparr>]))"
proof -
  have modes: "out0 wide_array" "out1 wide_array" "\<not> out2 wide_array"
    by (simp_all add: wide_array_def out0_def out1_def out2_def)
  define st0 :: acc where "st0 = (([], []), 0)"
  have tags: "\<exists>d. point_body lib0 ctx0 [] False wide_array
            (mk_point ''x'' (Some [(''repo'', ''k8s''), (''sig.x'', ''node'')]) None) st0
          = Inr (add_docs lib0 ctx0 [(keys_tags, d)] st0)
       \<and> d ''repo'' = Some (GoString ''k8s'') \<and> d ''sigx'' = Some (GoString ''node'')
       \<and> d ''data'' = Some (GoData [\<lparr>Name = ''repo'', IValue = 0, SValue = ''k8s''\<rparr>,
                                      \<lparr>Name = ''sig.x'', IValue = 0, SValue = ''node''\<rparr>])"
  proof -
    define tg where "tg = [(''repo'', ''k8s''), (''sig.x'', ''node'')]"
    define p where "p = mk_point ''x'' (Some tg) None"
    have pt: "pt_tags p = Some tg" "pt_fields p = None"
      by (simp_all add: p_def mk_point_def)
    have esc: "escaped_names tg = [''repo'', ''sigx'']"
      by (simp add: escaped_names_def tg_def ESEscapeFieldName_def)
    from wide_array_single_document [OF modes(1,2), of p lib0 ctx0 st0 "[]" False,
        THEN conjunct1, rule_format, OF pt(1)]
    obtain d flat where d:
      "tags_branch lib0 ctx0 wide_array p tg st0
         = add_docs lib0 ctx0 ((keys_tags, d) # map (Pair keys_tags_flat) flat) st0"
      "length flat = (if out2 wide_array then length tg else 0)"
      "d ''data'' = Some (GoData (map (\<lambda>nv. \<lparr>Name = fst nv, IValue = 0, SValue = snd nv\<rparr>) tg))"
      "distinct (escaped_names tg) \<and> ''data'' \<notin> set (escaped_names tg) \<longrightarrow>
         (\<forall>nv\<in>set tg. d (ESEscapeFieldName (fst nv)) = Some (GoString (snd nv)))"
      "pt_fields p = None \<longrightarrow>
         point_body lib0 ctx0 [] False wide_array p st0
           = Inr (tags_branch lib0 ctx0 wide_array p tg st0)"
      by (elim exE conjE)
    from d(2) modes(3) have flat: "flat = []" by simp
    from d(4) have attrs: "\<forall>nv\<in>set tg. d (ESEscapeFieldName (fst nv)) = Some (GoString (snd nv))"
      by (simp add: esc)
    have a1: "d ''repo'' = Some (GoString ''k8s'')"
      using attrs by (simp add: tg_def ESEscapeFieldName_def)
    have a2: "d ''sigx'' = Some (GoString ''node'')"
      using attrs by (simp add: tg_def ESEscapeFieldName_def)
    have run: "point_body lib0 ctx0 [] False wide_array p st0
        = Inr (add_docs lib0 ctx0 [(keys_tags, d)] st0)"
      using d(5) pt(2) by (simp add: d(1) flat)
    from d(3) have data: "d ''data'' = Some (GoData [\<lparr>Name = ''repo'', IValue = 0, SValue = ''k8s''\<rparr>,
                                      \<lparr>Name = ''sig.x'', IValue = 0, SValue = ''node''\<rparr>])"
      by (simp add: tg_def)
    from run a1 a2 data show ?thesis
      unfolding p_def tg_def by (intro exI [of _ d] conjI)
  qed
  define fs where "fs = [(''a.x'', GoInt 1), (''b'', GoString ''z'')]"
  define q where "q = mk_point ''m'' None (Some fs)"
  have pq: "pt_tags q = None \<and> pt_fields q = Some fs"
    by (simp add: q_def mk_point_def)
  have co: "\<forall>nv\<in>set fs. coercible lib0 (snd nv)"
    by (simp add: fs_def coercible_def lib0_def)
  have esc: "distinct (escaped_names fs) \<and> ''data'' \<notin> set (escaped_names fs)"
    by (simp add: escaped_names_def fs_def ESEscapeFieldName_def)
  have vals: "map (named_value lib0) fs = [\<lparr>Name = ''a.x'', IValue = 1, SValue = []\<rparr>,
                                    \<lparr>Name = ''b'', IValue = 0, SValue = ''z''\<rparr>]"
    by (simp add: fs_def named_value_def lib0_def)
  note F = wide_array_single_document [OF modes(1,2), of q lib0 ctx0 st0 "[]" False,
      THEN conjunct2, THEN spec, THEN mp, OF co]
  note M = wide_array_single_document [OF modes(1,2), of q lib0 ctx0 st0 "''sm''" True,
      THEN conjunct2, THEN spec, THEN mp, OF co]
  from F [THEN conjunct1] obtain d flat where d:
    "fields_branch lib0 ctx0 wide_array q fs st0
       = Inr (add_docs lib0 ctx0 ((keys_fields, d) # map (Pair keys_fields_flat) flat) st0)"
    "length flat = (if out2 wide_array then length fs else 0)"
    "d ''data'' = Some (GoData (map (named_value lib0) fs))"
    "distinct (escaped_names fs) \<and> ''data'' \<notin> set (escaped_names fs) \<longrightarrow>
       (\<forall>nv\<in>set fs. d (ESEscapeFieldName (fst nv)) = Some (snd nv))"
    by (elim exE conjE)
  from d(2) modes(3) have flat: "flat = []" by simp
  from d(4) esc have attrs: "\<forall>nv\<in>set fs. d (ESEscapeFieldName (fst nv)) = Some (snd nv)"
    by simp
  have fields: "\<exists>d. point_body lib0 ctx0 [] False wide_array q st0
        = Inr (add_docs lib0 ctx0 [(keys_fields, d)] st0)
     \<and> d ''ax'' = Some (GoInt 1) \<and> d ''b'' = Some (GoString ''z'')
     \<and> d ''data'' = Some (GoData [\<lparr>Name = ''a.x'', IValue = 1, SValue = []\<rparr>,
                                    \<lparr>Name = ''b'', IValue = 0, SValue = ''z''\<rparr>])"
  proof (intro exI [of _ d] conjI)
    from F [THEN conjunct2, THEN conjunct2, THEN mp, OF pq]
    show "point_body lib0 ctx0 [] False wide_array q st0
        = Inr (add_docs lib0 ctx0 [(keys_fields, d)] st0)"
      by (simp add: d(1) flat)
    show "d ''ax'' = Some (GoInt 1)" using attrs by (simp add: fs_def ESEscapeFieldName_def)
    show "d ''b'' = Some (GoString ''z'')" using attrs by (simp add: fs_def ESEscapeFieldName_def)
    show "d ''data'' = Some (GoData [\<lparr>Name = ''a.x'', IValue = 1, SValue = []\<rparr>,
                                    \<lparr>Name = ''b'', IValue = 0, SValue = ''z''\<rparr>])"
      using d(3) by (simp only: vals)
  qed
  from M [THEN conjunct2, THEN conjunct1] obtain e flat' where e:
    "merged_branch lib0 ctx0 ''sm'' wide_array q fs st0
       = Inr (add_docs lib0 ctx0 ((keys_merged, e) # map (Pair keys_merged_flat) flat') st0)"
    "length flat' = (if out2 wide_array then length fs else 0)"
    "e ''data'' = Some (GoData (map (named_value lib0) fs))"
    "distinct (escaped_names fs) \<and> ''data'' \<notin> set (escaped_names fs) \<longrightarrow>
       (\<forall>nv\<in>set fs. e (ESEscapeFieldName (fst nv)) = Some (snd nv))"
    by (elim exE conjE)
  from e(2) modes(3) have flat': "flat' = []" by simp
  from e(4) esc have attrs': "\<forall>nv\<in>set fs. e (ESEscapeFieldName (fst nv)) = Some (snd nv)"
    by simp
  have merged: "\<exists>d. point_body lib0 ctx0 ''sm'' True wide_array q st0
        = Inr (add_docs lib0 ctx0 [(keys_merged, d)] st0)
     \<and> d ''ax'' = Some (GoInt 1) \<and> d ''b'' = Some (GoString ''z'')
     \<and> d ''data'' = Some (GoData [\<lparr>Name = ''a.x'', IValue = 1, SValue = []\<rparr>,
                                    \<lparr>Name = ''b'', IValue = 0, SValue = ''z''\<rparr>])"
  proof (intro exI [of _ e] conjI)
    from M [THEN conjunct2, THEN conjunct2, THEN mp, OF pq]
    show "point_body lib0 ctx0 ''sm'' True wide_array q st0
        = Inr (add_docs lib0 ctx0 [(keys_merged, e)] st0)"
      by (simp add: e(1) flat')
    show "e ''ax'' = Some (GoInt 1)" using attrs' by (simp add: fs_def ESEscapeFieldName_def)
    show "e ''b'' = Some (GoString ''z'')" using attrs' by (simp add: fs_def ESEscapeFieldName_def)
    show "e ''data'' = Some (GoData [\<lparr>Name = ''a.x'', IValue = 1, SValue = []\<rparr>,
                                    \<lparr>Name = ''b'', IValue = 0, SValue = ''z''\<rparr>])"
      using e(3) by (simp only: vals)
  qed
  from tags fields merged show ?thesis
    unfolding q_def fs_def st0_def by (intro conjI)
qed

text \<open>
  C7, as the claim states it, fails when wide output writes a field under the attribute
  name \<open>series\<close>: two points of the series \<open>a\<close> and \<open>b\<close>, with the same time and
  period and a field \<open>series\<close> of the same value, yield two insert requests whose
  documents have the same \<open>series\<close> attribute and the same identity, so that the
  second overwrites the first.
\<close>

theorem merged_series_collision_counterexample:
  "pt_name (mk_point ''a'' None (Some [(''series'', GoString ''x'')]))
     \<noteq> pt_name (mk_point ''b'' None (Some [(''series'', GoString ''x'')]))
   \<and> (case points_loop lib0 ctx0 ''sm'' True wide_only
              [mk_point ''a'' None (Some [(''series'', GoString ''x'')]),
               mk_point ''b'' None (Some [(''series'', GoString ''x'')])] (([], []), 0) of
         Inl e \<Rightarrow> []
       | Inr st \<Rightarrow> map (\<lambda>r. (req_Id r, req_Doc r ''series'')) (snd (fst st)))
     = [(''sm|1970-01-01 00:00:00|d|x|'', Some (GoString ''x'')),
        (''sm|1970-01-01 00:00:00|d|x|'', Some (GoString ''x''))]"
  by (simp add: lib0_def ctx0_def mk_point_def wide_only_def point_body_def merged_branch_def
      merged_doc_def out0_def out1_def out2_def add_item_def AddBulksItems_def Let_def
      ESIndexName_def ESEscapeFieldName_def)

text \<open>
  C7, amended. Take merge mode on and wide or array output, and points with fields such
  that, with array output, every field value is a string or coercible to a number and,
  with wide output, no field has the name \<open>type\<close> or \<open>series\<close> once the dots are
  stripped. The wide or array document of such a point is one document with the key
  fields \<open>type, time, period, series\<close>; its type is \<open>s\<close> followed by the merge label
  and its \<open>series\<close> attribute is the series name. Two such points of different series
  have different values of the key fields, whatever their time and period, and their
  documents differ. When \<open>HashObject\<close> gives the two documents the same identity only
  for equal values of the key fields, their identities differ: without tags and without
  flat output, the loop over the two points builds an insert batch of two requests, one
  for each document, with two different identities, so that neither insert overwrites
  the other.
\<close>

theorem merged_wide_document:
  assumes "out0 outputs \<or> out1 outputs"
    and "pt_fields p = Some fs" and "pt_fields q = Some gs"
    and "out1 outputs \<longrightarrow> (\<forall>nv\<in>set (fs @ gs). coercible lib (snd nv))"
    and "out0 outputs \<longrightarrow> ''type'' \<notin> set (escaped_names (fs @ gs))
           \<and> ''series'' \<notin> set (escaped_names (fs @ gs))"
  shows "\<exists>dp dq.
       (\<forall>st. merged_doc lib ctx (''s'' @ label) outputs p fs st
               = Inr (add_docs lib ctx [(keys_merged, dp)] st))
     \<and> (\<forall>st. merged_doc lib ctx (''s'' @ label) outputs q gs st
               = Inr (add_docs lib ctx [(keys_merged, dq)] st))
     \<and> dp ''type'' = Some (GoString (''s'' @ label))
     \<and> dp ''series'' = Some (GoString (pt_name p))
     \<and> dq ''type'' = Some (GoString (''s'' @ label))
     \<and> dq ''series'' = Some (GoString (pt_name q))
     \<and> (pt_name p \<noteq> pt_name q \<longrightarrow> map dp keys_merged \<noteq> map dq keys_merged \<and> dp \<noteq> dq)
     \<and> (label \<noteq> [] \<and> \<not> out2 outputs \<and> pt_tags p = None \<and> pt_tags q = None \<longrightarrow>
          merge_mode label = (''s'' @ label, True)
        \<and> points_loop lib ctx (''s'' @ label) True outputs [p, q] st
            = Inr (add_docs lib ctx [(keys_merged, dp), (keys_merged, dq)] st))
     \<and> (pt_name p \<noteq> pt_name q \<and> collision_free_on lib keys_merged {dp, dq} \<longrightarrow>
          HashObject lib dp keys_merged \<noteq> HashObject lib dq keys_merged
        \<and> (label \<noteq> [] \<and> \<not> out2 outputs \<and> pt_tags p = None \<and> pt_tags q = None \<longrightarrow>
             (\<exists>st'. points_loop lib ctx (''s'' @ label) True outputs [p, q] (Bulks es, 0)
                      = Inr st'
                \<and> map req_Doc (snd (fst st')) = [dp, dq]
                \<and> map req_Id (snd (fst st'))
                    = [HashObject lib dp keys_merged, HashObject lib dq keys_merged]
                \<and> distinct (map req_Id (snd (fst st'))))))"
proof -
  have one: "\<exists>d. (\<forall>st. merged_doc lib ctx (''s'' @ label) outputs r hs st
                     = Inr (add_docs lib ctx [(keys_merged, d)] st))
      \<and> d ''type'' = Some (GoString (''s'' @ label))
      \<and> d ''series'' = Some (GoString (pt_name r))"
    if co: "out1 outputs \<longrightarrow> (\<forall>nv\<in>set hs. coercible lib (snd nv))"
      and fr: "out0 outputs \<longrightarrow> ''type'' \<notin> set (escaped_names hs)
           \<and> ''series'' \<notin> set (escaped_names hs)"
    for r and hs :: "(string \<times> iface) list"
  proof -
    define hdr where "hdr = [''type'' \<mapsto> GoString (''s'' @ label),
               ''time'' \<mapsto> GoString (ToESDate lib (pt_t r)),
               ''period'' \<mapsto> GoString (pt_period r),
               ''series'' \<mapsto> GoString (pt_name r),
               ''time_added'' \<mapsto> GoString (ToESDate lib (pt_added r))]"
    from fields_loop_ok [OF co, of "(hdr, [])"] obtain od where
      od: "fields_loop lib outputs hs (hdr, []) = Inr od" by blast
    define d where "d = (if out1 outputs then (fst od)(''data'' \<mapsto> GoData (snd od)) else fst od)"
    have run: "\<forall>st. merged_doc lib ctx (''s'' @ label) outputs r hs st
        = Inr (add_docs lib ctx [(keys_merged, d)] st)"
      using od by (simp add: merged_doc_run hdr_def d_def keys_merged_def)
    from fr have f1: "\<not> out0 outputs \<or> ''type'' \<notin> set (escaped_names hs)"
      and f2: "\<not> out0 outputs \<or> ''series'' \<notin> set (escaped_names hs)" by auto
    from wide_doc_header_kept [OF od _ f1] have ty: "d ''type'' = Some (GoString (''s'' @ label))"
      by (simp add: d_def hdr_def)
    from wide_doc_header_kept [OF od _ f2] have se: "d ''series'' = Some (GoString (pt_name r))"
      by (simp add: d_def hdr_def)
    from run ty se show ?thesis by blast
  qed
  from assms(4,5) have "out1 outputs \<longrightarrow> (\<forall>nv\<in>set fs. coercible lib (snd nv))"
    "out0 outputs \<longrightarrow> ''type'' \<notin> set (escaped_names fs) \<and> ''series'' \<notin> set (escaped_names fs)"
    by (auto simp: escaped_names_def)
  from one [OF this, of p] obtain dp where dp:
    "\<forall>st. merged_doc lib ctx (''s'' @ label) outputs p fs st
        = Inr (add_docs lib ctx [(keys_merged, dp)] st)"
    "dp ''type'' = Some (GoString (''s'' @ label))"
    "dp ''series'' = Some (GoString (pt_name p))"
    by blast
  from assms(4,5) have "out1 outputs \<longrightarrow> (\<forall>nv\<in>set gs. coercible lib (snd nv))"
    "out0 outputs \<longrightarrow> ''type'' \<notin> set (escaped_names gs) \<and> ''series'' \<notin> set (escaped_names gs)"
    by (auto simp: escaped_names_def)
  from one [OF this, of q] obtain dq where dq:
    "\<forall>st. merged_doc lib ctx (''s'' @ label) outputs q gs st
        = Inr (add_docs lib ctx [(keys_merged, dq)] st)"
    "dq ''type'' = Some (GoString (''s'' @ label))"
    "dq ''series'' = Some (GoString (pt_name q))"
    by blast
  have differ: "pt_name p \<noteq> pt_name q \<longrightarrow> map dp keys_merged \<noteq> map dq keys_merged \<and> dp \<noteq> dq"
    using dp(3) dq(3) by (auto simp: keys_merged_def)
  have loop: "label \<noteq> [] \<and> \<not> out2 outputs \<and> pt_tags p = None \<and> pt_tags q = None \<longrightarrow>
          merge_mode label = (''s'' @ label, True)
        \<and> points_loop lib ctx (''s'' @ label) True outputs [p, q] s
            = Inr (add_docs lib ctx [(keys_merged, dp), (keys_merged, dq)] s)" for s
  proof (intro impI conjI)
    assume h: "label \<noteq> [] \<and> \<not> out2 outputs \<and> pt_tags p = None \<and> pt_tags q = None"
    then show "merge_mode label = (''s'' @ label, True)" by (simp add: merge_mode_def)
    have dp1: "merged_doc lib ctx (CHR ''s'' # label) outputs p fs st
        = Inr (add_docs lib ctx [(keys_merged, dp)] st)" for st
      using dp(1) [rule_format, of st] by simp
    have dq1: "merged_doc lib ctx (CHR ''s'' # label) outputs q gs st
        = Inr (add_docs lib ctx [(keys_merged, dq)] st)" for st
      using dq(1) [rule_format, of st] by simp
    have bp: "point_body lib ctx (CHR ''s'' # label) True outputs p st
        = Inr (add_docs lib ctx [(keys_merged, dp)] st)" for st
      using h assms(1,2) by (simp add: point_body_eq merged_branch_def dp1)
    have bq: "point_body lib ctx (CHR ''s'' # label) True outputs q st
        = Inr (add_docs lib ctx [(keys_merged, dq)] st)" for st
      using h assms(1,3) by (simp add: point_body_eq merged_branch_def dq1)
    show "points_loop lib ctx (''s'' @ label) True outputs [p, q] s
            = Inr (add_docs lib ctx [(keys_merged, dp), (keys_merged, dq)] s)"
      by (simp add: bp bq add_docs_add_docs)
  qed
  have ids: "pt_name p \<noteq> pt_name q \<and> collision_free_on lib keys_merged {dp, dq} \<longrightarrow>
          HashObject lib dp keys_merged \<noteq> HashObject lib dq keys_merged
        \<and> (label \<noteq> [] \<and> \<not> out2 outputs \<and> pt_tags p = None \<and> pt_tags q = None \<longrightarrow>
             (\<exists>st'. points_loop lib ctx (''s'' @ label) True outputs [p, q] (Bulks es, 0)
                      = Inr st'
                \<and> map req_Doc (snd (fst st')) = [dp, dq]
                \<and> map req_Id (snd (fst st'))
                    = [HashObject lib dp keys_merged, HashObject lib dq keys_merged]
                \<and> distinct (map req_Id (snd (fst st')))))"
  proof (intro impI conjI)
    assume h: "pt_name p \<noteq> pt_name q \<and> collision_free_on lib keys_merged {dp, dq}"
    with differ have "map dp keys_merged \<noteq> map dq keys_merged" by simp
    with h show ne: "HashObject lib dp keys_merged \<noteq> HashObject lib dq keys_merged"
      by (auto simp: collision_free_on_def)
    assume l: "label \<noteq> [] \<and> \<not> out2 outputs \<and> pt_tags p = None \<and> pt_tags q = None"
    define st' where
      "st' = add_docs lib ctx [(keys_merged, dp), (keys_merged, dq)] (Bulks es, 0)"
    from loop [of "(Bulks es, 0)"] l
    have run: "points_loop lib ctx (''s'' @ label) True outputs [p, q] (Bulks es, 0) = Inr st'"
      by (simp add: st'_def)
    have batch: "map req_Doc (snd (fst st')) = [dp, dq]"
      "map req_Id (snd (fst st'))
         = [HashObject lib dp keys_merged, HashObject lib dq keys_merged]"
      by (simp_all add: st'_def add_docs_def Bulks_def)
    from batch(2) ne have "distinct (map req_Id (snd (fst st')))" by simp
    with run batch
    show "\<exists>st'. points_loop lib ctx (''s'' @ label) True outputs [p, q] (Bulks es, 0)
                      = Inr st'
                \<and> map req_Doc (snd (fst st')) = [dp, dq]
                \<and> map req_Id (snd (fst st'))
                    = [HashObject lib dp keys_merged, HashObject lib dq keys_merged]
                \<and> distinct (map req_Id (snd (fst st')))"
      by (intro exI [of _ st'] conjI)
  qed
  show ?thesis
  proof (rule exI [of _ dp], rule exI [of _ dq], intro conjI)
    show "\<forall>st. merged_doc lib ctx (''s'' @ label) outputs p fs st
               = Inr (add_docs lib ctx [(keys_merged, dp)] st)" by (rule dp(1))
    show "\<forall>st. merged_doc lib ctx (''s'' @ label) outputs q gs st
               = Inr (add_docs lib ctx [(keys_merged, dq)] st)" by (rule dq(1))
    show "dp ''type'' = Some (GoString (''s'' @ label))" by (rule dp(2))
    show "dp ''series'' = Some (GoString (pt_name p))" by (rule dp(3))
    show "dq ''type'' = Some (GoString (''s'' @ label))" by (rule dq(2))
    show "dq ''series'' = Some (GoString (pt_name q))" by (rule dq(3))
    show "pt_name p \<noteq> pt_name q \<longrightarrow> map dp keys_merged \<noteq> map dq keys_merged \<and> dp \<noteq> dq"
      by (rule differ)
    show "label \<noteq> [] \<and> \<not> out2 outputs \<and> pt_tags p = None \<and> pt_tags q = None \<longrightarrow>
          merge_mode label = (''s'' @ label, True)
        \<and> points_loop lib ctx (''s'' @ label) True outputs [p, q] st
            = Inr (add_docs lib ctx [(keys_merged, dp), (keys_merged, dq)] st)"
      by (rule loop)
    show "pt_name p \<noteq> pt_name q \<and> collision_free_on lib keys_merged {dp, dq} \<longrightarrow>
          HashObject lib dp keys_merged \<noteq> HashObject lib dq keys_merged
        \<and> (label \<noteq> [] \<and> \<not> out2 outputs \<and> pt_tags p = None \<and> pt_tags q = None \<longrightarrow>
             (\<exists>st'. points_loop lib ctx (''s'' @ label) True outputs [p, q] (Bulks es, 0)
                      = Inr st'
                \<and> map req_Doc (snd (fst st')) = [dp, dq]
                \<and> map req_Id (snd (fst st'))
                    = [HashObject lib dp keys_merged, HashObject lib dq keys_merged]
                \<and> distinct (map req_Id (snd (fst st')))))"
      by (rule ids)
  qed
qed

theorem merged_wide_document_witness:
  "\<exists>dp dq st'. points_loop lib0 ctx0 ''sm'' True wide_only
               [mk_point ''a'' None (Some [(''v'', GoFloat64 1)]),
                mk_point ''b'' None (Some [(''v'', GoFloat64 2)])] (Bulks es_ok, 0)
             = Inr st'
     \<and> points_loop lib0 ctx0 ''sm'' True wide_only
               [mk_point ''a'' None (Some [(''v'', GoFloat64 1)]),
                mk_point ''b'' None (Some [(''v'', GoFloat64 2)])] (([], []), 0)
             = Inr (add_docs lib0 ctx0 [(keys_merged, dp), (keys_merged, dq)] (([], []), 0))
     \<and> map req_Doc (snd (fst st')) = [dp, dq]
     \<and> dp ''type'' = Some (GoString ''sm'') \<and> dq ''type'' = Some (GoString ''sm'')
     \<and> dp ''series'' = Some (GoString ''a'') \<and> dq ''series'' = Some (GoString ''b'')
     \<and> map dp keys_merged \<noteq> map dq keys_merged
     \<and> map req_Id (snd (fst st'))
         = [HashObject lib0 dp keys_merged, HashObject lib0 dq keys_merged]
     \<and> map req_Id (snd (fst st'))
         = [''sm|1970-01-01 00:00:00|d|a|'', ''sm|1970-01-01 00:00:00|d|b|'']
     \<and> distinct (map req_Id (snd (fst st')))"
proof -
  define fs where "fs = [(''v'', GoFloat64 1)]"
  define gs where "gs = [(''v'', GoFloat64 2)]"
  define p where "p = mk_point ''a'' None (Some fs)"
  define q where "q = mk_point ''b'' None (Some gs)"
  define st0 :: acc where "st0 = (([], []), 0)"
  define r :: "doc \<Rightarrow> string \<Rightarrow> string" where
    "r = (\<lambda>d k. case d k of Some (GoString s) \<Rightarrow> s @ ''|'' | _ \<Rightarrow> ''?|'')"
  have hyps: "out0 wide_only \<or> out1 wide_only" "pt_fields p = Some fs" "pt_fields q = Some gs"
    "out1 wide_only \<longrightarrow> (\<forall>nv\<in>set (fs @ gs). coercible lib0 (snd nv))"
    "out0 wide_only \<longrightarrow> ''type'' \<notin> set (escaped_names (fs @ gs))
       \<and> ''series'' \<notin> set (escaped_names (fs @ gs))"
    by (simp_all add: wide_only_def out0_def out1_def p_def q_def mk_point_def fs_def gs_def
        escaped_names_def ESEscapeFieldName_def)
  from merged_wide_document
    [OF hyps, where ctx = ctx0 and label = "''m''" and st = st0 and es = es_ok]
  obtain dp dq where
    ty: "dp ''type'' = Some (GoString (''s'' @ ''m''))" "dq ''type'' = Some (GoString (''s'' @ ''m''))"
    and se: "dp ''series'' = Some (GoString (pt_name p))"
      "dq ''series'' = Some (GoString (pt_name q))"
    and df: "pt_name p \<noteq> pt_name q \<longrightarrow> map dp keys_merged \<noteq> map dq keys_merged \<and> dp \<noteq> dq"
    and lp: "''m'' \<noteq> [] \<and> \<not> out2 wide_only \<and> pt_tags p = None \<and> pt_tags q = None \<longrightarrow>
          merge_mode ''m'' = (''s'' @ ''m'', True)
        \<and> points_loop lib0 ctx0 (''s'' @ ''m'') True wide_only [p, q] st0
            = Inr (add_docs lib0 ctx0 [(keys_merged, dp), (keys_merged, dq)] st0)"
    and id: "pt_name p \<noteq> pt_name q \<and> collision_free_on lib0 keys_merged {dp, dq} \<longrightarrow>
          HashObject lib0 dp keys_merged \<noteq> HashObject lib0 dq keys_merged
        \<and> (''m'' \<noteq> [] \<and> \<not> out2 wide_only \<and> pt_tags p = None \<and> pt_tags q = None \<longrightarrow>
             (\<exists>st'. points_loop lib0 ctx0 (''s'' @ ''m'') True wide_only [p, q]
                        (Bulks es_ok, 0) = Inr st'
                \<and> map req_Doc (snd (fst st')) = [dp, dq]
                \<and> map req_Id (snd (fst st'))
                    = [HashObject lib0 dp keys_merged, HashObject lib0 dq keys_merged]
                \<and> distinct (map req_Id (snd (fst st')))))"
    by (elim exE conjE)
  have names: "pt_name p = ''a''" "pt_name q = ''b''" "pt_tags p = None" "pt_tags q = None"
    by (simp_all add: p_def q_def mk_point_def)
  from lp names have run: "points_loop lib0 ctx0 ''sm'' True wide_only [p, q] st0
      = Inr (add_docs lib0 ctx0 [(keys_merged, dp), (keys_merged, dq)] st0)"
    by (simp add: wide_only_def out2_def)
  from df names have diff: "map dp keys_merged \<noteq> map dq keys_merged" by simp
  from ty have ty': "dp ''type'' = Some (GoString ''sm'')" "dq ''type'' = Some (GoString ''sm'')"
    by simp_all
  from se names have se': "dp ''series'' = Some (GoString ''a'')"
    "dq ''series'' = Some (GoString ''b'')" by simp_all
  have hash: "HashObject lib0 d keys_merged
      = (r d ''type'' @ r d ''time'' @ r d ''period'') @ r d ''series''" for d
    by (simp add: lib0_def keys_merged_def r_def)
  have last: "r dp ''series'' = ''a|''" "r dq ''series'' = ''b|''"
    by (simp_all add: r_def se')
  have ne: "HashObject lib0 dp keys_merged \<noteq> HashObject lib0 dq keys_merged"
    unfolding hash last by simp
  have cf: "collision_free_on lib0 keys_merged {dp, dq}"
    using ne by (auto simp: collision_free_on_def)
  from id names cf
  have "\<exists>st'. points_loop lib0 ctx0 ''sm'' True wide_only [p, q] (Bulks es_ok, 0) = Inr st'
                \<and> map req_Doc (snd (fst st')) = [dp, dq]
                \<and> map req_Id (snd (fst st'))
                    = [HashObject lib0 dp keys_merged, HashObject lib0 dq keys_merged]
                \<and> distinct (map req_Id (snd (fst st')))"
    by (simp add: wide_only_def out2_def)
  then obtain st' where
    run': "points_loop lib0 ctx0 ''sm'' True wide_only [p, q] (Bulks es_ok, 0) = Inr st'"
    and docs: "map req_Doc (snd (fst st')) = [dp, dq]"
    and ids: "map req_Id (snd (fst st'))
                = [HashObject lib0 dp keys_merged, HashObject lib0 dq keys_merged]"
    and dist: "distinct (map req_Id (snd (fst st')))"
    by (elim exE conjE)
  have conc: "(case points_loop lib0 ctx0 ''sm'' True wide_only [p, q] (Bulks es_ok, 0) of
                 Inl e \<Rightarrow> []
               | Inr st \<Rightarrow> map req_Id (snd (fst st)))
              = [''sm|1970-01-01 00:00:00|d|a|'', ''sm|1970-01-01 00:00:00|d|b|'']"
    by (simp add: p_def q_def fs_def gs_def lib0_def ctx0_def mk_point_def wide_only_def
        point_body_def merged_branch_def merged_doc_def out0_def out1_def out2_def
        add_item_def AddBulksItems_def Bulks_def Let_def ESIndexName_def ESEscapeFieldName_def)
  from conc run' have ids': "map req_Id (snd (fst st'))
      = [''sm|1970-01-01 00:00:00|d|a|'', ''sm|1970-01-01 00:00:00|d|b|'']"
    by simp
  from run' run docs ty' se' diff ids ids' dist show ?thesis
    unfolding p_def q_def fs_def gs_def st0_def
    by (intro exI [of _ dp] exI [of _ dq] exI [of _ st'] conjI)
qed

end
